(* ===== verification/Prelude.thy ===== *)
theory Prelude
  imports Complex_Main "HOL-Library.Word" "HOL-Library.AList" "HOL-Library.Signed_Division"
    "HOL-Library.State_Monad" "HOL-Library.Multiset"
begin

text \<open>
  Shared ground of the development: Go's integer types, the two ways a Go call can fail,
  Go's integer division, decimal formatting, and the generic facts about words,
  association lists (Go maps) and state-monad programs that every component uses.

  Conventions.  An \<open>int32\<close> or \<open>int64\<close> of the source is a word of that width and is always
  read through \<^const>\<open>sint\<close>; a \<open>map[string]int64\<close> is an association list with distinct
  keys whose list order is the (unspecified) order in which Go ranges over it; a
  \<open>time.Time\<close> is the number of nanoseconds since the zero time, so \<open>time.Time{}\<close> is \<open>0\<close>.
\<close>

section \<open>Types\<close>

type_synonym int32 = "32 word"
type_synonym int64 = "64 word"
type_synonym gotime = int

text \<open>
  A call of the source ends in a value, in a returned \<open>error\<close> (\<open>Err\<close>, with the text of
  \<open>Error()\<close>) or in a run-time panic (\<open>Panic\<close>, with the text \<open>recover\<close> would print).
\<close>

datatype fault = Err string | Panic string

named_theorems run_simps \<open>unfolding state-monad programs\<close>
named_theorems word_reads \<open>reading word arithmetic through sint\<close>

text \<open>A signed reading stays a \<^const>\<open>sint\<close> under the conversion to other number types.\<close>

declare of_int_sint [simp del]

section \<open>Go integer operations\<close>

text \<open>Division of signed 64-bit integers truncates towards zero and panics on a zero divisor.\<close>

definition div64 :: "int64 \<Rightarrow> int64 \<Rightarrow> fault + int64" where
  "div64 a b = (if b = 0 then Inl (Panic ''runtime error: integer divide by zero'')
                else Inr (word_of_int (sint a sdiv sint b)))"

text \<open>The conversion \<open>int32(x)\<close> of an \<open>int64\<close> keeps the low 32 bits.\<close>

definition int32_of_int64 :: "int64 \<Rightarrow> int32" where
  "int32_of_int64 x = word_of_int (sint x)"

lemma sint32_range: "- 2147483648 \<le> sint (x :: int32)" "sint (x :: int32) < 2147483648"
  using sint_greater_eq [of x] sint_less [of x] by simp_all

lemma sint64_range:
  "- 9223372036854775808 \<le> sint (x :: int64)" "sint (x :: int64) < 9223372036854775808"
  using sint_greater_eq [of x] sint_less [of x] by simp_all

lemma sint32_of_int [word_reads]:
  "- 2147483648 \<le> i \<Longrightarrow> i < 2147483648 \<Longrightarrow> sint (word_of_int i :: int32) = i"
  by (simp add: sint_sbintrunc' signed_take_bit_int_eq_self)

lemma sint64_of_int [word_reads]:
  "- 9223372036854775808 \<le> i \<Longrightarrow> i < 9223372036854775808 \<Longrightarrow> sint (word_of_int i :: int64) = i"
  by (simp add: sint_sbintrunc' signed_take_bit_int_eq_self)

lemma sint64_add [word_reads]:
  "- 9223372036854775808 \<le> sint a + sint b \<Longrightarrow> sint a + sint b < 9223372036854775808
   \<Longrightarrow> sint (a + b :: int64) = sint a + sint b"
  by (simp add: sint_word_add signed_take_bit_int_eq_self)

lemma sint64_mult [word_reads]:
  "- 9223372036854775808 \<le> sint a * sint b \<Longrightarrow> sint a * sint b < 9223372036854775808
   \<Longrightarrow> sint (a * b :: int64) = sint a * sint b"
  by (simp add: sint_word_mult signed_take_bit_int_eq_self)

lemma sint_eq_iff: "(x = y) = (sint x = sint (y :: 'a::len word))"
  by (metis scast_eq scast_id)

section \<open>Decimal formatting (the verb \<open>%d\<close> of \<open>fmt\<close>)\<close>

fun digits :: "nat \<Rightarrow> string" where
  "digits n = (if n < 10 then [char_of (n + 48)] else digits (n div 10) @ [char_of (n mod 10 + 48)])"

declare digits.simps [simp del]

definition itoa :: "int \<Rightarrow> string" where
  "itoa i = (if i < 0 then ''-'' @ digits (nat (- i)) else digits (nat i))"

text \<open>The format \<open>'%s'\<close>: the argument between two apostrophes.\<close>

definition apos :: string where "apos = [CHR 0x27]"

definition quoted :: "string \<Rightarrow> string" where
  "quoted s = apos @ s @ apos"

section \<open>Go maps as association lists\<close>

definition wf_map :: "('k \<times> 'v) list \<Rightarrow> bool" where
  "wf_map m \<longleftrightarrow> distinct (map fst m)"

lemma wf_map_empty [simp]: "wf_map []"
  by (simp add: wf_map_def)

lemma wf_map_update [simp]: "wf_map m \<Longrightarrow> wf_map (AList.update k v m)"
  by (simp add: wf_map_def distinct_update)

lemma wf_map_delete [simp]: "wf_map m \<Longrightarrow> wf_map (AList.delete k m)"
  by (simp add: wf_map_def distinct_delete)

text \<open>Two well-formed lists with the same lookups hold the same entries, in some order.\<close>

lemma wf_map_same_entries:
  assumes "wf_map m" "wf_map m'" "map_of m = map_of m'"
  shows "mset m = mset m'"
proof (rule set_eq_iff_mset_eq_distinct [THEN iffD1])
  show "distinct m" "distinct m'"
    using assms(1,2) by (auto simp: wf_map_def distinct_map)
  show "set m = set m'"
    using assms map_of_eq_Some_iff unfolding wf_map_def by (metis (no_types) subsetI subset_antisym surj_pair)
qed

lemma wf_map_same_length: "wf_map m \<Longrightarrow> wf_map m' \<Longrightarrow> map_of m = map_of m' \<Longrightarrow> length m = length m'"
  by (metis wf_map_same_entries size_mset)

section \<open>Running state-monad programs\<close>

lemma run_state_if [run_simps]:
  "run_state (if b then m else n) s = (if b then run_state m s else run_state n s)"
  by simp

lemma run_state_case_sum [run_simps]:
  "run_state (case r of Inl e \<Rightarrow> f e | Inr v \<Rightarrow> g v) s
   = (case r of Inl e \<Rightarrow> run_state (f e) s | Inr v \<Rightarrow> run_state (g v) s)"
  by (cases r) simp_all

lemma run_state_case_option [run_simps]:
  "run_state (case r of None \<Rightarrow> f | Some v \<Rightarrow> g v) s
   = (case r of None \<Rightarrow> run_state f s | Some v \<Rightarrow> run_state (g v) s)"
  by (cases r) simp_all

end
