(* ===== verification/Float64.thy ===== *)
theory Float64
  imports Prelude "HOL-Library.Log_Nat"
begin

text \<open>
  Go's \<open>float64\<close>: IEEE-754 binary64 with the special values written out, and the operations
  the controller uses (\<open>/\<close>, \<open>*\<close>, \<open>-\<close>, the comparisons, \<open>math.Abs\<close>, \<open>math.Max\<close>,
  \<open>math.Ceil\<close>, the conversions from and to integers).  A finite non-zero value is held as
  the rational it denotes; every arithmetic result is the exact result rounded to the
  nearest representable value, ties to even, with gradual underflow and overflow to infinity.

  Out-of-range conversions to an integer are implementation-dependent in Go; the model has
  the result of the platform the Dockerfile builds for (GOARCH=amd64, CVTTSD2SL and
  CVTTSD2SQ): the most negative integer.

  The lemmas show that rounding is monotone, odd, and exact on the integers up to \<open>2^53\<close>,
  which the locale \<open>rounding\<close> packages for the replica arithmetic.
\<close>

section \<open>Values\<close>

datatype f64 = F_NaN | F_Inf bool | F_Zero bool | F_Num rat

text \<open>\<open>F_Inf\<close> and \<open>F_Zero\<close> carry the sign bit (\<open>True\<close> is negative).\<close>

fun f64_val :: "f64 \<Rightarrow> rat" where
  "f64_val (F_Num q) = q"
| "f64_val _ = 0"

fun f64_finite :: "f64 \<Rightarrow> bool" where
  "f64_finite (F_Num q) = True"
| "f64_finite (F_Zero s) = True"
| "f64_finite _ = False"

fun f64_neg :: "f64 \<Rightarrow> bool" where
  "f64_neg F_NaN = False"
| "f64_neg (F_Inf s) = s"
| "f64_neg (F_Zero s) = s"
| "f64_neg (F_Num q) = (q < 0)"

section \<open>Rounding to nearest, ties to even\<close>

definition rne :: "rat \<Rightarrow> int" where
  "rne x = (let f = \<lfloor>x\<rfloor>; d = x - of_int f in
     if d < 1/2 then f else if d > 1/2 then f + 1 else if even f then f else f + 1)"

text \<open>The binary exponent: the \<open>e\<close> with \<open>2^e \<le> q < 2^(e+1)\<close>, for positive \<open>q\<close>.\<close>

definition ilog2 :: "rat \<Rightarrow> int" where
  "ilog2 q = (let (n, d) = quotient_of q; k = bitlen n - bitlen d in
     if 2 powi k \<le> q then k else k - 1)"

definition ulp_exp :: "rat \<Rightarrow> int" where
  "ulp_exp q = max (ilog2 q - 52) (- 1074)"

definition rnd_pos :: "rat \<Rightarrow> rat" where
  "rnd_pos q = (let u = ulp_exp q in of_int (rne (q / 2 powi u)) * 2 powi u)"

definition rnd64 :: "rat \<Rightarrow> rat" where
  "rnd64 q = (if q = 0 then 0 else if q < 0 then - rnd_pos (- q) else rnd_pos q)"

definition f64_round :: "bool \<Rightarrow> rat \<Rightarrow> f64" where
  "f64_round neg q = (let r = rnd64 q in
     if \<bar>r\<bar> \<ge> 2 ^ 1024 then F_Inf (q < 0)
     else if r = 0 then F_Zero (if q = 0 then neg else q < 0)
     else F_Num r)"

section \<open>Arithmetic\<close>

definition f64_of_int :: "int \<Rightarrow> f64" where
  "f64_of_int i = f64_round False (of_int i)"

definition f64_div :: "f64 \<Rightarrow> f64 \<Rightarrow> f64" where
  "f64_div x y = (let s = (f64_neg x \<noteq> f64_neg y) in
     case (x, y) of
       (F_NaN, _) \<Rightarrow> F_NaN
     | (_, F_NaN) \<Rightarrow> F_NaN
     | (F_Inf _, F_Inf _) \<Rightarrow> F_NaN
     | (F_Zero _, F_Zero _) \<Rightarrow> F_NaN
     | (F_Inf _, _) \<Rightarrow> F_Inf s
     | (_, F_Inf _) \<Rightarrow> F_Zero s
     | (_, F_Zero _) \<Rightarrow> F_Inf s
     | (F_Zero _, _) \<Rightarrow> F_Zero s
     | (F_Num p, F_Num q) \<Rightarrow> f64_round s (p / q))"

definition f64_mul :: "f64 \<Rightarrow> f64 \<Rightarrow> f64" where
  "f64_mul x y = (let s = (f64_neg x \<noteq> f64_neg y) in
     case (x, y) of
       (F_NaN, _) \<Rightarrow> F_NaN
     | (_, F_NaN) \<Rightarrow> F_NaN
     | (F_Inf _, F_Zero _) \<Rightarrow> F_NaN
     | (F_Zero _, F_Inf _) \<Rightarrow> F_NaN
     | (F_Inf _, _) \<Rightarrow> F_Inf s
     | (_, F_Inf _) \<Rightarrow> F_Inf s
     | (F_Zero _, _) \<Rightarrow> F_Zero s
     | (_, F_Zero _) \<Rightarrow> F_Zero s
     | (F_Num p, F_Num q) \<Rightarrow> f64_round s (p * q))"

definition f64_sub :: "f64 \<Rightarrow> f64 \<Rightarrow> f64" where
  "f64_sub x y =
     (case (x, y) of
       (F_NaN, _) \<Rightarrow> F_NaN
     | (_, F_NaN) \<Rightarrow> F_NaN
     | (F_Inf s, F_Inf t) \<Rightarrow> (if s = t then F_NaN else F_Inf s)
     | (F_Inf s, _) \<Rightarrow> F_Inf s
     | (_, F_Inf t) \<Rightarrow> F_Inf (\<not> t)
     | (F_Zero s, F_Zero t) \<Rightarrow> F_Zero (s \<and> \<not> t)
     | (_, _) \<Rightarrow> f64_round False (f64_val x - f64_val y))"

fun f64_abs :: "f64 \<Rightarrow> f64" where
  "f64_abs F_NaN = F_NaN"
| "f64_abs (F_Inf s) = F_Inf False"
| "f64_abs (F_Zero s) = F_Zero False"
| "f64_abs (F_Num q) = F_Num \<bar>q\<bar>"

text \<open>Comparisons: every comparison with a NaN is false, the two zeros are equal.\<close>

fun f64_lt :: "f64 \<Rightarrow> f64 \<Rightarrow> bool" where
  "f64_lt F_NaN _ = False"
| "f64_lt _ F_NaN = False"
| "f64_lt (F_Inf s) y = (s \<and> y \<noteq> F_Inf True)"
| "f64_lt x (F_Inf s) = (\<not> s)"
| "f64_lt x y = (f64_val x < f64_val y)"

fun f64_eq :: "f64 \<Rightarrow> f64 \<Rightarrow> bool" where
  "f64_eq F_NaN _ = False"
| "f64_eq _ F_NaN = False"
| "f64_eq (F_Inf s) y = (y = F_Inf s)"
| "f64_eq x (F_Inf s) = False"
| "f64_eq x y = (f64_val x = f64_val y)"

definition f64_le :: "f64 \<Rightarrow> f64 \<Rightarrow> bool" where
  "f64_le x y \<longleftrightarrow> f64_lt x y \<or> f64_eq x y"

text \<open>So that the model reads like the code, \<open><\<close> and \<open>\<le>\<close> on \<open>float64\<close> are these.\<close>

instantiation f64 :: ord
begin

definition less_f64 :: "f64 \<Rightarrow> f64 \<Rightarrow> bool" where "less_f64 = f64_lt"

definition less_eq_f64 :: "f64 \<Rightarrow> f64 \<Rightarrow> bool" where "less_eq_f64 = f64_le"

instance ..

end

text \<open>\<open>math.Max\<close>, with its special cases in the order of the library, and \<open>math.Ceil\<close>.\<close>

definition math_Max :: "f64 \<Rightarrow> f64 \<Rightarrow> f64" where
  "math_Max x y =
     (if x = F_Inf False \<or> y = F_Inf False then F_Inf False
      else if x = F_NaN \<or> y = F_NaN then F_NaN
      else if f64_eq x (F_Zero False) \<and> f64_eq x y then (if f64_neg x then y else x)
      else if f64_lt y x then x else y)"

fun math_Ceil :: "f64 \<Rightarrow> f64" where
  "math_Ceil (F_Num q) = (let c = \<lceil>q\<rceil> in if c = 0 then F_Zero True else F_Num (of_int c))"
| "math_Ceil x = x"

section \<open>Conversions to integers\<close>

definition rat_trunc :: "rat \<Rightarrow> int" where
  "rat_trunc q = (if q < 0 then \<lceil>q\<rceil> else \<lfloor>q\<rfloor>)"

fun int32_of_f64 :: "f64 \<Rightarrow> int32" where
  "int32_of_f64 (F_Num q) = (let t = rat_trunc q in
     if - 2147483648 \<le> t \<and> t < 2147483648 then word_of_int t else 0x80000000)"
| "int32_of_f64 (F_Zero s) = 0"
| "int32_of_f64 x = 0x80000000"

fun int64_of_f64 :: "f64 \<Rightarrow> int64" where
  "int64_of_f64 (F_Num q) = (let t = rat_trunc q in
     if - 9223372036854775808 \<le> t \<and> t < 9223372036854775808 then word_of_int t
     else 0x8000000000000000)"
| "int64_of_f64 (F_Zero s) = 0"
| "int64_of_f64 x = 0x8000000000000000"

section \<open>Rounding is monotone, odd and exact on small integers\<close>

lemma rne_of_int [simp]: "rne (of_int n) = n"
  by (simp add: rne_def)

lemma rne_ge_floor: "\<lfloor>x\<rfloor> \<le> rne x" and rne_le_floor: "rne x \<le> \<lfloor>x\<rfloor> + 1"
  by (simp_all add: rne_def Let_def)

lemma rne_mono: "x \<le> y \<Longrightarrow> rne x \<le> rne y"
proof (cases "\<lfloor>x\<rfloor> = \<lfloor>y\<rfloor>")
  case True
  assume "x \<le> y"
  with True show ?thesis by (auto simp: rne_def Let_def)
next
  case False
  assume "x \<le> y"
  with False have "\<lfloor>x\<rfloor> + 1 \<le> \<lfloor>y\<rfloor>" by (meson floor_mono less_le zless_imp_add1_zle)
  then show ?thesis using rne_le_floor [of x] rne_ge_floor [of y] by linarith
qed

lemma rne_near: "\<bar>of_int (rne x) - x\<bar> \<le> 1/2"
proof -
  have "of_int \<lfloor>x\<rfloor> \<le> x" "x < of_int \<lfloor>x\<rfloor> + 1"
    by linarith+
  then show ?thesis by (auto simp: rne_def Let_def abs_le_iff)
qed

lemma rne_ge_int: "of_int n \<le> x \<Longrightarrow> n \<le> rne x"
  using rne_mono [of "of_int n" x] by simp

lemma rne_le_int: "x \<le> of_int n \<Longrightarrow> rne x \<le> n"
  using rne_mono [of x "of_int n"] by simp

lemma pow2_nat: "0 \<le> e \<Longrightarrow> (2::rat) powi e = of_int (2 ^ nat e)"
  by (simp add: power_int_nonneg_exp)

lemma powi_lessD: "(2::rat) powi a < 2 powi b \<Longrightarrow> a < b"
  by (metis leD not_le_imp_less one_le_numeral power_int_increasing zero_neq_numeral)

lemma pow2_bitlen:
  assumes "0 < n"
  shows "(2::rat) powi (bitlen n - 1) \<le> of_int n" and "of_int n < (2::rat) powi bitlen n"
proof -
  have b: "0 \<le> bitlen n - 1" "0 \<le> bitlen n"
    using assms by (simp_all add: bitlen_alt_def)
  show "(2::rat) powi (bitlen n - 1) \<le> of_int n"
    unfolding pow2_nat [OF b(1)] of_int_le_iff using bitlen_bounds [OF assms] by blast
  show "of_int n < (2::rat) powi bitlen n"
    unfolding pow2_nat [OF b(2)] of_int_less_iff using bitlen_bounds [OF assms] by blast
qed

lemma ilog2_bounds:
  assumes "0 < q" shows "2 powi ilog2 q \<le> q" and "q < 2 powi (ilog2 q + 1)"
proof -
  obtain n d where nd: "quotient_of q = (n, d)" by (cases "quotient_of q")
  have d: "0 < d" using quotient_of_denom_pos [OF nd] .
  have q: "q = of_int n / of_int d" using quotient_of_div [OF nd] .
  with assms d have n: "0 < n" by (simp add: zero_less_divide_iff)
  define k where "k = bitlen n - bitlen d"
  note n1 = pow2_bitlen(1) [OF n] and n2 = pow2_bitlen(2) [OF n]
    and d1 = pow2_bitlen(1) [OF d] and d2 = pow2_bitlen(2) [OF d]
  have "q < 2 powi bitlen n / 2 powi (bitlen d - 1)"
    unfolding q using n d n2 d1 by (intro frac_less) auto
  also have "\<dots> = 2 powi (k + 1)" by (simp add: k_def power_int_diff power_int_add)
  finally have up: "q < 2 powi (k + 1)" .
  have "2 powi (k - 1) = (2::rat) powi (bitlen n - 1) / 2 powi bitlen d"
    by (simp add: k_def power_int_diff)
  also have "\<dots> \<le> q" unfolding q using n d n1 d2 by (intro frac_le) auto
  finally have lo: "2 powi (k - 1) \<le> q" .
  show "2 powi ilog2 q \<le> q" "q < 2 powi (ilog2 q + 1)"
    using up lo by (auto simp: ilog2_def nd k_def Let_def)
qed

lemma ilog2_unique:
  assumes "2 powi e \<le> q" "q < 2 powi (e + 1)" shows "ilog2 q = e"
proof -
  have q: "0 < q" using assms(1) by (meson less_le_trans zero_less_numeral zero_less_power_int)
  have "e < ilog2 q + 1"
    by (rule powi_lessD) (use assms(1) ilog2_bounds(2) [OF q] in linarith)
  moreover have "ilog2 q < e + 1"
    by (rule powi_lessD) (use assms(2) ilog2_bounds(1) [OF q] in linarith)
  ultimately show ?thesis by simp
qed

lemma ilog2_mono:
  assumes "0 < p" "p \<le> q" shows "ilog2 p \<le> ilog2 q"
proof -
  have "2 powi ilog2 p < (2::rat) powi (ilog2 q + 1)"
    using ilog2_bounds(1) [OF assms(1)] ilog2_bounds(2) [of q] assms by linarith
  then have "ilog2 p < ilog2 q + 1"
    by (rule powi_lessD)
  then show ?thesis by simp
qed

text \<open>Evaluation of a rounding from its exponent and its nearest significand.\<close>

lemma rnd_pos_eval:
  assumes "2 powi e \<le> q" "q < 2 powi (e + 1)" "u = max (e - 52) (- 1074)"
    "of_int m - 1 / 2 < q / 2 powi u" "q / 2 powi u < of_int m + 1 / 2"
  shows "rnd_pos q = of_int m * 2 powi u"
proof -
  have u: "ulp_exp q = u" using assms(3) ilog2_unique [OF assms(1,2)] by (simp add: ulp_exp_def)
  define x where "x = q / 2 powi u"
  have "rne x = m"
  proof (cases "of_int m \<le> x")
    case True
    then have "\<lfloor>x\<rfloor> = m" using assms(5) unfolding x_def [symmetric] by linarith
    then show ?thesis using assms(5) unfolding x_def [symmetric] by (simp add: rne_def Let_def)
  next
    case False
    then have "\<lfloor>x\<rfloor> = m - 1" using assms(4) unfolding x_def [symmetric] by linarith
    then show ?thesis using assms(4) unfolding x_def [symmetric] by (simp add: rne_def Let_def)
  qed
  then show ?thesis by (simp add: rnd_pos_def u x_def)
qed

lemma rnd_pos_mono:
  assumes "0 < p" "p \<le> q" shows "rnd_pos p \<le> rnd_pos q"
proof (cases "ulp_exp p = ulp_exp q")
  case True
  with assms show ?thesis
    by (auto simp: rnd_pos_def Let_def intro!: mult_right_mono rne_mono divide_right_mono)
next
  case False
  define u v where "u = ulp_exp p" and "v = ulp_exp q"
  have "u \<le> v" using ilog2_mono [OF assms] by (auto simp: u_def v_def ulp_exp_def)
  with False have uv: "u < v" by (simp add: u_def v_def)
  have v: "v = ilog2 q - 52" and lt: "ilog2 p < ilog2 q"
    using uv by (auto simp: u_def v_def ulp_exp_def max_def split: if_splits)
  define m where "m = nat (v + 52 - u)"
  have "p < 2 powi (ilog2 p + 1)" using ilog2_bounds(2) assms(1) .
  also have "\<dots> \<le> 2 powi (v + 52)" using lt v by (intro power_int_increasing) auto
  finally have "p / 2 powi u \<le> 2 powi (v + 52) / 2 powi u" by (intro divide_right_mono) auto
  also have "\<dots> = of_int (2 ^ m)"
    using uv pow2_nat [of "v + 52 - u"] by (simp add: m_def power_int_diff)
  finally have "rne (p / 2 powi u) \<le> 2 ^ m" by (rule rne_le_int)
  then have "rnd_pos p \<le> of_int (2 ^ m) * 2 powi u"
    unfolding rnd_pos_def Let_def u_def [symmetric] by (intro mult_right_mono) (simp_all only: of_int_le_iff, auto)
  also have "\<dots> = 2 powi (v + 52 - u) * 2 powi u"
    using uv pow2_nat [of "v + 52 - u"] by (simp add: m_def)
  also have "\<dots> = 2 powi (v + 52)" by (simp flip: power_int_add)
  also have "\<dots> \<le> of_int (rne (q / 2 powi v)) * 2 powi v"
  proof -
    have "2 powi (v + 52) \<le> q" using ilog2_bounds(1) [of q] assms v by simp
    then have "of_int (2 ^ 52) \<le> q / 2 powi v"
      by (simp add: power_int_add pos_le_divide_eq)
    then have "2 ^ 52 \<le> rne (q / 2 powi v)" by (rule rne_ge_int)
    then have "(of_int (2 ^ 52) :: rat) \<le> of_int (rne (q / 2 powi v))" by (simp only: of_int_le_iff)
    then have "of_int (2 ^ 52) * (2::rat) powi v \<le> of_int (rne (q / 2 powi v)) * 2 powi v"
      by (rule mult_right_mono) simp
    then show ?thesis by (simp add: power_int_add)
  qed
  finally show ?thesis by (simp add: rnd_pos_def Let_def v_def)
qed

lemma rnd_pos_exact_lt:
  assumes "0 < m" "m < 2 ^ 53" "- 1074 \<le> e"
  shows "rnd_pos (of_int m * 2 powi e) = of_int m * 2 powi e"
proof -
  define q where "q = (of_int m :: rat) * 2 powi e"
  define u where "u = ulp_exp q"
  have q: "0 < q" using assms(1) by (simp add: q_def)
  have "(of_int m :: rat) < of_int (2 ^ 53)" using assms(2) by (simp only: of_int_less_iff)
  then have "q < of_int (2 ^ 53) * 2 powi e"
    unfolding q_def by (rule mult_strict_right_mono) simp
  also have "\<dots> = 2 powi (53 + e)" by (simp add: power_int_add)
  finally have "2 powi ilog2 q < (2::rat) powi (53 + e)"
    using ilog2_bounds(1) [OF q] by linarith
  then have "ilog2 q < 53 + e" by (rule powi_lessD)
  then have u: "u \<le> e" using assms(3) by (simp add: u_def ulp_exp_def)
  have "q / 2 powi u = of_int m * 2 powi (e - u)" by (simp add: q_def power_int_diff)
  also have "\<dots> = of_int (m * 2 ^ nat (e - u))" using u pow2_nat [of "e - u"] by simp
  finally have "q / 2 powi u = of_int (m * 2 ^ nat (e - u))" .
  then have "rne (q / 2 powi u) = m * 2 ^ nat (e - u)" by (simp only: rne_of_int)
  then have "rnd_pos q = of_int m * (2 powi (e - u) * 2 powi u)"
    using u pow2_nat [of "e - u"] by (simp add: rnd_pos_def u_def [symmetric] Let_def)
  also have "\<dots> = q" by (simp add: q_def flip: power_int_add)
  finally show ?thesis by (simp add: q_def)
qed

lemma rnd_pos_exact:
  assumes "0 < m" "m \<le> 2 ^ 53" "- 1074 \<le> e"
  shows "rnd_pos (of_int m * 2 powi e) = of_int m * 2 powi e"
proof (cases "m = 2 ^ 53")
  case True
  have "(of_int m :: rat) * 2 powi e = of_int (2 ^ 52) * 2 powi (e + 1)"
    by (simp add: True power_int_add)
  moreover have "rnd_pos (of_int (2 ^ 52) * 2 powi (e + 1)) = of_int (2 ^ 52) * 2 powi (e + 1)"
    using assms(3) by (intro rnd_pos_exact_lt) auto
  ultimately show ?thesis by simp
next
  case False
  with assms show ?thesis by (intro rnd_pos_exact_lt) auto
qed

lemma rnd_pos_nonneg: "0 < q \<Longrightarrow> 0 \<le> rnd_pos q"
  by (auto simp: rnd_pos_def Let_def intro!: mult_nonneg_nonneg rne_ge_int)

lemma rnd64_uminus: "rnd64 (- q) = - rnd64 q"
  by (auto simp: rnd64_def)

lemma rnd64_tenth: "rnd64 (1 / 10) = 3602879701896397 / 36028797018963968"
proof -
  have "rnd_pos (1 / 10) = of_int 7205759403792794 * 2 powi (- 56)"
    by (rule rnd_pos_eval [where e = "- 4"]) (simp_all add: power_int_minus)
  then show ?thesis by (simp add: rnd64_def power_int_minus)
qed

lemma rnd64_mono: assumes "p \<le> q" shows "rnd64 p \<le> rnd64 q"
proof -
  consider "0 < p" | "q < 0" | "p \<le> 0" "0 \<le> q" using assms by linarith
  then show ?thesis
  proof cases
    case 1 then show ?thesis using assms rnd_pos_mono [of p q] by (simp add: rnd64_def)
  next
    case 2 then show ?thesis using assms rnd_pos_mono [of "- q" "- p"] by (simp add: rnd64_def)
  next
    case 3
    then have "rnd64 p \<le> 0" using rnd_pos_nonneg [of "- p"] by (auto simp: rnd64_def)
    moreover have "0 \<le> rnd64 q" using 3 rnd_pos_nonneg [of q] by (auto simp: rnd64_def)
    ultimately show ?thesis by simp
  qed
qed

lemma rnd64_exact:
  assumes "\<bar>m\<bar> \<le> 2 ^ 53" "- 1074 \<le> e"
  shows "rnd64 (of_int m * 2 powi e) = of_int m * 2 powi e"
proof -
  have pos: "rnd64 (of_int n * 2 powi e) = of_int n * 2 powi e" if "0 < n" "n \<le> 2 ^ 53" for n
  proof -
    define x where "x = (of_int n :: rat) * 2 powi e"
    have "0 < x" "rnd_pos x = x"
      using that assms(2) rnd_pos_exact [of n e] by (simp_all add: x_def)
    then show ?thesis by (simp add: rnd64_def flip: x_def)
  qed
  consider "m = 0" | "0 < m" | "m < 0" by linarith
  then show ?thesis
  proof cases
    case 1 then show ?thesis by (simp add: rnd64_def)
  next
    case 2 then show ?thesis using pos [of m] assms(1) by simp
  next
    case 3 then show ?thesis
      using pos [of "- m"] assms(1) rnd64_uminus [of "of_int m * 2 powi e"] by simp
  qed
qed

lemma rnd64_of_int: "\<bar>n\<bar> \<le> 2 ^ 53 \<Longrightarrow> rnd64 (of_int n) = of_int n"
  using rnd64_exact [of n 0] by simp

text \<open>What replica arithmetic needs of rounding: it is monotone and exact on small integers.\<close>

locale rounding =
  fixes rnd :: "rat \<Rightarrow> rat"
  assumes mono: "x \<le> y \<Longrightarrow> rnd x \<le> rnd y"
    and exact: "\<bar>n\<bar> \<le> 2 ^ 53 \<Longrightarrow> rnd (of_int n) = of_int n"
begin

lemma ge_int: "\<bar>n\<bar> \<le> 2 ^ 53 \<Longrightarrow> of_int n \<le> x \<Longrightarrow> of_int n \<le> rnd x"
  using mono [of "of_int n" x] exact [of n] by simp

lemma le_int: "\<bar>n\<bar> \<le> 2 ^ 53 \<Longrightarrow> x \<le> of_int n \<Longrightarrow> rnd x \<le> of_int n"
  using mono [of x "of_int n"] exact [of n] by simp

lemma ceil_ge: "\<bar>n\<bar> \<le> 2 ^ 53 \<Longrightarrow> of_int n \<le> x \<Longrightarrow> n \<le> \<lceil>rnd x\<rceil>"
  using ge_int [of n x] by (simp add: le_ceiling_iff)

lemma ceil_le: "\<bar>n\<bar> \<le> 2 ^ 53 \<Longrightarrow> x \<le> of_int n \<Longrightarrow> \<lceil>rnd x\<rceil> \<le> n"
  using le_int [of n x] by (simp add: ceiling_le_iff)

lemma ceil_scale_up: "1 \<le> r \<Longrightarrow> 0 \<le> n \<Longrightarrow> n \<le> 2 ^ 53 \<Longrightarrow> n \<le> \<lceil>rnd (r * of_int n)\<rceil>"
  by (rule ceil_ge) (use mult_right_mono [of 1 r "of_int n"] in auto)

lemma ceil_scale_down: "r \<le> 1 \<Longrightarrow> 0 \<le> n \<Longrightarrow> n \<le> 2 ^ 53 \<Longrightarrow> \<lceil>rnd (r * of_int n)\<rceil> \<le> n"
  by (rule ceil_le) (use mult_right_mono [of r 1 "of_int n"] in auto)

lemma quot_gt_1: "0 < b \<Longrightarrow> 1 < rnd (a / b) \<Longrightarrow> b < a"
  using le_int [of 1 "a / b"] by (cases "b < a") (auto simp: divide_le_eq)

lemma quot_lt_1: "0 < b \<Longrightarrow> rnd (a / b) < 1 \<Longrightarrow> a < b"
  using ge_int [of 1 "a / b"] by (cases "a < b") (auto simp: le_divide_eq)

end

interpretation rnd64: rounding rnd64
  by unfold_locales (auto intro: rnd64_mono rnd64_of_int)

section \<open>Values of results\<close>

definition huge :: rat where "huge = 2 ^ 1023"

text \<open>Below \<open>2 ^ 1023\<close> nothing overflows, and the value of a result is the rounded exact value.\<close>

lemma huge_less: "huge < 2 ^ 1024"
  unfolding huge_def by (intro power_strict_increasing) auto

lemma rnd64_huge: "rnd64 huge = huge"
  using rnd64_exact [of 1 1023] by (simp add: huge_def del: power_numeral)

lemma rnd64_bound: assumes "\<bar>q\<bar> \<le> huge" shows "\<bar>rnd64 q\<bar> \<le> huge"
proof -
  have "rnd64 q \<le> huge"
    using rnd64_mono [of q huge] assms unfolding rnd64_huge by linarith
  moreover have "- huge \<le> rnd64 q"
    using rnd64_mono [of "- huge" q] assms unfolding rnd64_uminus rnd64_huge by linarith
  ultimately show ?thesis by linarith
qed

lemma f64_round_val:
  assumes "\<bar>q\<bar> \<le> huge"
  shows "f64_val (f64_round s q) = rnd64 q" "f64_finite (f64_round s q)"
proof -
  have "\<not> 2 ^ 1024 \<le> \<bar>rnd64 q\<bar>" using rnd64_bound [OF assms] huge_less by linarith
  then show "f64_val (f64_round s q) = rnd64 q" "f64_finite (f64_round s q)"
    by (simp_all add: f64_round_def Let_def del: power_numeral)
qed

lemma int_le_huge:
  assumes "\<bar>i\<bar> \<le> 2 ^ 63" shows "\<bar>of_int i :: rat\<bar> \<le> huge"
proof -
  have "(of_int \<bar>i\<bar> :: rat) \<le> of_int (2 ^ 63)" using assms by (simp only: of_int_le_iff)
  also have "\<dots> = 2 ^ 63" by simp
  also have "\<dots> \<le> huge" unfolding huge_def by (rule power_increasing) auto
  finally show ?thesis by simp
qed

lemma f64_of_int_val:
  assumes "\<bar>i\<bar> \<le> 2 ^ 63"
  shows "f64_val (f64_of_int i) = rnd64 (of_int i)" "f64_finite (f64_of_int i)"
  using f64_round_val [OF int_le_huge [OF assms]] by (simp_all add: f64_of_int_def)

lemma f64_of_int_exact:
  assumes "\<bar>i\<bar> \<le> 2 ^ 53"
  shows "f64_of_int i = (if i = 0 then F_Zero False else F_Num (of_int i))"
proof -
  have "\<bar>of_int i :: rat\<bar> \<le> huge" using assms by (intro int_le_huge) simp
  then have "\<not> 2 ^ 1024 \<le> \<bar>of_int i :: rat\<bar>" using huge_less by linarith
  then show ?thesis
    using rnd64_of_int [OF assms] by (auto simp: f64_of_int_def f64_round_def Let_def simp del: power_numeral)
qed

lemma f64_of_int_0 [simp]: "f64_of_int 0 = F_Zero False"
  by (simp add: f64_of_int_exact)

lemma f64_of_int32: "f64_of_int (sint (x :: int32)) = (if sint x = 0 then F_Zero False else F_Num (of_int (sint x)))"
proof -
  have "sint x \<le> 9007199254740992" "- sint x \<le> 9007199254740992"
    using sint32_range [of x] by linarith+
  then have "\<bar>sint x\<bar> \<le> 2 ^ 53" by simp
  then show ?thesis by (simp add: f64_of_int_exact)
qed

subsection \<open>Comparisons and operations through values\<close>

lemma f64_lt_val: "f64_finite x \<Longrightarrow> f64_finite y \<Longrightarrow> f64_lt x y = (f64_val x < f64_val y)"
  by (cases x; cases y) simp_all

lemma f64_eq_val: "f64_finite x \<Longrightarrow> f64_finite y \<Longrightarrow> f64_eq x y = (f64_val x = f64_val y)"
  by (cases x; cases y) simp_all

lemma f64_le_val: "f64_finite x \<Longrightarrow> f64_finite y \<Longrightarrow> f64_le x y = (f64_val x \<le> f64_val y)"
  by (auto simp: f64_le_def f64_lt_val f64_eq_val)

lemma less_f64_val: "f64_finite x \<Longrightarrow> f64_finite y \<Longrightarrow> (x < y) = (f64_val x < f64_val y)"
  by (simp add: less_f64_def f64_lt_val)

lemma less_eq_f64_val: "f64_finite x \<Longrightarrow> f64_finite y \<Longrightarrow> (x \<le> y) = (f64_val x \<le> f64_val y)"
  by (simp add: less_eq_f64_def f64_le_val)

lemma f64_abs_val: "f64_val (f64_abs x) = \<bar>f64_val x\<bar>" "f64_finite (f64_abs x) = f64_finite x"
  by (cases x; simp)+

lemma f64_mul_val:
  assumes "f64_finite x" "f64_finite y" "\<bar>f64_val x * f64_val y\<bar> \<le> huge"
  shows "f64_val (f64_mul x y) = rnd64 (f64_val x * f64_val y)" "f64_finite (f64_mul x y)"
  using assms by (cases x; cases y; simp add: f64_mul_def f64_round_val rnd64_def)+

lemma f64_div_val:
  assumes "f64_finite x" "f64_finite y" "f64_val y \<noteq> 0" "\<bar>f64_val x / f64_val y\<bar> \<le> huge"
  shows "f64_val (f64_div x y) = rnd64 (f64_val x / f64_val y)" "f64_finite (f64_div x y)"
  using assms by (cases x; cases y; simp add: f64_div_def f64_round_val rnd64_def)+

lemma f64_sub_val:
  assumes "f64_finite x" "f64_finite y" "\<bar>f64_val x - f64_val y\<bar> \<le> huge"
  shows "f64_val (f64_sub x y) = rnd64 (f64_val x - f64_val y)" "f64_finite (f64_sub x y)"
  using assms by (cases x; cases y; simp add: f64_sub_def f64_round_val rnd64_def)+

lemma math_Ceil_val:
  "f64_finite x \<Longrightarrow> f64_val (math_Ceil x) = of_int \<lceil>f64_val x\<rceil>"
  "f64_finite (math_Ceil x) = f64_finite x"
  by (cases x; simp add: Let_def)+

lemma rat_trunc_of_int [simp]: "rat_trunc (of_int i) = i"
  by (simp add: rat_trunc_def)

lemma sint_int32_of_f64:
  assumes "f64_finite x" "- 2147483648 \<le> rat_trunc (f64_val x)" "rat_trunc (f64_val x) < 2147483648"
  shows "sint (int32_of_f64 x) = rat_trunc (f64_val x)"
  using assms by (cases x) (auto simp: Let_def word_reads rat_trunc_def)

lemma sint_int32_of_Ceil:
  assumes "f64_finite x" "- 2147483648 \<le> \<lceil>f64_val x\<rceil>" "\<lceil>f64_val x\<rceil> < 2147483648"
  shows "sint (int32_of_f64 (math_Ceil x)) = \<lceil>f64_val x\<rceil>"
  using assms by (subst sint_int32_of_f64) (simp_all add: math_Ceil_val)

text \<open>Outside the range of \<open>int32\<close> the conversion gives the most negative integer.\<close>

lemma int32_of_Ceil_overflow:
  assumes "\<not> f64_finite x \<or> \<lceil>f64_val x\<rceil> < - 2147483648 \<or> 2147483648 \<le> \<lceil>f64_val x\<rceil>"
  shows "sint (int32_of_f64 (math_Ceil x)) = - 2147483648"
proof (cases x)
  case (F_Num q)
  with assms have out: "\<lceil>q\<rceil> < - 2147483648 \<or> 2147483648 \<le> \<lceil>q\<rceil>" by simp
  then have "\<lceil>q\<rceil> \<noteq> 0" "\<not> (- 2147483648 \<le> \<lceil>q\<rceil> \<and> \<lceil>q\<rceil> < 2147483648)" by linarith+
  then show ?thesis by (auto simp: F_Num Let_def)
qed (use assms in auto)

text \<open>The quotient of two integers, as the code computes every usage ratio.\<close>

lemma f64_int_quot:
  assumes "\<bar>a\<bar> \<le> 2 ^ 63" "\<bar>b\<bar> \<le> 2 ^ 63" "b \<noteq> 0"
  shows "f64_val (f64_div (f64_of_int a) (f64_of_int b)) = rnd64 (rnd64 (of_int a) / rnd64 (of_int b))"
    "f64_finite (f64_div (f64_of_int a) (f64_of_int b))"
proof -
  have b1: "1 \<le> \<bar>rnd64 (of_int b)\<bar>"
    using rnd64.ge_int [of 1 "of_int b"] rnd64.le_int [of "-1" "of_int b"] assms(3)
    by (cases "0 < b") auto
  have a1: "\<bar>rnd64 (of_int a)\<bar> \<le> huge"
    by (intro rnd64_bound int_le_huge assms)
  have "\<bar>rnd64 (of_int a) / rnd64 (of_int b)\<bar> \<le> \<bar>rnd64 (of_int a)\<bar> / 1"
    unfolding abs_divide using b1 by (intro divide_left_mono) auto
  with a1 have "\<bar>rnd64 (of_int a) / rnd64 (of_int b)\<bar> \<le> huge" by linarith
  moreover have "rnd64 (of_int b) \<noteq> 0" using b1 by auto
  ultimately show "f64_val (f64_div (f64_of_int a) (f64_of_int b)) = rnd64 (rnd64 (of_int a) / rnd64 (of_int b))"
    "f64_finite (f64_div (f64_of_int a) (f64_of_int b))"
    using f64_div_val [of "f64_of_int a" "f64_of_int b"] f64_of_int_val [OF assms(1)] f64_of_int_val [OF assms(2)]
    by simp_all
qed

section \<open>Whole numbers in float64\<close>

lemma f64_round_numeral:
  "numeral k \<le> (2 ^ 53 :: int) \<Longrightarrow> f64_round s (numeral k) = F_Num (numeral k)"
  using f64_of_int_exact [of "numeral k"] by (simp add: f64_of_int_def f64_round_def Let_def split: if_splits)

lemma f64_round_one: "f64_round s 1 = F_Num 1"
  using f64_of_int_exact [of 1] by (simp add: f64_of_int_def f64_round_def Let_def split: if_splits)

lemma f64_of_int_numeral: "numeral k \<le> (2 ^ 53 :: int) \<Longrightarrow> f64_of_int (numeral k) = F_Num (numeral k)"
  by (simp add: f64_of_int_exact)

lemma f64_of_int_one: "f64_of_int 1 = F_Num 1"
  by (simp add: f64_of_int_exact)

lemma f64_round_neg_one: "f64_round s (- 1) = F_Num (- 1)"
  using f64_of_int_exact [of "- 1"] by (simp add: f64_of_int_def f64_round_def Let_def split: if_splits)

lemma f64_round_half: "f64_round s (1 / 2) = F_Num (1 / 2)"
  using rnd64_exact [of 1 "- 1"] by (simp add: f64_round_def Let_def)

text \<open>The simplifier evaluates calculations on such numbers with these.\<close>

lemmas f64_eval = f64_round_numeral f64_round_one f64_round_neg_one f64_of_int_numeral f64_of_int_one
  f64_div_def f64_mul_def f64_sub_def less_f64_def less_eq_f64_def f64_le_def math_Max_def rat_trunc_def

end
