(* ===== verification/ChpaTypes.thy ===== *)
theory ChpaTypes
  imports Float64
begin

text \<open>
  The data of the program: the CHPA custom resource of
  pkg/apis/autoscalers/v1beta1/chpa_types.go and the parts of the Kubernetes types
  (autoscaling/v2beta1, apps/v1, core/v1, meta/v1) that the controller reads or writes.

  A pointer field is an \<open>option\<close>; a slice is a list (a nil and an empty slice are the same
  to every comparison the code makes); a \<open>resource.Quantity\<close> is its exact decimal value, and
  its conversion to a milli-value is a parameter of the functions that use it; the
  \<open>MatchLabels\<close> of a selector are a finite map.  Metadata the controller never reads is left out.
\<close>

type_synonym quantity = rat

text \<open>\<open>resource.NewMilliQuantity(v, DecimalSI)\<close>\<close>

definition NewMilliQuantity :: "int64 \<Rightarrow> quantity" where
  "NewMilliQuantity v = of_int (sint v) / 1000"

record CrossVersionObjectReference =
  ref_Kind :: string
  ref_Name :: string
  ref_APIVersion :: string

record label_selector =
  MatchLabels :: "string \<rightharpoonup> string"
  MatchExpressions :: "(string \<times> string \<times> string list) list"

section \<open>Metric specifications and statuses (autoscaling/v2beta1)\<close>

record ObjectMetricSource =
  oms_Target :: CrossVersionObjectReference
  oms_MetricName :: string
  oms_TargetValue :: quantity

record PodsMetricSource =
  pms_MetricName :: string
  pms_TargetAverageValue :: quantity

record ResourceMetricSource =
  rms_Name :: string
  rms_TargetAverageUtilization :: "int32 option"
  rms_TargetAverageValue :: "quantity option"

record ExternalMetricSource =
  ems_MetricName :: string
  ems_MetricSelector :: "label_selector option"
  ems_TargetValue :: "quantity option"
  ems_TargetAverageValue :: "quantity option"

record MetricSpec =
  ms_Type :: string
  ms_Object :: "ObjectMetricSource option"
  ms_Pods :: "PodsMetricSource option"
  ms_Resource :: "ResourceMetricSource option"
  ms_External :: "ExternalMetricSource option"

record ObjectMetricStatus =
  omt_Target :: CrossVersionObjectReference
  omt_MetricName :: string
  omt_CurrentValue :: quantity

record PodsMetricStatus =
  pmt_MetricName :: string
  pmt_CurrentAverageValue :: quantity

record ResourceMetricStatus =
  rmt_Name :: string
  rmt_CurrentAverageUtilization :: "int32 option"
  rmt_CurrentAverageValue :: quantity

record ExternalMetricStatus =
  emt_MetricName :: string
  emt_MetricSelector :: "label_selector option"
  emt_CurrentValue :: quantity
  emt_CurrentAverageValue :: "quantity option"

record MetricStatus =
  mt_Type :: string
  mt_Object :: "ObjectMetricStatus option"
  mt_Pods :: "PodsMetricStatus option"
  mt_Resource :: "ResourceMetricStatus option"
  mt_External :: "ExternalMetricStatus option"

text \<open>The zero value of \<open>MetricStatus\<close>, with which \<open>make\<close> fills a slice.\<close>

definition zero_MetricStatus :: MetricStatus where
  "zero_MetricStatus = \<lparr>mt_Type = [], mt_Object = None, mt_Pods = None, mt_Resource = None, mt_External = None\<rparr>"

section \<open>Conditions\<close>

record Condition =
  cond_Type :: string
  cond_Status :: string
  cond_LastTransitionTime :: gotime
  cond_Reason :: string
  cond_Message :: string

section \<open>The CHPA resource\<close>

record CHPASpec =
  DownscaleForbiddenWindowSeconds :: int32
  UpscaleForbiddenWindowSeconds :: int32
  ScaleUpLimitFactor :: f64
  ScaleUpLimitMinimum :: int32
  Tolerance :: f64
  ScaleTargetRef :: CrossVersionObjectReference
  Metrics :: "MetricSpec list"
  MinReplicas :: "int32 option"
  MaxReplicas :: int32

record CHPAStatus =
  ObservedGeneration :: "int64 option"
  LastScaleTime :: "gotime option"
  CurrentReplicas :: int32
  DesiredReplicas :: int32
  CurrentMetrics :: "MetricStatus list"
  Conditions :: "Condition list"

record CHPA =
  chpa_Namespace :: string
  chpa_Name :: string
  chpa_UID :: string
  chpa_CreationTimestamp :: gotime
  Spec :: CHPASpec
  Status :: CHPAStatus

section \<open>Deployments, pods\<close>

record OwnerReference =
  or_APIVersion :: string
  or_Kind :: string
  or_Name :: string
  or_UID :: string
  or_Controller :: "bool option"
  or_BlockOwnerDeletion :: "bool option"

record Deployment =
  dep_Namespace :: string
  dep_Name :: string
  dep_OwnerReferences :: "OwnerReference list"
  dep_Spec_Replicas :: "int32 option"
  dep_Spec_Selector :: "label_selector option"
  dep_Status_Replicas :: int32

record Container =
  ctr_Name :: string
  ctr_Requests :: "(string \<times> quantity) list"

record PodCondition =
  pc_Type :: string
  pc_Status :: string

record Pod =
  pod_Name :: string
  pod_Phase :: string
  pod_Conditions :: "PodCondition list"
  pod_Containers :: "Container list"

text \<open>
  \<open>podutil.IsPodReady\<close>: the first condition of type \<open>Ready\<close> exists and is \<open>True\<close>.
\<close>

fun GetPodConditionFromList :: "PodCondition list \<Rightarrow> string \<Rightarrow> PodCondition option" where
  "GetPodConditionFromList [] t = None"
| "GetPodConditionFromList (c # cs) t = (if pc_Type c = t then Some c else GetPodConditionFromList cs t)"

definition IsPodReady :: "Pod \<Rightarrow> bool" where
  "IsPodReady pod = (case GetPodConditionFromList (pod_Conditions pod) ''Ready'' of
     None \<Rightarrow> False | Some c \<Rightarrow> pc_Status c = ''True'')"

section \<open>Semantic deep equality\<close>

text \<open>
  \<open>apiequality.Semantic.DeepEqual\<close> compares quantities by value, times as instants and floats
  with \<open>==\<close>; with the representation above it is equality but for the two floats of a spec.
\<close>

definition spec_DeepEqual :: "CHPASpec \<Rightarrow> CHPASpec \<Rightarrow> bool" where
  "spec_DeepEqual a b \<longleftrightarrow>
     DownscaleForbiddenWindowSeconds a = DownscaleForbiddenWindowSeconds b \<and>
     UpscaleForbiddenWindowSeconds a = UpscaleForbiddenWindowSeconds b \<and>
     f64_eq (ScaleUpLimitFactor a) (ScaleUpLimitFactor b) \<and>
     ScaleUpLimitMinimum a = ScaleUpLimitMinimum b \<and>
     f64_eq (Tolerance a) (Tolerance b) \<and>
     ScaleTargetRef a = ScaleTargetRef b \<and>
     Metrics a = Metrics b \<and>
     MinReplicas a = MinReplicas b \<and>
     MaxReplicas a = MaxReplicas b"

definition status_DeepEqual :: "CHPAStatus \<Rightarrow> CHPAStatus \<Rightarrow> bool" where
  "status_DeepEqual a b \<longleftrightarrow> a = b"

lemma f64_eq_refl: "x \<noteq> F_NaN \<Longrightarrow> f64_eq x x"
  by (cases x) simp_all

lemma spec_DeepEqual_refl:
  "ScaleUpLimitFactor s \<noteq> F_NaN \<Longrightarrow> Tolerance s \<noteq> F_NaN \<Longrightarrow> spec_DeepEqual s s"
  by (simp add: spec_DeepEqual_def f64_eq_refl)

end
