(* ===== verification/ChpaSpec.thy ===== *)
theory ChpaSpec
  imports ChpaTypes
begin

text \<open>
  The checks the controller makes on the specification before it acts on it
  (pkg/controller/chpa/chpa_controller.go): the defaults, the validity of the target kind and
  of the metric sources, and the predicate that decides which update events are queued.

  Proved: the defaults are complete, keep what the user set and are idempotent; storing them for
  the first time is an update that is queued, and from then on writing them back is not; an accepted list
  of metrics never dereferences a nil metric source; the first faulty metric is the one
  reported.
\<close>

section \<open>Constants\<close>

definition defaultTolerance :: f64 where
  "defaultTolerance = f64_round False (1 / 10)"

definition defaultDownscaleForbiddenWindowSeconds :: int32 where
  "defaultDownscaleForbiddenWindowSeconds = 300"

definition defaultUpscaleForbiddenWindowSeconds :: int32 where
  "defaultUpscaleForbiddenWindowSeconds = 300"

definition defaultScaleUpLimitMinimum :: int32 where
  "defaultScaleUpLimitMinimum = 4"

definition defaultScaleUpLimitFactor :: f64 where
  "defaultScaleUpLimitFactor = f64_of_int 2"

section \<open>Defaults\<close>

definition setSpecDefaults :: "CHPASpec \<Rightarrow> CHPASpec" where
  "setSpecDefaults s0 =
    (let s1 = (if DownscaleForbiddenWindowSeconds s0 = 0
               then s0\<lparr>DownscaleForbiddenWindowSeconds := defaultDownscaleForbiddenWindowSeconds\<rparr> else s0);
         s2 = (if UpscaleForbiddenWindowSeconds s1 = 0
               then s1\<lparr>UpscaleForbiddenWindowSeconds := defaultUpscaleForbiddenWindowSeconds\<rparr> else s1);
         s3 = (if f64_eq (ScaleUpLimitFactor s2) (F_Zero False)
               then s2\<lparr>ScaleUpLimitFactor := defaultScaleUpLimitFactor\<rparr> else s2);
         s4 = (if ScaleUpLimitMinimum s3 = 0
               then s3\<lparr>ScaleUpLimitMinimum := defaultScaleUpLimitMinimum\<rparr> else s3)
     in if f64_eq (Tolerance s4) (F_Zero False)
        then s4\<lparr>Tolerance := defaultTolerance\<rparr> else s4)"

definition setCHPADefaults :: "CHPA \<Rightarrow> CHPA" where
  "setCHPADefaults chpa = chpa\<lparr>Spec := setSpecDefaults (Spec chpa)\<rparr>"

section \<open>Validity\<close>

fun checkCHPAMetricsValidity :: "MetricSpec list \<Rightarrow> string + unit" where
  "checkCHPAMetricsValidity [] = Inr ()"
| "checkCHPAMetricsValidity (metric # metrics) =
     (if ms_Type metric = ''Object'' then
        (if ms_Object metric = None
         then Inl (''metric.Object is nil while metric.Type is '' @ quoted (ms_Type metric))
         else checkCHPAMetricsValidity metrics)
      else if ms_Type metric = ''Pods'' then
        (if ms_Pods metric = None
         then Inl (''metric.Pods is nil while metric.Type is '' @ quoted (ms_Type metric))
         else checkCHPAMetricsValidity metrics)
      else if ms_Type metric = ''Resource'' then
        (if ms_Resource metric = None
         then Inl (''metric.Resource is nil while metric.Type is '' @ quoted (ms_Type metric))
         else checkCHPAMetricsValidity metrics)
      else if ms_Type metric = ''External'' then
        (if ms_External metric = None
         then Inl (''metric.External is nil while metric.Type is '' @ quoted (ms_Type metric))
         else checkCHPAMetricsValidity metrics)
      else Inl (''incorrect metric.Type: '' @ quoted (ms_Type metric)))"

text \<open>
  The message is passed to \<open>fmt.Errorf\<close> as the format: \<open>sprintf0\<close> is \<open>fmt.Sprintf\<close> of a format
  without operands, the identity on a string without percent signs.
\<close>

definition checkCHPAValidity :: "(string \<Rightarrow> string) \<Rightarrow> CHPA \<Rightarrow> string + unit" where
  "checkCHPAValidity sprintf0 chpa =
     (if ref_Kind (ScaleTargetRef (Spec chpa)) \<noteq> ''Deployment''
      then (let msg = ''configurable chpa doesn'' @ apos @ ''t support '' @ ref_Kind (ScaleTargetRef (Spec chpa))
                @ '' kind, use Deployment instead''
            in Inl (sprintf0 msg))
      else checkCHPAMetricsValidity (Metrics (Spec chpa)))"

section \<open>Which update events are queued\<close>

record UpdateEvent =
  ObjectOld :: CHPA
  ObjectNew :: CHPA

definition updatePredicate :: "UpdateEvent \<Rightarrow> bool" where
  "updatePredicate ev =
     (if \<not> spec_DeepEqual (Spec (ObjectNew ev)) (Spec (ObjectOld ev)) then True else False)"

section \<open>Properties of the defaults\<close>

lemma f64_eq_zero: "f64_eq x (F_Zero False) \<longleftrightarrow> f64_finite x \<and> f64_val x = 0"
  by (cases x) auto

text \<open>The tolerance is the \<open>float64\<close> nearest to \<open>0.1\<close>, a little above it.\<close>

lemma defaultTolerance_eq: "defaultTolerance = F_Num (3602879701896397 / 36028797018963968)"
  by (simp add: defaultTolerance_def f64_round_def rnd64_tenth)

lemma defaultTolerance_nonzero: "\<not> f64_eq defaultTolerance (F_Zero False)"
  by (simp add: defaultTolerance_eq)

lemma defaultFactor_nonzero: "\<not> f64_eq defaultScaleUpLimitFactor (F_Zero False)"
  by (simp add: defaultScaleUpLimitFactor_def f64_of_int_exact)

lemmas default_defs =
  defaultDownscaleForbiddenWindowSeconds_def defaultUpscaleForbiddenWindowSeconds_def
  defaultScaleUpLimitMinimum_def

text \<open>Field by field: a zero field gets its default, any other field is kept.\<close>

lemma setSpecDefaults_fields [simp]:
  "DownscaleForbiddenWindowSeconds (setSpecDefaults s) =
     (if DownscaleForbiddenWindowSeconds s = 0 then 300 else DownscaleForbiddenWindowSeconds s)"
  "UpscaleForbiddenWindowSeconds (setSpecDefaults s) =
     (if UpscaleForbiddenWindowSeconds s = 0 then 300 else UpscaleForbiddenWindowSeconds s)"
  "ScaleUpLimitFactor (setSpecDefaults s) =
     (if f64_eq (ScaleUpLimitFactor s) (F_Zero False) then defaultScaleUpLimitFactor else ScaleUpLimitFactor s)"
  "ScaleUpLimitMinimum (setSpecDefaults s) =
     (if ScaleUpLimitMinimum s = 0 then 4 else ScaleUpLimitMinimum s)"
  "Tolerance (setSpecDefaults s) =
     (if f64_eq (Tolerance s) (F_Zero False) then defaultTolerance else Tolerance s)"
  "ScaleTargetRef (setSpecDefaults s) = ScaleTargetRef s"
  "Metrics (setSpecDefaults s) = Metrics s"
  "MinReplicas (setSpecDefaults s) = MinReplicas s"
  "MaxReplicas (setSpecDefaults s) = MaxReplicas s"
  by (simp_all add: setSpecDefaults_def Let_def default_defs)

lemma setSpecDefaults_nonzero:
  "DownscaleForbiddenWindowSeconds (setSpecDefaults s) \<noteq> 0"
  "UpscaleForbiddenWindowSeconds (setSpecDefaults s) \<noteq> 0"
  "\<not> f64_eq (ScaleUpLimitFactor (setSpecDefaults s)) (F_Zero False)"
  "ScaleUpLimitMinimum (setSpecDefaults s) \<noteq> 0"
  "\<not> f64_eq (Tolerance (setSpecDefaults s)) (F_Zero False)"
  using defaultTolerance_nonzero defaultFactor_nonzero by simp_all

lemma setSpecDefaults_id:
  assumes "DownscaleForbiddenWindowSeconds s \<noteq> 0" "UpscaleForbiddenWindowSeconds s \<noteq> 0"
    "\<not> f64_eq (ScaleUpLimitFactor s) (F_Zero False)" "ScaleUpLimitMinimum s \<noteq> 0"
    "\<not> f64_eq (Tolerance s) (F_Zero False)"
  shows "setSpecDefaults s = s"
  using assms by (simp add: setSpecDefaults_def)

lemma setSpecDefaults_idem [simp]: "setSpecDefaults (setSpecDefaults s) = setSpecDefaults s"
  by (rule setSpecDefaults_id) (rule setSpecDefaults_nonzero)+

section \<open>Properties of the validity check\<close>

text \<open>A metric whose type names the source that is present: the code may dereference it.\<close>

definition metric_ok :: "MetricSpec \<Rightarrow> bool" where
  "metric_ok m \<longleftrightarrow>
     (ms_Type m = ''Object'' \<and> ms_Object m \<noteq> None) \<or> (ms_Type m = ''Pods'' \<and> ms_Pods m \<noteq> None) \<or>
     (ms_Type m = ''Resource'' \<and> ms_Resource m \<noteq> None) \<or> (ms_Type m = ''External'' \<and> ms_External m \<noteq> None)"

lemma checkCHPAMetricsValidity_ok:
  "checkCHPAMetricsValidity ms = Inr () \<longleftrightarrow> list_all metric_ok ms"
  by (induction ms) (auto simp: metric_ok_def)

text \<open>The error is that of the first faulty metric: what precedes it is well formed.\<close>

lemma checkCHPAMetricsValidity_first:
  "list_all metric_ok ms \<Longrightarrow> checkCHPAMetricsValidity (ms @ ms') = checkCHPAMetricsValidity ms'"
  by (induction ms) (auto simp: metric_ok_def)

lemma checkCHPAMetricsValidity_error:
  assumes "checkCHPAMetricsValidity ms = Inl e"
  shows "\<exists>pre m post. ms = pre @ m # post \<and> list_all metric_ok pre \<and> \<not> metric_ok m \<and>
           checkCHPAMetricsValidity [m] = Inl e"
  using assms
proof (induction ms)
  case (Cons m ms)
  show ?case
  proof (cases "metric_ok m")
    case True
    then have "checkCHPAMetricsValidity ms = Inl e"
      using Cons.prems checkCHPAMetricsValidity_first [of "[m]" ms] by simp
    then obtain pre m' post where "ms = pre @ m' # post" "list_all metric_ok pre" "\<not> metric_ok m'"
      "checkCHPAMetricsValidity [m'] = Inl e" using Cons.IH by blast
    with True show ?thesis by (intro exI [of _ "m # pre"] exI [of _ m'] exI [of _ post]) simp
  next
    case False
    then have "checkCHPAMetricsValidity [m] = Inl e"
      using Cons.prems by (auto simp: metric_ok_def split: if_splits)
    with False show ?thesis by (intro exI [of _ "[]"] exI [of _ m] exI [of _ ms]) simp
  qed
qed simp

lemma checkCHPAValidity_ok:
  "checkCHPAValidity sprintf0 chpa = Inr () \<longleftrightarrow>
     ref_Kind (ScaleTargetRef (Spec chpa)) = ''Deployment'' \<and> list_all metric_ok (Metrics (Spec chpa))"
  by (simp add: checkCHPAValidity_def checkCHPAMetricsValidity_ok)

text \<open>The defaults, field by field.\<close>

lemma setCHPADefaults_complete:
  "DownscaleForbiddenWindowSeconds (Spec (setCHPADefaults c)) =
     (if DownscaleForbiddenWindowSeconds (Spec c) = 0 then 300 else DownscaleForbiddenWindowSeconds (Spec c)) \<and>
   UpscaleForbiddenWindowSeconds (Spec (setCHPADefaults c)) =
     (if UpscaleForbiddenWindowSeconds (Spec c) = 0 then 300 else UpscaleForbiddenWindowSeconds (Spec c)) \<and>
   ScaleUpLimitFactor (Spec (setCHPADefaults c)) =
     (if f64_eq (ScaleUpLimitFactor (Spec c)) (F_Zero False) then f64_of_int 2 else ScaleUpLimitFactor (Spec c)) \<and>
   ScaleUpLimitMinimum (Spec (setCHPADefaults c)) =
     (if ScaleUpLimitMinimum (Spec c) = 0 then 4 else ScaleUpLimitMinimum (Spec c)) \<and>
   Tolerance (Spec (setCHPADefaults c)) =
     (if f64_eq (Tolerance (Spec c)) (F_Zero False) then defaultTolerance else Tolerance (Spec c)) \<and>
   ScaleTargetRef (Spec (setCHPADefaults c)) = ScaleTargetRef (Spec c) \<and>
   Metrics (Spec (setCHPADefaults c)) = Metrics (Spec c) \<and>
   MinReplicas (Spec (setCHPADefaults c)) = MinReplicas (Spec c) \<and>
   MaxReplicas (Spec (setCHPADefaults c)) = MaxReplicas (Spec c) \<and>
   (setCHPADefaults c)\<lparr>Spec := Spec c\<rparr> = c \<and>
   setCHPADefaults (setCHPADefaults c) = setCHPADefaults c"
  by (simp add: setCHPADefaults_def defaultScaleUpLimitFactor_def)

text \<open>The first time the defaults are stored.\<close>

lemma first_defaults:
  assumes "ScaleUpLimitFactor (Spec c) \<noteq> F_NaN" "Tolerance (Spec c) \<noteq> F_NaN"
  shows "updatePredicate \<lparr>ObjectOld = c, ObjectNew = (setCHPADefaults c)\<lparr>Status := st\<rparr>\<rparr> \<longleftrightarrow>
     DownscaleForbiddenWindowSeconds (Spec c) = 0 \<or> UpscaleForbiddenWindowSeconds (Spec c) = 0 \<or>
     f64_eq (ScaleUpLimitFactor (Spec c)) (F_Zero False) \<or> ScaleUpLimitMinimum (Spec c) = 0 \<or>
     f64_eq (Tolerance (Spec c)) (F_Zero False)"
proof -
  have "\<not> f64_eq defaultScaleUpLimitFactor x" "\<not> f64_eq defaultTolerance x" if "f64_eq x (F_Zero False)" for x
    using that by (cases x; simp add: defaultScaleUpLimitFactor_def f64_of_int_exact defaultTolerance_eq)+
  then show ?thesis
    using f64_eq_refl [OF assms(1)] f64_eq_refl [OF assms(2)]
    by (auto simp: updatePredicate_def setCHPADefaults_def spec_DeepEqual_def)
qed

section \<open>Properties\<close>

text \<open>C34. The defaults fill every zero field, keep what the user set and touch nothing but those fields; applied twice
  they do no more.  The controller writes the CHPA back with its defaults and a new status.  The first such update is an event
  the predicate lets through exactly when a default was missing; once the defaults are stored, every later one is dropped, while
  a changed maximum is let through.\<close>

theorem defaults_settle:
  assumes "ScaleUpLimitFactor (Spec c) \<noteq> F_NaN" "Tolerance (Spec c) \<noteq> F_NaN"
  shows "DownscaleForbiddenWindowSeconds (Spec (setCHPADefaults c)) =
       (if DownscaleForbiddenWindowSeconds (Spec c) = 0 then 300 else DownscaleForbiddenWindowSeconds (Spec c)) \<and>
     UpscaleForbiddenWindowSeconds (Spec (setCHPADefaults c)) =
       (if UpscaleForbiddenWindowSeconds (Spec c) = 0 then 300 else UpscaleForbiddenWindowSeconds (Spec c)) \<and>
     ScaleUpLimitFactor (Spec (setCHPADefaults c)) =
       (if f64_eq (ScaleUpLimitFactor (Spec c)) (F_Zero False) then f64_of_int 2 else ScaleUpLimitFactor (Spec c)) \<and>
     ScaleUpLimitMinimum (Spec (setCHPADefaults c)) =
       (if ScaleUpLimitMinimum (Spec c) = 0 then 4 else ScaleUpLimitMinimum (Spec c)) \<and>
     Tolerance (Spec (setCHPADefaults c)) =
       (if f64_eq (Tolerance (Spec c)) (F_Zero False) then defaultTolerance else Tolerance (Spec c)) \<and>
     ScaleTargetRef (Spec (setCHPADefaults c)) = ScaleTargetRef (Spec c) \<and>
     Metrics (Spec (setCHPADefaults c)) = Metrics (Spec c) \<and>
     MinReplicas (Spec (setCHPADefaults c)) = MinReplicas (Spec c) \<and>
     MaxReplicas (Spec (setCHPADefaults c)) = MaxReplicas (Spec c) \<and>
     (setCHPADefaults c)\<lparr>Spec := Spec c\<rparr> = c \<and>
     setCHPADefaults (setCHPADefaults c) = setCHPADefaults c \<and>
     (updatePredicate \<lparr>ObjectOld = c, ObjectNew = (setCHPADefaults c)\<lparr>Status := st\<rparr>\<rparr> \<longleftrightarrow>
        DownscaleForbiddenWindowSeconds (Spec c) = 0 \<or> UpscaleForbiddenWindowSeconds (Spec c) = 0 \<or>
        f64_eq (ScaleUpLimitFactor (Spec c)) (F_Zero False) \<or> ScaleUpLimitMinimum (Spec c) = 0 \<or>
        f64_eq (Tolerance (Spec c)) (F_Zero False)) \<and>
     \<not> updatePredicate \<lparr>ObjectOld = setCHPADefaults c,
          ObjectNew = (setCHPADefaults (setCHPADefaults c))\<lparr>Status := st\<rparr>\<rparr> \<and>
     (updatePredicate \<lparr>ObjectOld = setCHPADefaults c,
        ObjectNew = (setCHPADefaults c)\<lparr>Spec := (Spec (setCHPADefaults c))\<lparr>MaxReplicas := n\<rparr>\<rparr>\<rparr>
      \<longleftrightarrow> n \<noteq> MaxReplicas (Spec c))"
proof -
  have "ScaleUpLimitFactor (setSpecDefaults (Spec c)) \<noteq> F_NaN" "Tolerance (setSpecDefaults (Spec c)) \<noteq> F_NaN"
    using assms by (auto simp: defaultScaleUpLimitFactor_def f64_of_int_exact defaultTolerance_eq)
  note r = spec_DeepEqual_refl [OF this] f64_eq_refl [OF this(1)] f64_eq_refl [OF this(2)]
  have "\<not> updatePredicate \<lparr>ObjectOld = setCHPADefaults c,
          ObjectNew = (setCHPADefaults (setCHPADefaults c))\<lparr>Status := st\<rparr>\<rparr> \<and>
     (updatePredicate \<lparr>ObjectOld = setCHPADefaults c,
        ObjectNew = (setCHPADefaults c)\<lparr>Spec := (Spec (setCHPADefaults c))\<lparr>MaxReplicas := n\<rparr>\<rparr>\<rparr>
      \<longleftrightarrow> n \<noteq> MaxReplicas (Spec c))"
    using r by (auto simp: updatePredicate_def setCHPADefaults_def spec_DeepEqual_def simp del: setSpecDefaults_fields(3,5))
  then show ?thesis using setCHPADefaults_complete [of c] first_defaults [OF assms] by blast
qed

theorem defaults_settle_witness:
  "\<exists>c. \<not> updatePredicate \<lparr>ObjectOld = setCHPADefaults c, ObjectNew = setCHPADefaults (setCHPADefaults c)\<rparr>"
proof -
  let ?spec = "\<lparr>DownscaleForbiddenWindowSeconds = 0, UpscaleForbiddenWindowSeconds = 60, ScaleUpLimitFactor = F_Zero False,
    ScaleUpLimitMinimum = 0, Tolerance = F_Zero False,
    ScaleTargetRef = \<lparr>ref_Kind = ''Deployment'', ref_Name = ''web'', ref_APIVersion = ''apps/v1''\<rparr>,
    Metrics = [], MinReplicas = None, MaxReplicas = 10\<rparr>"
  let ?st = "\<lparr>ObservedGeneration = None, LastScaleTime = None, CurrentReplicas = 0, DesiredReplicas = 0,
    CurrentMetrics = [], Conditions = []\<rparr>"
  let ?c = "\<lparr>chpa_Namespace = ''prod'', chpa_Name = ''web'', chpa_UID = ''1'', chpa_CreationTimestamp = 0,
    Spec = ?spec, Status = ?st\<rparr>"
  have "Status (setCHPADefaults (setCHPADefaults ?c)) = ?st" by (simp add: setCHPADefaults_def)
  then show ?thesis
    using defaults_settle [of ?c ?st] by (intro exI [of _ ?c]) (simp add: setCHPADefaults_def)
qed

text \<open>C33. A specification is accepted exactly when its target is a Deployment and every metric names, by its type,
  the source it carries, so that no accepted metric makes the controller dereference a nil source.\<close>

theorem checkCHPAValidity_accepts:
  "checkCHPAValidity fmt chpa = Inr () \<longleftrightarrow>
     ref_Kind (ScaleTargetRef (Spec chpa)) = ''Deployment'' \<and>
     (\<forall>m\<in>set (Metrics (Spec chpa)).
        (ms_Type m = ''Object'' \<and> ms_Object m \<noteq> None) \<or> (ms_Type m = ''Pods'' \<and> ms_Pods m \<noteq> None) \<or>
        (ms_Type m = ''Resource'' \<and> ms_Resource m \<noteq> None) \<or> (ms_Type m = ''External'' \<and> ms_External m \<noteq> None))"
  by (simp add: checkCHPAValidity_ok list_all_iff metric_ok_def)

theorem checkCHPAValidity_accepts_witness:
  "\<exists>c. checkCHPAValidity id c = Inr () \<and> Metrics (Spec c) \<noteq> [] \<and>
     checkCHPAValidity id (c\<lparr>Spec := (Spec c)\<lparr>Metrics := map (\<lambda>m. m\<lparr>ms_Pods := None\<rparr>) (Metrics (Spec c))\<rparr>\<rparr>) \<noteq> Inr ()"
proof -
  let ?m = "\<lparr>ms_Type = ''Pods'', ms_Object = None, ms_Pods = Some \<lparr>pms_MetricName = ''rps'', pms_TargetAverageValue = 1\<rparr>,
    ms_Resource = None, ms_External = None\<rparr>"
  let ?spec = "\<lparr>DownscaleForbiddenWindowSeconds = 0, UpscaleForbiddenWindowSeconds = 60, ScaleUpLimitFactor = F_Zero False,
    ScaleUpLimitMinimum = 0, Tolerance = F_Zero False,
    ScaleTargetRef = \<lparr>ref_Kind = ''Deployment'', ref_Name = ''web'', ref_APIVersion = ''apps/v1''\<rparr>,
    Metrics = [?m], MinReplicas = None, MaxReplicas = 10\<rparr>"
  let ?c = "\<lparr>chpa_Namespace = ''prod'', chpa_Name = ''web'', chpa_UID = ''1'', chpa_CreationTimestamp = 0,
    Spec = ?spec, Status = \<lparr>ObservedGeneration = None, LastScaleTime = None, CurrentReplicas = 0, DesiredReplicas = 0,
    CurrentMetrics = [], Conditions = []\<rparr>\<rparr>"
  show ?thesis
    by (intro exI [of _ ?c]) (simp add: checkCHPAValidity_accepts)
qed

text \<open>The error reported for a list of metrics is that of its first faulty one.\<close>

lemma checkCHPAMetricsValidity_reports_first:
  assumes "checkCHPAMetricsValidity ms = Inl e"
  shows "\<exists>pre m post. ms = pre @ m # post \<and> checkCHPAMetricsValidity pre = Inr () \<and>
     checkCHPAMetricsValidity [m] = Inl e"
proof -
  obtain pre m post where m: "ms = pre @ m # post" "list_all metric_ok pre" "checkCHPAMetricsValidity [m] = Inl e"
    using checkCHPAMetricsValidity_error [OF assms] by metis
  show ?thesis
    by (rule exI [of _ pre], rule exI [of _ m], rule exI [of _ post], intro conjI m)
       (rule checkCHPAMetricsValidity_ok [THEN iffD2, OF m(2)])
qed

lemma checkCHPAMetricsValidity_reports_first_witness:
  "\<exists>pre m post. [\<lparr>ms_Type = ''Pods'', ms_Object = None, ms_Pods = None, ms_Resource = None, ms_External = None\<rparr>] = pre @ m # post \<and>
     checkCHPAMetricsValidity pre = Inr () \<and> checkCHPAMetricsValidity [m] = Inl (''metric.Pods is nil while metric.Type is '' @ quoted ''Pods'')"
  by (rule checkCHPAMetricsValidity_reports_first) simp

end
