(* ===== verification/ConditionList.thy ===== *)
theory ConditionList
  imports ChpaTypes
begin

text \<open>
  The conditions of a CHPA status: \<open>setConditionInList\<close> of chpa_controller.go.  The clock is a
  state-monad program \<open>now\<close> that is run only where the code calls \<open>metav1.Now()\<close>.  The message
  is the already formatted string.

  The locale \<open>condition_store\<close> is what the controller relies on: after a set, the type holds the
  value just set and every other type what it held.  Its client lemma says what a whole sequence
  of sets leaves behind (the last one for each type); the interpretation discharges the laws for
  the code's list.
\<close>

section \<open>The operation\<close>

text \<open>The index of the first condition of the type, as the loop finds it.\<close>

fun find_condition :: "Condition list \<Rightarrow> string \<Rightarrow> nat option" where
  "find_condition [] t = None"
| "find_condition (c # cs) t =
     (if cond_Type c = t then Some 0 else map_option Suc (find_condition cs t))"

definition setConditionInList ::
  "('s, gotime) state \<Rightarrow> Condition list \<Rightarrow> string \<Rightarrow> string \<Rightarrow> string \<Rightarrow> string
   \<Rightarrow> ('s, Condition list) state" where
  "setConditionInList now inputList conditionType status reason message =
    (let (resList, i) = (case find_condition inputList conditionType of
           Some i \<Rightarrow> (inputList, i)
         | None \<Rightarrow> (inputList @ [\<lparr>cond_Type = conditionType, cond_Status = [], cond_LastTransitionTime = 0,
                                   cond_Reason = [], cond_Message = []\<rparr>], length inputList));
         existingCond = resList ! i
     in do {
       t \<leftarrow> (if cond_Status existingCond \<noteq> status then now
             else State_Monad.return (cond_LastTransitionTime existingCond));
       State_Monad.return (resList[i := existingCond\<lparr>cond_LastTransitionTime := t, cond_Status := status,
                                              cond_Reason := reason, cond_Message := message\<rparr>])
     })"

section \<open>Reading a condition list\<close>

definition get_condition :: "Condition list \<Rightarrow> string \<Rightarrow> Condition option" where
  "get_condition cs t = map_option (\<lambda>i. cs ! i) (find_condition cs t)"

text \<open>What a condition says: its status, reason and message.\<close>

definition cond_says :: "Condition \<Rightarrow> string \<times> string \<times> string" where
  "cond_says c = (cond_Status c, cond_Reason c, cond_Message c)"

definition says :: "Condition list \<Rightarrow> string \<Rightarrow> (string \<times> string \<times> string) option" where
  "says cs t = map_option cond_says (get_condition cs t)"

section \<open>What the operation does\<close>

lemma find_condition_Some:
  "find_condition cs t = Some i \<Longrightarrow> i < length cs \<and> cond_Type (cs ! i) = t"
  by (induction cs arbitrary: i) (auto split: if_splits)

lemma find_condition_None: "find_condition cs t = None \<longleftrightarrow> t \<notin> cond_Type ` set cs"
  by (induction cs) auto

lemma find_condition_update:
  "cond_Type c = cond_Type (cs ! i) \<Longrightarrow> find_condition (cs[i := c]) t = find_condition cs t"
  by (induction cs arbitrary: i) (auto split: nat.splits)

lemma find_condition_append:
  "find_condition (cs @ [c]) t =
     (case find_condition cs t of Some i \<Rightarrow> Some i
      | None \<Rightarrow> if cond_Type c = t then Some (length cs) else None)"
  by (induction cs) (auto split: option.splits)

text \<open>The list after the call, by cases on whether the type was present.\<close>

lemma setConditionInList_present:
  assumes "find_condition cs t = Some i"
  shows "fst (run_state (setConditionInList now cs t st r m) s) =
           cs[i := (cs ! i)\<lparr>cond_LastTransitionTime :=
                     (if cond_Status (cs ! i) = st then cond_LastTransitionTime (cs ! i) else fst (run_state now s)),
                     cond_Status := st, cond_Reason := r, cond_Message := m\<rparr>]"
  using assms by (simp add: setConditionInList_def Let_def split: prod.splits)

lemma setConditionInList_absent:
  assumes "find_condition cs t = None"
  shows "fst (run_state (setConditionInList now cs t st r m) s) =
           cs @ [\<lparr>cond_Type = t, cond_Status = st,
                  cond_LastTransitionTime = (if st = [] then 0 else fst (run_state now s)),
                  cond_Reason = r, cond_Message = m\<rparr>]"
  using assms by (auto simp add: setConditionInList_def Let_def nth_append split: prod.splits)

lemma setConditionInList_get_same:
  "get_condition (fst (run_state (setConditionInList now cs t st r m) s)) t =
     Some \<lparr>cond_Type = t, cond_Status = st,
           cond_LastTransitionTime =
             (case get_condition cs t of
                None \<Rightarrow> if st = [] then 0 else fst (run_state now s)
              | Some c \<Rightarrow> if cond_Status c = st then cond_LastTransitionTime c else fst (run_state now s)),
           cond_Reason = r, cond_Message = m\<rparr>"
proof (cases "find_condition cs t")
  case None
  then show ?thesis
    by (simp add: setConditionInList_absent get_condition_def find_condition_append nth_append)
next
  case (Some i)
  with find_condition_Some [OF Some] show ?thesis
    by (simp add: setConditionInList_present get_condition_def find_condition_update)
qed

lemma setConditionInList_get_other:
  assumes "t' \<noteq> t"
  shows "get_condition (fst (run_state (setConditionInList now cs t st r m) s)) t' = get_condition cs t'"
proof (cases "find_condition cs t")
  case None
  with assms show ?thesis
    by (auto simp add: setConditionInList_absent get_condition_def find_condition_append nth_append
        dest: find_condition_Some split: option.splits)
next
  case (Some i)
  have "cs[i := c] ! j = cs ! j" if "find_condition cs t' = Some j" for j c
    using that Some assms find_condition_Some by (metis nth_list_update_neq)
  with Some show ?thesis
    by (cases "find_condition cs t'")
      (auto simp: setConditionInList_present get_condition_def find_condition_update)
qed

text \<open>
  Types keep their positions: a present type changes nothing in the sequence of types, an absent
  one is appended, so the list never holds a type twice.
\<close>

lemma setConditionInList_types:
  "map cond_Type (fst (run_state (setConditionInList now cs t st r m) s)) =
     (if t \<in> cond_Type ` set cs then map cond_Type cs else map cond_Type cs @ [t])"
proof (cases "find_condition cs t")
  case None
  then show ?thesis by (simp add: setConditionInList_absent flip: find_condition_None)
next
  case (Some i)
  then have i: "i < length cs" "cond_Type (cs ! i) = t" and "t \<in> cond_Type ` set cs"
    using find_condition_Some [OF Some] by force+
  moreover have "(map cond_Type cs)[i := t] = map cond_Type cs"
    using i by (metis list_update_id nth_map)
  ultimately show ?thesis using Some by (simp add: setConditionInList_present map_update)
qed

lemma setConditionInList_distinct:
  "distinct (map cond_Type cs) \<Longrightarrow>
   distinct (map cond_Type (fst (run_state (setConditionInList now cs t st r m) s)))"
  by (simp add: setConditionInList_types)

text \<open>The clock is read exactly when the status of the condition changes.\<close>

lemma setConditionInList_clock:
  "snd (run_state (setConditionInList now cs t st r m) s) =
     (if (case get_condition cs t of None \<Rightarrow> [] | Some c \<Rightarrow> cond_Status c) = st
      then s else snd (run_state now s))"
  by (auto simp: setConditionInList_def Let_def get_condition_def nth_append run_simps split: option.splits prod.splits)

section \<open>The interface\<close>

locale condition_store =
  fixes put :: "'l \<Rightarrow> 'k \<Rightarrow> 'v \<Rightarrow> 'l" and look :: "'l \<Rightarrow> 'k \<Rightarrow> 'v option"
  assumes look_same: "look (put l k v) k = Some v"
    and look_other: "k' \<noteq> k \<Longrightarrow> look (put l k v) k' = look l k'"
begin

lemma look_put: "look (put l k v) k' = (if k' = k then Some v else look l k')"
  by (simp add: look_same look_other)

text \<open>After a sequence of sets, each type holds the last value set for it, if any.\<close>

lemma look_puts:
  "look (fold (\<lambda>(k, v) l. put l k v) kvs l) k =
     (case map_of (rev kvs) k of Some v \<Rightarrow> Some v | None \<Rightarrow> look l k)"
  by (induction kvs arbitrary: l) (auto simp: look_put map_add_def split: option.splits)

end

interpretation cond_list: condition_store
  "\<lambda>cs t (st, r, m). fst (run_state (setConditionInList now cs t st r m) s)" says
  for now :: "('s, gotime) state" and s
  by unfold_locales (auto simp: says_def cond_says_def setConditionInList_get_same setConditionInList_get_other)

section \<open>Properties\<close>

text \<open>C32. Setting a condition: its type then reads as set, with the time of its last transition moved exactly when the
  status changed (a new condition of empty status keeps the zero time), and every other type reads as
  before.  Conditions keep their positions, a new one comes last, and no type ever occurs twice.\<close>

theorem setConditionInList_correct:
  assumes "distinct (map cond_Type cs)"
  shows "get_condition (fst (run_state (setConditionInList now cs t st r m) s)) t' =
     (if t' = t then Some \<lparr>cond_Type = t, cond_Status = st,
        cond_LastTransitionTime =
          (case get_condition cs t of
             None \<Rightarrow> if st = [] then 0 else fst (run_state now s)
           | Some c \<Rightarrow> if cond_Status c = st then cond_LastTransitionTime c else fst (run_state now s)),
        cond_Reason = r, cond_Message = m\<rparr>
      else get_condition cs t') \<and>
     distinct (map cond_Type (fst (run_state (setConditionInList now cs t st r m) s))) \<and>
     map cond_Type (fst (run_state (setConditionInList now cs t st r m) s)) =
       (if t \<in> cond_Type ` set cs then map cond_Type cs else map cond_Type cs @ [t])"
  by (intro conjI setConditionInList_distinct [OF assms] setConditionInList_types)
     (simp add: setConditionInList_get_same setConditionInList_get_other)

theorem setConditionInList_correct_witness:
  "map cond_Type (fst (run_state (setConditionInList (State_Monad.return 5)
     (fst (run_state (setConditionInList (State_Monad.return 4) [] ''AbleToScale'' ''True'' ''r'' ''m'') ()))
     ''ScalingActive'' ''False'' ''r'' ''m'') ())) = [''AbleToScale'', ''ScalingActive'']"
proof -
  let ?cs = "fst (run_state (setConditionInList (State_Monad.return 4) [] ''AbleToScale'' ''True'' ''r'' ''m'') ())"
  have types: "map cond_Type ?cs = [''AbleToScale'']" by (simp add: setConditionInList_types)
  have "cond_Type ` set ?cs = {''AbleToScale''}" using arg_cong [OF types, of set] by simp
  then show ?thesis
    using setConditionInList_correct [of ?cs "State_Monad.return 5" "''ScalingActive''" "''False''" "''r''" "''m''" "()"]
    by (simp add: types)
qed

end
