(* ===== verification/Utilization.thy ===== *)
theory Utilization
  imports ChpaTypes
begin

text \<open>
  The two utilisation functions of the vendored package
  k8s.io/kubernetes/pkg/controller/podautoscaler/metrics (utilization.go), on which every replica
  calculation rests.  Sums are 64-bit and wrap; divisions truncate and panic on zero.

  Proved: the result does not depend on the order in which Go ranges over the metrics map; the
  resource variant never divides by zero; the plain variant panics on an empty map only; without
  overflow the utilisation is the truncated percentage of the totals.
\<close>

type_synonym pod_metrics = "(string \<times> int64) list"

section \<open>Resource utilisation\<close>

text \<open>The loop over the metrics: totals of the metrics and requests of known pods, and their number.\<close>

fun utilization_totals ::
  "pod_metrics \<Rightarrow> pod_metrics \<Rightarrow> int64 \<Rightarrow> int64 \<Rightarrow> nat \<Rightarrow> int64 \<times> int64 \<times> nat" where
  "utilization_totals [] requests metricsTotal requestsTotal numEntries =
     (metricsTotal, requestsTotal, numEntries)"
| "utilization_totals ((podName, metricValue) # metrics) requests metricsTotal requestsTotal numEntries =
     (case map_of requests podName of
        None \<Rightarrow> utilization_totals metrics requests metricsTotal requestsTotal numEntries
      | Some request \<Rightarrow> utilization_totals metrics requests
          (metricsTotal + metricValue) (requestsTotal + request) (numEntries + 1))"

definition GetResourceUtilizationRatio ::
  "pod_metrics \<Rightarrow> pod_metrics \<Rightarrow> int32 \<Rightarrow> fault + (f64 \<times> int32 \<times> int64)" where
  "GetResourceUtilizationRatio metrics requests targetUtilization =
    (let (metricsTotal, requestsTotal, numEntries) = utilization_totals metrics requests 0 0 0 in
     if requestsTotal = 0 then Inl (Err ''no metrics returned matched known pods'')
     else case div64 (metricsTotal * 100) requestsTotal of
       Inl e \<Rightarrow> Inl e
     | Inr q \<Rightarrow>
         (let currentUtilization = int32_of_int64 q in
          case div64 metricsTotal (of_nat numEntries) of
            Inl e \<Rightarrow> Inl e
          | Inr rawAverage \<Rightarrow>
              Inr (f64_div (f64_of_int (sint currentUtilization)) (f64_of_int (sint targetUtilization)),
                   currentUtilization, rawAverage)))"

section \<open>Plain metric utilisation\<close>

fun metrics_total :: "pod_metrics \<Rightarrow> int64 \<Rightarrow> int64" where
  "metrics_total [] metricsTotal = metricsTotal"
| "metrics_total ((podName, metricValue) # metrics) metricsTotal =
     metrics_total metrics (metricsTotal + metricValue)"

definition GetMetricUtilizationRatio :: "pod_metrics \<Rightarrow> int64 \<Rightarrow> fault + (f64 \<times> int64)" where
  "GetMetricUtilizationRatio metrics targetUtilization =
    (let metricsTotal = metrics_total metrics 0 in
     case div64 metricsTotal (of_nat (length metrics)) of
       Inl e \<Rightarrow> Inl e
     | Inr currentUtilization \<Rightarrow>
         Inr (f64_div (f64_of_int (sint currentUtilization)) (f64_of_int (sint targetUtilization)),
              currentUtilization))"

section \<open>The loops as sums\<close>

definition known :: "pod_metrics \<Rightarrow> pod_metrics \<Rightarrow> pod_metrics" where
  "known metrics requests = filter (\<lambda>e. map_of requests (fst e) \<noteq> None) metrics"

lemma utilization_totals_eq:
  "utilization_totals metrics requests mt rt n =
     (mt + sum_list (map snd (known metrics requests)),
      rt + sum_list (map (\<lambda>e. the (map_of requests (fst e))) (known metrics requests)),
      n + length (known metrics requests))"
  by (induction metrics requests mt rt n rule: utilization_totals.induct)
     (auto simp: known_def split: option.splits)

lemma metrics_total_eq: "metrics_total metrics t = t + sum_list (map snd metrics)"
proof (induction metrics t rule: metrics_total.induct)
  case (1 t) show ?case by (simp only: metrics_total.simps list.map sum_list.Nil add_0_right)
next
  case (2 p v ms t) 
  show ?case unfolding metrics_total.simps "2.IH" by (simp only: list.map snd_conv sum_list.Cons add.assoc)
qed

section \<open>The order of iteration does not matter\<close>

lemma known_mset:
  assumes "mset ms = mset ms'" "map_of rs = map_of rs'"
  shows "mset (known ms rs) = mset (known ms' rs')"
  unfolding known_def mset_filter assms ..

lemma sum_list_mset_eq:
  fixes f :: "'a \<Rightarrow> 'b::comm_monoid_add"
  shows "mset xs = mset ys \<Longrightarrow> sum_list (map f xs) = sum_list (map f ys)"
  by (simp flip: sum_mset_sum_list)

lemma utilization_totals_order:
  assumes "mset ms = mset ms'" "map_of rs = map_of rs'"
  shows "utilization_totals ms rs a b n = utilization_totals ms' rs' a b n"
  using sum_list_mset_eq [OF known_mset [OF assms], of snd]
    sum_list_mset_eq [OF known_mset [OF assms], of "\<lambda>e. the (map_of rs (fst e))"]
    mset_eq_length [OF known_mset [OF assms]] assms(2)
  by (simp add: utilization_totals_eq)

lemma GetResourceUtilizationRatio_order:
  "mset ms = mset ms' \<Longrightarrow> map_of rs = map_of rs'
   \<Longrightarrow> GetResourceUtilizationRatio ms rs t = GetResourceUtilizationRatio ms' rs' t"
  by (simp add: GetResourceUtilizationRatio_def utilization_totals_order [of ms ms' rs rs'])

lemma metrics_total_order: "mset ms = mset ms' \<Longrightarrow> metrics_total ms t = metrics_total ms' t"
  using sum_list_mset_eq [of ms ms' snd] by (simp add: metrics_total_eq)

lemma GetMetricUtilizationRatio_order:
  "mset ms = mset ms' \<Longrightarrow> GetMetricUtilizationRatio ms t = GetMetricUtilizationRatio ms' t"
  using metrics_total_order [of ms ms' 0] mset_eq_length [of ms ms'] by (simp add: GetMetricUtilizationRatio_def)

section \<open>Panics\<close>

lemma of_nat64_nonzero: "0 < n \<Longrightarrow> n < 2 ^ 63 \<Longrightarrow> (of_nat n :: int64) \<noteq> 0"
  by (auto simp: word_of_nat_eq_0_iff dest!: nat_dvd_not_less)

lemma known_nonempty:
  "fst (snd (utilization_totals ms rs 0 0 0)) \<noteq> 0 \<Longrightarrow> known ms rs \<noteq> []"
  by (auto simp: utilization_totals_eq)

lemma GetResourceUtilizationRatio_no_panic:
  assumes "length ms < 2 ^ 63"
  shows "GetResourceUtilizationRatio ms rs t \<noteq> Inl (Panic p)"
proof -
  have "length (known ms rs) \<le> length ms" by (simp add: known_def)
  then have "length (known ms rs) < 2 ^ 63" using assms by linarith
  then show ?thesis
    using of_nat64_nonzero [of "length (known ms rs)"] known_nonempty [of ms rs]
    by (auto simp: GetResourceUtilizationRatio_def Let_def div64_def utilization_totals_eq split: sum.splits)
qed

lemma GetMetricUtilizationRatio_no_panic:
  "ms \<noteq> [] \<Longrightarrow> length ms < 2 ^ 63 \<Longrightarrow> \<exists>r u. GetMetricUtilizationRatio ms t = Inr (r, u)"
  using of_nat64_nonzero [of "length ms"]
  by (auto simp: GetMetricUtilizationRatio_def Let_def div64_def)

lemma GetMetricUtilizationRatio_panic_iff:
  "length ms < 2 ^ 63 \<Longrightarrow> (\<exists>p. GetMetricUtilizationRatio ms t = Inl (Panic p)) \<longleftrightarrow> ms = []"
  using GetMetricUtilizationRatio_no_panic [of ms t]
  by (cases "ms = []") (auto simp: GetMetricUtilizationRatio_def div64_def)

section \<open>What the numbers mean\<close>

lemma sint_sum_list64:
  "\<forall>x\<in>set xs. 0 \<le> sint x \<Longrightarrow> sum_list (map sint xs) < 9223372036854775808 \<Longrightarrow>
   sint (sum_list xs :: int64) = sum_list (map sint xs)"
proof (induction xs)
  case (Cons x xs)
  have "0 \<le> sum_list (map sint xs)" using Cons.prems(1) by (intro sum_list_nonneg) auto
  moreover have "sint (sum_list xs) = sum_list (map sint xs)"
    using Cons.prems calculation by (intro Cons.IH) auto
  ultimately show ?case
    using Cons.prems by (simp add: sint64_add)
qed simp

lemma sdiv_nonneg: "0 \<le> a \<Longrightarrow> 0 < b \<Longrightarrow> a sdiv b = a div (b :: int)"
  by (cases "a = 0") (simp_all add: signed_divide_int_def)

lemma sint_of_nat64: "n < 2 ^ 63 \<Longrightarrow> sint (of_nat n :: int64) = int n"
  using sint64_of_int [of "int n"] by simp

text \<open>C29. Without overflow the measured utilisation is the percentage the metrics of the known pods are of their
  requests, truncated, the raw value their truncated average, and the ratio the correctly rounded
  quotient of that percentage and the target.\<close>

theorem resource_utilization_percentage:
  assumes "M = sum_list (map (sint \<circ> snd) (known ms rs))"
    "R = sum_list (map (\<lambda>e. sint (the (map_of rs (fst e)))) (known ms rs))"
    "\<forall>e\<in>set (known ms rs). 0 \<le> sint (snd e) \<and> 0 \<le> sint (the (map_of rs (fst e)))"
    "100 * M < 2 ^ 63" "0 < R" "R < 2 ^ 63" "100 * M div R < 2 ^ 31" "length ms < 2 ^ 63"
  shows "\<exists>r u raw. GetResourceUtilizationRatio ms rs t = Inr (r, u, raw) \<and>
     sint u = 100 * M div R \<and> sint raw = M div int (length (known ms rs)) \<and>
     r = f64_div (f64_of_int (100 * M div R)) (f64_of_int (sint t))"
proof -
  let ?k = "known ms rs"
  define mt rt where "mt = sum_list (map snd ?k)" and "rt = sum_list (map (\<lambda>e. the (map_of rs (fst e))) ?k)"
  have M: "M = sum_list (map sint (map snd ?k))" and R: "R = sum_list (map sint (map (\<lambda>e. the (map_of rs (fst e))) ?k))"
    using assms(1,2) by (simp_all add: comp_def)
  have M0: "0 \<le> M" unfolding M using assms(3) by (intro sum_list_nonneg) auto
  have b: "M < 9223372036854775808" "R < 9223372036854775808" using assms(4,6) M0 by simp_all
  have mt: "sint mt = M"
    unfolding mt_def M by (rule sint_sum_list64 [OF _ b(1) [unfolded M]]) (use assms(3) in auto)
  have rt: "sint rt = R"
    unfolding rt_def R by (rule sint_sum_list64 [OF _ b(2) [unfolded R]]) (use assms(3) in auto)
  have k: "1 \<le> int (length ?k)" using assms(2,5) by (cases ?k) auto
  have n0: "?k \<noteq> []" using assms(2,5) by auto
  have "length ?k \<le> length ms" by (simp add: known_def)
  then have n: "sint (of_nat (length ?k) :: int64) = int (length ?k)"
    using assms(8) by (intro sint_of_nat64) linarith
  have nz: "rt \<noteq> 0" "(of_nat (length ?k) :: int64) \<noteq> 0" using rt n n0 assms(5) by (auto simp: sint_eq_iff)
  have mt100: "sint (mt * 100) = 100 * M"
    using assms(4) M0 mt by (subst sint64_mult) simp_all
  define u where "u = 100 * M div R"
  have u: "0 \<le> u" "u < 2147483648" using assms(5,7) M0 by (simp_all add: u_def div_int_pos_iff)
  have "div64 (mt * 100) rt = Inr (word_of_int u)"
    using nz(1) mt100 rt M0 assms(5) by (simp add: div64_def sdiv_nonneg u_def)
  moreover have "sint (int32_of_int64 (word_of_int u)) = u"
    using u by (simp add: int32_of_int64_def sint64_of_int sint32_of_int)
  moreover have raw: "div64 mt (of_nat (length ?k)) = Inr (word_of_int (M div int (length ?k)))"
    using nz(2) mt n M0 n0 by (simp add: div64_def sdiv_nonneg)
  moreover have "M div int (length ?k) \<le> M" "0 \<le> M div int (length ?k)"
    using zdiv_mono2 [of M 1 "int (length ?k)"] k M0 by (simp_all add: div_int_pos_iff)
  then have "sint (word_of_int (M div int (length ?k)) :: int64) = M div int (length ?k)"
    using b(1) by (intro sint64_of_int) linarith+
  ultimately show ?thesis
    by (simp add: GetResourceUtilizationRatio_def utilization_totals_eq nz flip: mt_def rt_def u_def)
qed

theorem resource_utilization_percentage_witness:
  "\<exists>r u raw. GetResourceUtilizationRatio [(''a'', 30), (''b'', 45), (''x'', 7)] [(''a'', 100), (''b'', 100)] 50 = Inr (r, u, raw) \<and>
     sint u = 37 \<and> sint raw = 37 \<and> r = f64_div (f64_of_int 37) (f64_of_int 50)"
  using resource_utilization_percentage
    [of 75 "[(''a'', 30), (''b'', 45), (''x'', 7)]" "[(''a'', 100), (''b'', 100)]" 200 50]
  by (simp add: known_def)

end
