(* ===== verification/ReplicaCalculator.thy ===== *)
theory ReplicaCalculator
  imports Utilization
begin

text \<open>
  pkg/controller/chpa/replica_calculator.go: how many replicas a metric asks for.

  The metrics client, the pod lister and the vendored conversions are fields of the
  \<open>ReplicaCalculator\<close> record: state-monad programs over a world of any type \<open>'w\<close>, so that an
  answer may depend on everything that happened before it.  A \<open>labels.Selector\<close> is represented
  by the string the code passes on; the returned map of pod metrics is mutated in place by the
  code and therefore threaded through the loops here.
\<close>

type_synonym selector = string

record 'w ReplicaCalculator =
  GetResourceMetric :: "string \<Rightarrow> string \<Rightarrow> selector \<Rightarrow> ('w, string + (pod_metrics \<times> gotime)) state"
  GetRawMetric :: "string \<Rightarrow> string \<Rightarrow> selector \<Rightarrow> ('w, string + (pod_metrics \<times> gotime)) state"
  GetObjectMetric :: "string \<Rightarrow> string \<Rightarrow> CrossVersionObjectReference \<Rightarrow> ('w, string + (int64 \<times> gotime)) state"
  GetExternalMetric :: "string \<Rightarrow> string \<Rightarrow> selector \<Rightarrow> ('w, string + (int64 list \<times> gotime)) state"
  ListPods :: "string \<Rightarrow> selector \<Rightarrow> ('w, string + Pod list) state"
  LabelSelectorAsSelector :: "label_selector option \<Rightarrow> string + selector"
  MilliValue :: "quantity \<Rightarrow> int64"
  format_selector :: "label_selector option \<Rightarrow> string"
  tolerance :: f64

section \<open>Pieces shared by the calculations\<close>

text \<open>\<open>math.Abs(1.0-usageRatio) <= c.tolerance\<close>\<close>

definition within_tolerance :: "f64 \<Rightarrow> f64 \<Rightarrow> bool" where
  "within_tolerance tol usageRatio \<longleftrightarrow> f64_abs (f64_sub (f64_of_int 1) usageRatio) \<le> tol"

text \<open>\<open>int32(math.Ceil(usageRatio * float64(n)))\<close>\<close>

definition scaled_count :: "f64 \<Rightarrow> int \<Rightarrow> int32" where
  "scaled_count usageRatio n = int32_of_f64 (math_Ceil (f64_mul usageRatio (f64_of_int n)))"

text \<open>\<open>for podName := range names { metrics[podName] = f podName }\<close>\<close>

definition set_metrics :: "string list \<Rightarrow> (string \<Rightarrow> int64) \<Rightarrow> pod_metrics \<Rightarrow> pod_metrics" where
  "set_metrics names f metrics = fold (\<lambda>podName m. AList.update podName (f podName) m) names metrics"

text \<open>A Go map read without the presence flag: the zero value for an absent key.\<close>

definition map_get :: "pod_metrics \<Rightarrow> string \<Rightarrow> int64" where
  "map_get m k = (case map_of m k of None \<Rightarrow> 0 | Some v \<Rightarrow> v)"

text \<open>The local variables of the pod loops; the two sets hold a name once.\<close>

record pod_groups =
  pg_metrics :: pod_metrics
  pg_requests :: pod_metrics
  pg_readyPodCount :: nat
  pg_unreadyPods :: "string list"
  pg_missingPods :: "string list"

definition no_groups :: "pod_metrics \<Rightarrow> pod_groups" where
  "no_groups metrics = \<lparr>pg_metrics = metrics, pg_requests = [], pg_readyPodCount = 0,
                        pg_unreadyPods = [], pg_missingPods = []\<rparr>"

section \<open>Resource metrics as a percentage of the request\<close>

fun sum_requests ::
  "(quantity \<Rightarrow> int64) \<Rightarrow> string \<Rightarrow> string \<Rightarrow> string \<Rightarrow> Container list \<Rightarrow> int64 \<Rightarrow> fault + int64" where
  "sum_requests milli resource namespace podName [] podSum = Inr podSum"
| "sum_requests milli resource namespace podName (container # containers) podSum =
     (case map_of (ctr_Requests container) resource of
        Some containerRequest \<Rightarrow>
          sum_requests milli resource namespace podName containers (podSum + milli containerRequest)
      | None \<Rightarrow> Inl (Err (''missing request for '' @ resource @ '' on container '' @ ctr_Name container
                          @ '' in pod '' @ namespace @ ''/'' @ podName)))"

definition resource_pod_step ::
  "(quantity \<Rightarrow> int64) \<Rightarrow> string \<Rightarrow> string \<Rightarrow> Pod \<Rightarrow> pod_groups \<Rightarrow> fault + pod_groups" where
  "resource_pod_step milli resource namespace pod g0 =
    (case sum_requests milli resource namespace (pod_Name pod) (pod_Containers pod) 0 of
       Inl e \<Rightarrow> Inl e
     | Inr podSum \<Rightarrow>
         (let g = g0\<lparr>pg_requests := AList.update (pod_Name pod) podSum (pg_requests g0)\<rparr> in
          if pod_Phase pod \<noteq> ''Running'' \<or> \<not> IsPodReady pod then
            (let g' = (if pod_Phase pod \<noteq> ''Failed''
                       then g\<lparr>pg_unreadyPods := List.insert (pod_Name pod) (pg_unreadyPods g)\<rparr> else g)
             in Inr (g'\<lparr>pg_metrics := AList.delete (pod_Name pod) (pg_metrics g')\<rparr>))
          else if map_of (pg_metrics g) (pod_Name pod) = None then
            Inr (g\<lparr>pg_missingPods := List.insert (pod_Name pod) (pg_missingPods g)\<rparr>)
          else Inr (g\<lparr>pg_readyPodCount := pg_readyPodCount g + 1\<rparr>)))"

fun resource_pod_loop ::
  "(quantity \<Rightarrow> int64) \<Rightarrow> string \<Rightarrow> string \<Rightarrow> Pod list \<Rightarrow> pod_groups \<Rightarrow> fault + pod_groups" where
  "resource_pod_loop milli resource namespace [] g = Inr g"
| "resource_pod_loop milli resource namespace (pod # pods) g =
     (case resource_pod_step milli resource namespace pod g of
        Inl e \<Rightarrow> Inl e
      | Inr g' \<Rightarrow> resource_pod_loop milli resource namespace pods g')"

text \<open>The metrics filled in before the second utilisation.\<close>

definition resource_fill :: "pod_groups \<Rightarrow> f64 \<Rightarrow> bool \<Rightarrow> pod_metrics" where
  "resource_fill g usageRatio rebalanceUnready =
    (let m0 = pg_metrics g;
         m1 = (if pg_missingPods g \<noteq> [] then
                 (if usageRatio < f64_of_int 1
                  then set_metrics (pg_missingPods g) (map_get (pg_requests g)) m0
                  else if usageRatio > f64_of_int 1
                  then set_metrics (pg_missingPods g) (\<lambda>_. 0) m0
                  else m0)
               else m0)
     in if rebalanceUnready then set_metrics (pg_unreadyPods g) (\<lambda>_. 0) m1 else m1)"

text \<open>Everything after the pod loop.\<close>

definition resource_replicas ::
  "f64 \<Rightarrow> int32 \<Rightarrow> int32 \<Rightarrow> pod_groups \<Rightarrow> fault + (int32 \<times> int32 \<times> int64)" where
  "resource_replicas tol currentReplicas targetUtilization g =
    (if pg_metrics g = [] then Inl (Err ''did not receive metrics for any ready pods'')
     else case GetResourceUtilizationRatio (pg_metrics g) (pg_requests g) targetUtilization of
       Inl e \<Rightarrow> Inl e
     | Inr (usageRatio, utilization, rawUtilization) \<Rightarrow>
         (let rebalanceUnready = (pg_unreadyPods g \<noteq> [] \<and> usageRatio > f64_of_int 1) in
          if \<not> rebalanceUnready \<and> pg_missingPods g = [] then
            (if within_tolerance tol usageRatio then Inr (currentReplicas, utilization, rawUtilization)
             else Inr (scaled_count usageRatio (int (pg_readyPodCount g)), utilization, rawUtilization))
          else
            (let metrics = resource_fill g usageRatio rebalanceUnready in
             case GetResourceUtilizationRatio metrics (pg_requests g) targetUtilization of
               Inl e \<Rightarrow> Inl e
             | Inr (newUsageRatio, _, _) \<Rightarrow>
                 (if within_tolerance tol newUsageRatio
                     \<or> (usageRatio < f64_of_int 1 \<and> newUsageRatio > f64_of_int 1)
                     \<or> (usageRatio > f64_of_int 1 \<and> newUsageRatio < f64_of_int 1)
                  then Inr (currentReplicas, utilization, rawUtilization)
                  else Inr (scaled_count newUsageRatio (int (length metrics)), utilization, rawUtilization)))))"

text \<open>The calculation on the fetched metrics and pods.\<close>

definition resource_calc ::
  "f64 \<Rightarrow> (quantity \<Rightarrow> int64) \<Rightarrow> int32 \<Rightarrow> int32 \<Rightarrow> string \<Rightarrow> string \<Rightarrow> Pod list \<Rightarrow> pod_metrics
   \<Rightarrow> fault + (int32 \<times> int32 \<times> int64)" where
  "resource_calc tol milli currentReplicas targetUtilization resource namespace items metrics =
    (if items = [] then Inl (Err ''no pods returned by selector while calculating replica count'')
     else case resource_pod_loop milli resource namespace items (no_groups metrics) of
       Inl e \<Rightarrow> Inl e
     | Inr g \<Rightarrow> resource_replicas tol currentReplicas targetUtilization g)"

definition GetResourceReplicas ::
  "'w ReplicaCalculator \<Rightarrow> int32 \<Rightarrow> int32 \<Rightarrow> string \<Rightarrow> string \<Rightarrow> selector
   \<Rightarrow> ('w, fault + (int32 \<times> int32 \<times> int64 \<times> gotime)) state" where
  "GetResourceReplicas c currentReplicas targetUtilization resource namespace sel = do {
     r \<leftarrow> GetResourceMetric c resource namespace sel;
     (case r of
        Inl err \<Rightarrow> State_Monad.return (Inl (Err (''unable to get metrics for resource '' @ resource @ '': '' @ err)))
      | Inr (metrics, timestamp) \<Rightarrow> do {
          l \<leftarrow> ListPods c namespace sel;
          State_Monad.return (case l of
             Inl err \<Rightarrow> Inl (Err (''unable to get pods while calculating replica count: '' @ err))
           | Inr items \<Rightarrow>
               (case resource_calc (tolerance c) (MilliValue c) currentReplicas targetUtilization
                       resource namespace items metrics of
                  Inl e \<Rightarrow> Inl e
                | Inr (n, utilization, rawUtilization) \<Rightarrow> Inr (n, utilization, rawUtilization, timestamp)))
        })
   }"

section \<open>Plain metrics\<close>

definition plain_pod_step :: "Pod \<Rightarrow> pod_groups \<Rightarrow> pod_groups" where
  "plain_pod_step pod g =
    (if pod_Phase pod \<noteq> ''Running'' \<or> \<not> IsPodReady pod then
       g\<lparr>pg_unreadyPods := List.insert (pod_Name pod) (pg_unreadyPods g),
         pg_metrics := AList.delete (pod_Name pod) (pg_metrics g)\<rparr>
     else if map_of (pg_metrics g) (pod_Name pod) = None then
       g\<lparr>pg_missingPods := List.insert (pod_Name pod) (pg_missingPods g)\<rparr>
     else g\<lparr>pg_readyPodCount := pg_readyPodCount g + 1\<rparr>)"

fun plain_pod_loop :: "Pod list \<Rightarrow> pod_groups \<Rightarrow> pod_groups" where
  "plain_pod_loop [] g = g"
| "plain_pod_loop (pod # pods) g = plain_pod_loop pods (plain_pod_step pod g)"

definition plain_fill :: "pod_groups \<Rightarrow> int64 \<Rightarrow> f64 \<Rightarrow> bool \<Rightarrow> pod_metrics" where
  "plain_fill g targetUtilization usageRatio rebalanceUnready =
    (let m0 = pg_metrics g;
         m1 = (if pg_missingPods g \<noteq> [] then
                 (if usageRatio < f64_of_int 1
                  then set_metrics (pg_missingPods g) (\<lambda>_. targetUtilization) m0
                  else set_metrics (pg_missingPods g) (\<lambda>_. 0) m0)
               else m0)
     in if rebalanceUnready then set_metrics (pg_unreadyPods g) (\<lambda>_. 0) m1 else m1)"

definition plain_replicas :: "f64 \<Rightarrow> int32 \<Rightarrow> int64 \<Rightarrow> pod_groups \<Rightarrow> fault + (int32 \<times> int64)" where
  "plain_replicas tol currentReplicas targetUtilization g =
    (if pg_metrics g = [] then Inl (Err ''did not receive metrics for any ready pods'')
     else case GetMetricUtilizationRatio (pg_metrics g) targetUtilization of
       Inl e \<Rightarrow> Inl e
     | Inr (usageRatio, utilization) \<Rightarrow>
         (let rebalanceUnready = (pg_unreadyPods g \<noteq> [] \<and> usageRatio > f64_of_int 1) in
          if \<not> rebalanceUnready \<and> pg_missingPods g = [] then
            (if within_tolerance tol usageRatio then Inr (currentReplicas, utilization)
             else Inr (scaled_count usageRatio (int (pg_readyPodCount g)), utilization))
          else
            (let metrics = plain_fill g targetUtilization usageRatio rebalanceUnready in
             case GetMetricUtilizationRatio metrics targetUtilization of
               Inl e \<Rightarrow> Inl e
             | Inr (newUsageRatio, _) \<Rightarrow>
                 (if within_tolerance tol newUsageRatio
                     \<or> (usageRatio < f64_of_int 1 \<and> newUsageRatio > f64_of_int 1)
                     \<or> (usageRatio > f64_of_int 1 \<and> newUsageRatio < f64_of_int 1)
                  then Inr (currentReplicas, utilization)
                  else Inr (scaled_count newUsageRatio (int (length metrics)), utilization)))))"

definition plain_calc ::
  "f64 \<Rightarrow> int32 \<Rightarrow> int64 \<Rightarrow> Pod list \<Rightarrow> pod_metrics \<Rightarrow> fault + (int32 \<times> int64)" where
  "plain_calc tol currentReplicas targetUtilization items metrics =
    (if items = [] then Inl (Err ''no pods returned by selector while calculating replica count'')
     else plain_replicas tol currentReplicas targetUtilization (plain_pod_loop items (no_groups metrics)))"

definition calcPlainMetricReplicas ::
  "'w ReplicaCalculator \<Rightarrow> pod_metrics \<Rightarrow> int32 \<Rightarrow> int64 \<Rightarrow> string \<Rightarrow> selector
   \<Rightarrow> ('w, fault + (int32 \<times> int64)) state" where
  "calcPlainMetricReplicas c metrics currentReplicas targetUtilization namespace sel = do {
     l \<leftarrow> ListPods c namespace sel;
     State_Monad.return (case l of
        Inl err \<Rightarrow> Inl (Err (''unable to get pods while calculating replica count: '' @ err))
      | Inr items \<Rightarrow> plain_calc (tolerance c) currentReplicas targetUtilization items metrics)
   }"

definition with_timestamp ::
  "gotime \<Rightarrow> fault + (int32 \<times> int64) \<Rightarrow> fault + (int32 \<times> int64 \<times> gotime)" where
  "with_timestamp timestamp r =
     (case r of Inl e \<Rightarrow> Inl e | Inr (replicaCount, utilization) \<Rightarrow> Inr (replicaCount, utilization, timestamp))"

definition GetRawResourceReplicas ::
  "'w ReplicaCalculator \<Rightarrow> int32 \<Rightarrow> int64 \<Rightarrow> string \<Rightarrow> string \<Rightarrow> selector
   \<Rightarrow> ('w, fault + (int32 \<times> int64 \<times> gotime)) state" where
  "GetRawResourceReplicas c currentReplicas targetUtilization resource namespace sel = do {
     r \<leftarrow> GetResourceMetric c resource namespace sel;
     (case r of
        Inl err \<Rightarrow> State_Monad.return (Inl (Err (''unable to get metrics for resource '' @ resource @ '': '' @ err)))
      | Inr (metrics, timestamp) \<Rightarrow> do {
          p \<leftarrow> calcPlainMetricReplicas c metrics currentReplicas targetUtilization namespace sel;
          State_Monad.return (with_timestamp timestamp p)
        })
   }"

definition GetMetricReplicas ::
  "'w ReplicaCalculator \<Rightarrow> int32 \<Rightarrow> int64 \<Rightarrow> string \<Rightarrow> string \<Rightarrow> selector
   \<Rightarrow> ('w, fault + (int32 \<times> int64 \<times> gotime)) state" where
  "GetMetricReplicas c currentReplicas targetUtilization metricName namespace sel = do {
     r \<leftarrow> GetRawMetric c metricName namespace sel;
     (case r of
        Inl err \<Rightarrow> State_Monad.return (Inl (Err (''unable to get metric '' @ metricName @ '': '' @ err)))
      | Inr (metrics, timestamp) \<Rightarrow> do {
          p \<leftarrow> calcPlainMetricReplicas c metrics currentReplicas targetUtilization namespace sel;
          State_Monad.return (with_timestamp timestamp p)
        })
   }"

section \<open>Object and external metrics\<close>

text \<open>
  The error text passes the metric name, the client's error, and the object's kind, namespace and
  name to the verbs in the order the code has them.
\<close>

definition GetObjectMetricReplicas ::
  "'w ReplicaCalculator \<Rightarrow> int32 \<Rightarrow> int64 \<Rightarrow> string \<Rightarrow> string \<Rightarrow> CrossVersionObjectReference
   \<Rightarrow> ('w, fault + (int32 \<times> int64 \<times> gotime)) state" where
  "GetObjectMetricReplicas c currentReplicas targetUtilization metricName namespace objectRef = do {
     r \<leftarrow> GetObjectMetric c metricName namespace objectRef;
     State_Monad.return (case r of
        Inl err \<Rightarrow> Inl (Err (''unable to get metric '' @ metricName @ '': '' @ ref_Kind objectRef @ '' on ''
                             @ namespace @ '' '' @ ref_Name objectRef @ ''/'' @ err))
      | Inr (utilization, timestamp) \<Rightarrow>
          (let usageRatio = f64_div (f64_of_int (sint utilization)) (f64_of_int (sint targetUtilization)) in
           if within_tolerance (tolerance c) usageRatio then Inr (currentReplicas, utilization, timestamp)
           else Inr (scaled_count usageRatio (sint currentReplicas), utilization, timestamp)))
   }"

fun sum_values :: "int64 list \<Rightarrow> int64 \<Rightarrow> int64" where
  "sum_values [] utilization = utilization"
| "sum_values (val # metrics) utilization = sum_values metrics (utilization + val)"

definition GetExternalMetricReplicas ::
  "'w ReplicaCalculator \<Rightarrow> int32 \<Rightarrow> int64 \<Rightarrow> string \<Rightarrow> string \<Rightarrow> label_selector option
   \<Rightarrow> ('w, fault + (int32 \<times> int64 \<times> gotime)) state" where
  "GetExternalMetricReplicas c currentReplicas targetUtilization metricName namespace sel =
     (case LabelSelectorAsSelector c sel of
        Inl err \<Rightarrow> State_Monad.return (Inl (Err err))
      | Inr labelSelector \<Rightarrow> do {
          r \<leftarrow> GetExternalMetric c metricName namespace labelSelector;
          State_Monad.return (case r of
             Inl err \<Rightarrow> Inl (Err (''unable to get external metric '' @ namespace @ ''/'' @ metricName @ ''/''
                                  @ format_selector c sel @ '': '' @ err))
           | Inr (metrics, timestamp) \<Rightarrow>
               (let utilization = sum_values metrics 0;
                    usageRatio = f64_div (f64_of_int (sint utilization)) (f64_of_int (sint targetUtilization))
                in if within_tolerance (tolerance c) usageRatio
                   then Inr (currentReplicas, utilization, timestamp)
                   else Inr (scaled_count usageRatio (sint currentReplicas), utilization, timestamp)))
        })"

definition GetExternalPerPodMetricReplicas ::
  "'w ReplicaCalculator \<Rightarrow> int32 \<Rightarrow> int64 \<Rightarrow> string \<Rightarrow> string \<Rightarrow> label_selector option
   \<Rightarrow> ('w, fault + (int32 \<times> int64 \<times> gotime)) state" where
  "GetExternalPerPodMetricReplicas c currentReplicas targetUtilizationPerPod metricName namespace sel =
     (case LabelSelectorAsSelector c sel of
        Inl err \<Rightarrow> State_Monad.return (Inl (Err err))
      | Inr labelSelector \<Rightarrow> do {
          r \<leftarrow> GetExternalMetric c metricName namespace labelSelector;
          State_Monad.return (case r of
             Inl err \<Rightarrow> Inl (Err (''unable to get external metric '' @ namespace @ ''/'' @ metricName @ ''/''
                                  @ format_selector c sel @ '': '' @ err))
           | Inr (metrics, timestamp) \<Rightarrow>
               (let utilization = sum_values metrics 0;
                    usageRatio = f64_div (f64_of_int (sint utilization))
                      (f64_mul (f64_of_int (sint targetUtilizationPerPod)) (f64_of_int (sint currentReplicas)));
                    replicaCount =
                      (if tolerance c < f64_abs (f64_sub (f64_of_int 1) usageRatio)
                       then int32_of_f64 (math_Ceil (f64_div (f64_of_int (sint utilization))
                                                            (f64_of_int (sint targetUtilizationPerPod))))
                       else currentReplicas);
                    average = int64_of_f64 (math_Ceil (f64_div (f64_of_int (sint utilization))
                                                               (f64_of_int (sint currentReplicas))))
                in Inr (replicaCount, average, timestamp)))
        })"

end
