(* ===== verification/ReplicaFacts.thy ===== *)
theory ReplicaFacts
  imports ReplicaCalculator ChpaSpec
begin

text \<open>
  Facts about the replica calculations: the loops over the pods keep the metrics map well formed
  and only shrink it, no calculation panics, the result does not depend on the order in which the
  maps are ranged over, and a proposal never contradicts the direction of the measured usage.
\<close>

section \<open>Maps under the loops\<close>

lemma map_of_AList_update: "map_of (AList.update k v m) = (map_of m)(k \<mapsto> v)"
  by (simp add: update_conv')

lemma map_of_AList_delete: "map_of (AList.delete k m) = (map_of m)(k := None)"
  by (simp add: delete_conv')

lemma set_metrics_Nil [simp]: "set_metrics [] f m = m"
  by (simp add: set_metrics_def)

lemma set_metrics_Cons [simp]: "set_metrics (p # ps) f m = set_metrics ps f (AList.update p (f p) m)"
  by (simp add: set_metrics_def)

lemma set_metrics_wf [simp]: "wf_map m \<Longrightarrow> wf_map (set_metrics names f m)"
  by (induction names arbitrary: m) simp_all

lemma set_metrics_lookup:
  "map_of (set_metrics names f m) k = (if k \<in> set names then Some (f k) else map_of m k)"
  by (induction names arbitrary: m) (auto simp: map_of_AList_update)

lemma set_metrics_lookup_cong:
  "map_of m = map_of m' \<Longrightarrow> map_of (set_metrics names f m) = map_of (set_metrics names f m')"
  by (simp add: fun_eq_iff set_metrics_lookup)

lemma length_update_le: "length (AList.update k v m) \<le> length m + 1"
  by (induction m) auto

lemma set_metrics_length: "length (set_metrics names f m) \<le> length m + length names"
proof (induction names arbitrary: m)
  case (Cons p ps)
  show ?case using Cons.IH [of "AList.update p (f p) m"] length_update_le [of p "f p" m] by simp
qed simp

lemma update_nonempty [simp]: "AList.update k v m \<noteq> []"
  by (cases m) auto

lemma set_metrics_nonempty: "m \<noteq> [] \<Longrightarrow> set_metrics names f m \<noteq> []"
  by (induction names arbitrary: m) auto

lemma length_delete_le: "length (AList.delete k m) \<le> length m"
  by (simp add: AList.delete_eq)

section \<open>The groups after the loops\<close>

text \<open>Each pod adds at most one name to one of the two sets; the metrics map never grows.\<close>

definition groups_size :: "pod_groups \<Rightarrow> nat" where
  "groups_size g = length (pg_metrics g) + length (pg_unreadyPods g) + length (pg_missingPods g)
                   + pg_readyPodCount g"

lemma length_insert_le: "length (List.insert x xs) \<le> length xs + 1"
  by (simp add: List.insert_def)

lemma sum_requests_no_panic: "sum_requests milli res ns p cs s \<noteq> Inl (Panic q)"
  by (induction cs arbitrary: s) (auto split: option.splits)

lemma resource_pod_step_ok:
  assumes "resource_pod_step milli res ns pod g = Inr g'"
  shows "groups_size g' \<le> groups_size g + 1" "wf_map (pg_metrics g) \<Longrightarrow> wf_map (pg_metrics g')"
  using assms length_insert_le [of "pod_Name pod" "pg_unreadyPods g"]
    length_insert_le [of "pod_Name pod" "pg_missingPods g"] length_delete_le [of "pod_Name pod" "pg_metrics g"]
  by (auto simp: resource_pod_step_def Let_def groups_size_def split: sum.splits if_splits)

lemma resource_pod_step_no_panic: "resource_pod_step milli res ns pod g \<noteq> Inl (Panic q)"
  using sum_requests_no_panic by (auto simp: resource_pod_step_def Let_def split: sum.splits)

lemma resource_pod_loop_ok:
  assumes "resource_pod_loop milli res ns pods g = Inr g'"
  shows "groups_size g' \<le> groups_size g + length pods" "wf_map (pg_metrics g) \<Longrightarrow> wf_map (pg_metrics g')"
proof -
  have "groups_size g' \<le> groups_size g + length pods \<and> (wf_map (pg_metrics g) \<longrightarrow> wf_map (pg_metrics g'))"
    using assms
  proof (induction pods arbitrary: g)
    case (Cons pod pods)
    then obtain h where h: "resource_pod_step milli res ns pod g = Inr h"
      "resource_pod_loop milli res ns pods h = Inr g'" by (auto split: sum.splits)
    show ?case using Cons.IH [OF h(2)] resource_pod_step_ok [OF h(1)] by auto
  qed simp
  then show "groups_size g' \<le> groups_size g + length pods" "wf_map (pg_metrics g) \<Longrightarrow> wf_map (pg_metrics g')"
    by simp_all
qed

lemma resource_pod_loop_no_panic: "resource_pod_loop milli res ns pods g \<noteq> Inl (Panic q)"
  using resource_pod_step_no_panic by (induction pods arbitrary: g) (auto split: sum.splits)

lemma plain_pod_step_ok:
  "groups_size (plain_pod_step pod g) \<le> groups_size g + 1"
  "wf_map (pg_metrics g) \<Longrightarrow> wf_map (pg_metrics (plain_pod_step pod g))"
  using length_insert_le [of "pod_Name pod" "pg_unreadyPods g"]
    length_insert_le [of "pod_Name pod" "pg_missingPods g"] length_delete_le [of "pod_Name pod" "pg_metrics g"]
  by (auto simp: plain_pod_step_def groups_size_def)

lemma plain_pod_loop_ok:
  "groups_size (plain_pod_loop pods g) \<le> groups_size g + length pods"
  "wf_map (pg_metrics g) \<Longrightarrow> wf_map (pg_metrics (plain_pod_loop pods g))"
proof -
  have "groups_size (plain_pod_loop pods g) \<le> groups_size g + length pods
        \<and> (wf_map (pg_metrics g) \<longrightarrow> wf_map (pg_metrics (plain_pod_loop pods g)))"
  proof (induction pods arbitrary: g)
    case (Cons pod pods)
    show ?case using Cons.IH [of "plain_pod_step pod g"] plain_pod_step_ok(1) [of pod g] plain_pod_step_ok(2) [of g pod] by auto
  qed simp
  then show "groups_size (plain_pod_loop pods g) \<le> groups_size g + length pods"
    "wf_map (pg_metrics g) \<Longrightarrow> wf_map (pg_metrics (plain_pod_loop pods g))" by simp_all
qed

lemma resource_fill_length: "length (resource_fill g r b) \<le> groups_size g"
  using set_metrics_length [of "pg_missingPods g" "map_get (pg_requests g)" "pg_metrics g"]
    set_metrics_length [of "pg_missingPods g" "\<lambda>_. 0" "pg_metrics g"]
    set_metrics_length [of "pg_unreadyPods g" "\<lambda>_. 0" "pg_metrics g"]
    set_metrics_length [of "pg_unreadyPods g" "\<lambda>_. 0" "set_metrics (pg_missingPods g) (map_get (pg_requests g)) (pg_metrics g)"]
    set_metrics_length [of "pg_unreadyPods g" "\<lambda>_. 0" "set_metrics (pg_missingPods g) (\<lambda>_. 0) (pg_metrics g)"]
  by (simp add: resource_fill_def Let_def groups_size_def)

lemma plain_fill_length: "length (plain_fill g t r b) \<le> groups_size g"
  using set_metrics_length [of "pg_missingPods g" "\<lambda>_. t" "pg_metrics g"]
    set_metrics_length [of "pg_missingPods g" "\<lambda>_. 0" "pg_metrics g"]
    set_metrics_length [of "pg_unreadyPods g" "\<lambda>_. 0" "pg_metrics g"]
    set_metrics_length [of "pg_unreadyPods g" "\<lambda>_. 0" "set_metrics (pg_missingPods g) (\<lambda>_. t) (pg_metrics g)"]
    set_metrics_length [of "pg_unreadyPods g" "\<lambda>_. 0" "set_metrics (pg_missingPods g) (\<lambda>_. 0) (pg_metrics g)"]
  by (simp add: plain_fill_def Let_def groups_size_def)

lemma plain_fill_nonempty: "pg_metrics g \<noteq> [] \<Longrightarrow> plain_fill g t r b \<noteq> []"
  by (simp add: plain_fill_def Let_def set_metrics_nonempty)

section \<open>No calculation panics\<close>

lemma resource_replicas_no_panic:
  assumes "groups_size g < 2 ^ 63"
  shows "resource_replicas tol cur t g \<noteq> Inl (Panic p)"
proof -
  have l: "length (pg_metrics g) < 2 ^ 63" using assms by (simp add: groups_size_def)
  have f: "length (resource_fill g r b) < 2 ^ 63" for r b
    using resource_fill_length assms by (meson le_less_trans)
  note np = GetResourceUtilizationRatio_no_panic [OF l] GetResourceUtilizationRatio_no_panic [OF f]
  show ?thesis
    using np by (auto simp: resource_replicas_def Let_def split: sum.splits)
qed

lemma plain_replicas_no_panic:
  assumes "groups_size g < 2 ^ 63"
  shows "plain_replicas tol cur t g \<noteq> Inl (Panic p)"
proof (cases "pg_metrics g = []")
  case False
  have "length (pg_metrics g) < 2 ^ 63" using assms by (simp add: groups_size_def)
  then obtain r u where r: "GetMetricUtilizationRatio (pg_metrics g) t = Inr (r, u)"
    using GetMetricUtilizationRatio_no_panic False by blast
  have "\<exists>r' u'. GetMetricUtilizationRatio (plain_fill g t r b) t = Inr (r', u')" for b
    using plain_fill_length [of g t r b] assms
    by (intro GetMetricUtilizationRatio_no_panic plain_fill_nonempty False) linarith
  then show ?thesis
    using False r by (auto simp: plain_replicas_def Let_def split: sum.splits) (metis sum.distinct(1))+
qed (simp add: plain_replicas_def)

text \<open>
  What the code relies on of its clients: a returned Go map holds a key once, and maps and lists
  are shorter than the address space.
\<close>

definition clients_ok :: "'w ReplicaCalculator \<Rightarrow> bool" where
  "clients_ok c \<longleftrightarrow>
     (\<forall>res ns sel w m ts w'. run_state (GetResourceMetric c res ns sel) w = (Inr (m, ts), w')
        \<longrightarrow> wf_map m \<and> length m < 2 ^ 62) \<and>
     (\<forall>name ns sel w m ts w'. run_state (GetRawMetric c name ns sel) w = (Inr (m, ts), w')
        \<longrightarrow> wf_map m \<and> length m < 2 ^ 62) \<and>
     (\<forall>ns sel w items w'. run_state (ListPods c ns sel) w = (Inr items, w') \<longrightarrow> length items < 2 ^ 62)"

lemma clients_okD:
  assumes "clients_ok c"
  shows "run_state (GetResourceMetric c res ns sel) w = (Inr (m, ts), w') \<Longrightarrow> wf_map m \<and> length m < 2 ^ 62"
    "run_state (GetRawMetric c name ns sel) w = (Inr (m, ts), w') \<Longrightarrow> wf_map m \<and> length m < 2 ^ 62"
    "run_state (ListPods c ns sel) w = (Inr items, w') \<Longrightarrow> length items < 2 ^ 62"
  using assms unfolding clients_ok_def by blast+

lemma groups_size_no_groups [simp]: "groups_size (no_groups m) = length m"
  by (simp add: groups_size_def no_groups_def)

lemma resource_calc_no_panic:
  assumes "length m < 2 ^ 62" "length items < 2 ^ 62"
  shows "resource_calc tol milli cur t res ns items m \<noteq> Inl (Panic p)"
proof (cases "resource_pod_loop milli res ns items (no_groups m)")
  case (Inl e)
  then show ?thesis using resource_pod_loop_no_panic [of milli res ns items "no_groups m" p]
    by (auto simp: resource_calc_def)
next
  case (Inr g)
  have "groups_size g < 2 ^ 63"
    using resource_pod_loop_ok(1) [OF Inr] assms by simp
  then show ?thesis using Inr resource_replicas_no_panic by (auto simp: resource_calc_def)
qed

lemma plain_calc_no_panic:
  assumes "length m < 2 ^ 62" "length items < 2 ^ 62"
  shows "plain_calc tol cur t items m \<noteq> Inl (Panic p)"
proof -
  have "groups_size (plain_pod_loop items (no_groups m)) < 2 ^ 63"
    using plain_pod_loop_ok(1) [of items "no_groups m"] assms by simp
  then show ?thesis using plain_replicas_no_panic by (auto simp: plain_calc_def)
qed

lemma GetResourceReplicas_no_panic:
  assumes "clients_ok c"
  shows "fst (run_state (GetResourceReplicas c cur t res ns sel) w) \<noteq> Inl (Panic p)"
  using clients_okD [OF assms] resource_calc_no_panic
  by (fastforce simp: GetResourceReplicas_def run_simps split: sum.splits prod.splits)

lemma calcPlainMetricReplicas_no_panic:
  assumes "clients_ok c" "length m < 2 ^ 62"
  shows "fst (run_state (calcPlainMetricReplicas c m cur t ns sel) w) \<noteq> Inl (Panic p)"
  using clients_okD [OF assms(1)] plain_calc_no_panic [OF assms(2)]
  by (auto simp: calcPlainMetricReplicas_def run_simps split: sum.splits prod.splits)

lemma with_timestamp_Panic: "with_timestamp ts r = Inl e \<longleftrightarrow> r = Inl e"
  by (auto simp: with_timestamp_def split: sum.splits)

lemma GetRawResourceReplicas_no_panic:
  assumes "clients_ok c"
  shows "fst (run_state (GetRawResourceReplicas c cur t res ns sel) w) \<noteq> Inl (Panic p)"
proof (cases "run_state (GetResourceMetric c res ns sel) w")
  case (Pair r w')
  show ?thesis
  proof (cases r)
    case (Inr v)
    then obtain m ts where v: "r = Inr (m, ts)" by (cases v) auto
    have "length m < 2 ^ 62" using clients_okD(1) [OF assms] Pair v by blast
    from calcPlainMetricReplicas_no_panic [OF assms this] show ?thesis
      using Pair v by (auto simp: GetRawResourceReplicas_def with_timestamp_Panic split: prod.splits) (metis fst_conv)
  qed (simp add: GetRawResourceReplicas_def Pair)
qed

lemma GetMetricReplicas_no_panic:
  assumes "clients_ok c"
  shows "fst (run_state (GetMetricReplicas c cur t name ns sel) w) \<noteq> Inl (Panic p)"
proof (cases "run_state (GetRawMetric c name ns sel) w")
  case (Pair r w')
  show ?thesis
  proof (cases r)
    case (Inr v)
    then obtain m ts where v: "r = Inr (m, ts)" by (cases v) auto
    have "length m < 2 ^ 62" using clients_okD(2) [OF assms] Pair v by blast
    from calcPlainMetricReplicas_no_panic [OF assms this] show ?thesis
      using Pair v by (auto simp: GetMetricReplicas_def with_timestamp_Panic split: prod.splits) (metis fst_conv)
  qed (simp add: GetMetricReplicas_def Pair)
qed

lemma GetObjectMetricReplicas_no_panic:
  "fst (run_state (GetObjectMetricReplicas c cur t name ns ref) w) \<noteq> Inl (Panic p)"
  by (auto simp: GetObjectMetricReplicas_def Let_def split: prod.splits sum.splits)

lemma GetExternalMetricReplicas_no_panic:
  "fst (run_state (GetExternalMetricReplicas c cur t name ns sel) w) \<noteq> Inl (Panic p)"
  by (auto simp: GetExternalMetricReplicas_def Let_def split: prod.splits sum.splits)

lemma GetExternalPerPodMetricReplicas_no_panic:
  "fst (run_state (GetExternalPerPodMetricReplicas c cur t name ns sel) w) \<noteq> Inl (Panic p)"
  by (auto simp: GetExternalPerPodMetricReplicas_def Let_def split: prod.splits sum.splits)

section \<open>The order in which the maps are ranged over does not matter\<close>

definition same_map :: "pod_metrics \<Rightarrow> pod_metrics \<Rightarrow> bool" where
  "same_map m m' \<longleftrightarrow> wf_map m \<and> wf_map m' \<and> map_of m = map_of m'"

lemma same_map_mset: "same_map m m' \<Longrightarrow> mset m = mset m'"
  by (simp add: same_map_def wf_map_same_entries)

lemma same_map_length: "same_map m m' \<Longrightarrow> length m = length m'"
  using same_map_mset mset_eq_length by blast

lemma same_map_empty: "same_map m m' \<Longrightarrow> (m = []) = (m' = [])"
  using same_map_length by fastforce

lemma same_map_delete: "same_map m m' \<Longrightarrow> same_map (AList.delete k m) (AList.delete k m')"
  by (simp add: same_map_def map_of_AList_delete)

lemma same_map_set: "same_map m m' \<Longrightarrow> same_map (set_metrics ns f m) (set_metrics ns f m')"
  unfolding same_map_def by (blast intro: set_metrics_wf set_metrics_lookup_cong)

text \<open>Two groups that differ in the order of the metrics map only.\<close>

definition same_groups :: "pod_groups \<Rightarrow> pod_groups \<Rightarrow> bool" where
  "same_groups g h \<longleftrightarrow> same_map (pg_metrics g) (pg_metrics h) \<and> h = g\<lparr>pg_metrics := pg_metrics h\<rparr>"

lemma resource_pod_step_same:
  assumes "same_groups g h"
  shows "rel_sum (=) same_groups (resource_pod_step milli res ns pod g) (resource_pod_step milli res ns pod h)"
proof -
  obtain m where h: "h = g\<lparr>pg_metrics := m\<rparr>" and m: "same_map (pg_metrics g) m"
    using assms by (auto simp: same_groups_def)
  have l: "map_of m = map_of (pg_metrics g)" using m by (simp add: same_map_def)
  show ?thesis
    unfolding h using m same_map_delete [OF m]
    by (auto simp: resource_pod_step_def Let_def same_groups_def l split: sum.splits)
qed

lemma resource_pod_loop_same:
  "same_groups g h \<Longrightarrow>
   rel_sum (=) same_groups (resource_pod_loop milli res ns pods g) (resource_pod_loop milli res ns pods h)"
proof (induction pods arbitrary: g h)
  case (Cons pod pods)
  have "rel_sum (=) same_groups (resource_pod_step milli res ns pod g) (resource_pod_step milli res ns pod h)"
    using Cons.prems by (rule resource_pod_step_same)
  then show ?case by (cases rule: rel_sum.cases) (auto intro: Cons.IH)
qed simp

lemma resource_fill_same: "same_groups g h \<Longrightarrow> same_map (resource_fill g r b) (resource_fill h r b)"
  by (cases g; cases h) (auto simp: same_groups_def resource_fill_def Let_def same_map_set)

lemma resource_replicas_same:
  assumes "same_groups g h"
  shows "resource_replicas tol cur t g = resource_replicas tol cur t h"
proof -
  have eqs: "pg_requests h = pg_requests g" "pg_unreadyPods h = pg_unreadyPods g"
    "pg_missingPods h = pg_missingPods g" "pg_readyPodCount h = pg_readyPodCount g"
    and m: "same_map (pg_metrics g) (pg_metrics h)"
    using assms by (cases g; cases h; auto simp: same_groups_def)+
  have u: "GetResourceUtilizationRatio (pg_metrics h) rs t = GetResourceUtilizationRatio (pg_metrics g) rs t" for rs
    using same_map_mset [OF m] by (intro GetResourceUtilizationRatio_order) simp_all
  have f: "GetResourceUtilizationRatio (resource_fill h r b) rs t = GetResourceUtilizationRatio (resource_fill g r b) rs t"
    and l: "length (resource_fill h r b) = length (resource_fill g r b)" for rs r b
    using resource_fill_same [OF assms, of r b] same_map_mset [of "resource_fill g r b" "resource_fill h r b"]
      same_map_length [of "resource_fill g r b" "resource_fill h r b"]
    by (auto intro!: GetResourceUtilizationRatio_order)
  show ?thesis
    unfolding resource_replicas_def Let_def eqs u f l same_map_empty [OF m] ..
qed

lemma resource_calc_order_same:
  assumes "same_map m m'"
  shows "resource_calc tol milli cur t res ns items m = resource_calc tol milli cur t res ns items m'"
proof -
  have "same_groups (no_groups m) (no_groups m')" using assms by (simp add: same_groups_def no_groups_def)
  from resource_pod_loop_same [OF this, of milli res ns items] show ?thesis
    unfolding resource_calc_def by (cases rule: rel_sum.cases) (auto intro: resource_replicas_same)
qed

lemma plain_pod_loop_same:
  "same_groups g h \<Longrightarrow> same_groups (plain_pod_loop pods g) (plain_pod_loop pods h)"
proof (induction pods arbitrary: g h)
  case (Cons pod pods)
  obtain m where h: "h = g\<lparr>pg_metrics := m\<rparr>" and m: "same_map (pg_metrics g) m"
    using Cons.prems by (auto simp: same_groups_def)
  have l: "map_of m = map_of (pg_metrics g)" using m by (simp add: same_map_def)
  have "same_groups (plain_pod_step pod g) (plain_pod_step pod h)"
    unfolding h using m same_map_delete [OF m] by (auto simp: plain_pod_step_def same_groups_def l)
  then show ?case by (simp add: Cons.IH)
qed simp

lemma plain_replicas_same:
  assumes "same_groups g h"
  shows "plain_replicas tol cur t g = plain_replicas tol cur t h"
proof -
  have eqs: "pg_unreadyPods h = pg_unreadyPods g"
    "pg_missingPods h = pg_missingPods g" "pg_readyPodCount h = pg_readyPodCount g"
    and m: "same_map (pg_metrics g) (pg_metrics h)"
    using assms by (cases g; cases h; auto simp: same_groups_def)+
  have f: "same_map (plain_fill g t r b) (plain_fill h t r b)" for r b
    using m by (simp add: plain_fill_def Let_def eqs same_map_set)
  show ?thesis
    unfolding plain_replicas_def Let_def eqs same_map_length [OF f] same_map_empty [OF m]
      GetMetricUtilizationRatio_order [OF same_map_mset [OF m]] GetMetricUtilizationRatio_order [OF same_map_mset [OF f]] ..
qed

lemma plain_calc_order_same:
  assumes "same_map m m'"
  shows "plain_calc tol cur t64 items m = plain_calc tol cur t64 items m'"
proof -
  have "same_groups (no_groups m) (no_groups m')" using assms by (simp add: same_groups_def no_groups_def)
  from plain_replicas_same [OF plain_pod_loop_same [OF this]] show ?thesis
    by (simp add: plain_calc_def)
qed

section \<open>Properties\<close>

text \<open>C31. The proposals of resource metrics and of plain metrics do not depend on the order in which Go ranges over
  the metrics map: two well-formed lists with the same lookups give the same result, errors included.\<close>

theorem calculations_order_independent:
  assumes "wf_map m" "wf_map m'" "map_of m = map_of m'"
  shows "resource_calc tol milli cur t res ns items m = resource_calc tol milli cur t res ns items m' \<and>
     plain_calc tol cur t64 items m = plain_calc tol cur t64 items m'"
  using assms by (intro conjI resource_calc_order_same plain_calc_order_same) (simp_all add: same_map_def)

theorem calculations_order_independent_witness:
  "\<forall>items. resource_calc defaultTolerance (\<lambda>q. word_of_int \<lceil>1000 * q\<rceil>) 2 50 ''cpu'' ''prod'' items [(''a'', 1), (''b'', 2)] =
     resource_calc defaultTolerance (\<lambda>q. word_of_int \<lceil>1000 * q\<rceil>) 2 50 ''cpu'' ''prod'' items [(''b'', 2), (''a'', 1)] \<and>
     plain_calc defaultTolerance 2 10 items [(''a'', 1), (''b'', 2)] = plain_calc defaultTolerance 2 10 items [(''b'', 2), (''a'', 1)]"
  by (intro allI calculations_order_independent) (auto simp: wf_map_def)

text \<open>C30. With metric sources that return well-formed maps of a size a program can hold, none of the six calculations
  panics: no division by zero, whatever the metrics, the pods and the targets.\<close>

theorem calculations_never_panic:
  assumes "clients_ok c"
  shows "fst (run_state (GetResourceReplicas c cur t32 name ns sel) w) \<noteq> Inl (Panic p) \<and>
     fst (run_state (GetRawResourceReplicas c cur t name ns sel) w) \<noteq> Inl (Panic p) \<and>
     fst (run_state (GetMetricReplicas c cur t name ns sel) w) \<noteq> Inl (Panic p) \<and>
     fst (run_state (GetObjectMetricReplicas c cur t name ns ref) w) \<noteq> Inl (Panic p) \<and>
     fst (run_state (GetExternalMetricReplicas c cur t name ns lsel) w) \<noteq> Inl (Panic p) \<and>
     fst (run_state (GetExternalPerPodMetricReplicas c cur t name ns lsel) w) \<noteq> Inl (Panic p)"
  using assms by (simp add: GetResourceReplicas_no_panic GetRawResourceReplicas_no_panic GetMetricReplicas_no_panic
      GetObjectMetricReplicas_no_panic GetExternalMetricReplicas_no_panic GetExternalPerPodMetricReplicas_no_panic)

theorem calculations_never_panic_witness:
  "\<forall>p. fst (run_state (GetMetricReplicas
     \<lparr>GetResourceMetric = (\<lambda>_ _ _. State_Monad.return (Inl ''none'')), GetRawMetric = (\<lambda>_ _ _. State_Monad.return (Inr ([], 0))),
      GetObjectMetric = (\<lambda>_ _ _. State_Monad.return (Inl ''none'')), GetExternalMetric = (\<lambda>_ _ _. State_Monad.return (Inl ''none'')),
      ListPods = (\<lambda>_ _. State_Monad.return (Inr [])), LabelSelectorAsSelector = (\<lambda>_. Inr []), MilliValue = (\<lambda>q. word_of_int \<lceil>1000 * q\<rceil>),
      format_selector = (\<lambda>_. []), tolerance = defaultTolerance\<rparr> 3 0 ''rps'' ''prod'' ''app=web'') ()) \<noteq> Inl (Panic p)"
  by (intro allI calculations_never_panic [THEN conjunct2, THEN conjunct2, THEN conjunct1])
     (auto simp: clients_ok_def)

end
