(* ===== verification/ReplicaRatios.thy ===== *)
theory ReplicaRatios
  imports ReplicaFacts
begin

text \<open>
  The numbers behind a proposal: how the rounded ratio moves the replica count, where the
  conversion to \<open>int32\<close> overflows, and the direction theorems.
\<close>

section \<open>Ratios of integers\<close>

lemma rnd64_pow_bound:
  assumes "\<bar>q\<bar> \<le> 2 ^ k" shows "\<bar>rnd64 q\<bar> \<le> 2 ^ k"
proof -
  have e: "rnd64 (2 ^ k) = 2 ^ k" using rnd64_exact [of 1 "int k"] by simp
  have "rnd64 q \<le> 2 ^ k" using rnd64_mono [of q "2 ^ k"] assms unfolding e by linarith
  moreover have "- (2 ^ k) \<le> rnd64 q"
    using rnd64_mono [of "- (2 ^ k)" q] assms unfolding rnd64_uminus e by linarith
  ultimately show ?thesis by linarith
qed

lemma rnd64_int_abs_ge_1: "b \<noteq> 0 \<Longrightarrow> 1 \<le> \<bar>rnd64 (of_int b)\<bar>"
  using rnd64.ge_int [of 1 "of_int b"] rnd64.le_int [of "-1" "of_int b"] by (cases "0 < b") auto

lemma sint64_abs: "\<bar>sint (x :: int64)\<bar> \<le> 2 ^ 63" and sint32_abs: "\<bar>sint (y :: int32)\<bar> \<le> 2 ^ 31"
  using sint64_range [of x] sint32_range [of y] by auto

definition int_ratio :: "int \<Rightarrow> int \<Rightarrow> f64" where
  "int_ratio a b = f64_div (f64_of_int a) (f64_of_int b)"

lemma int_ratio_props:
  assumes "\<bar>a\<bar> \<le> 2 ^ 63" "\<bar>b\<bar> \<le> 2 ^ 63" "b \<noteq> 0"
  shows "f64_finite (int_ratio a b)" "\<bar>f64_val (int_ratio a b)\<bar> \<le> 2 ^ 63"
    "f64_val (int_ratio a b) = rnd64 (rnd64 (of_int a) / rnd64 (of_int b))"
proof -
  show v: "f64_val (int_ratio a b) = rnd64 (rnd64 (of_int a) / rnd64 (of_int b))"
    and "f64_finite (int_ratio a b)"
    unfolding int_ratio_def by (rule f64_int_quot [OF assms])+
  have "(of_int \<bar>a\<bar> :: rat) \<le> of_int (2 ^ 63)" using assms(1) by (simp only: of_int_le_iff)
  then have "\<bar>rnd64 (of_int a)\<bar> \<le> 2 ^ 63" by (intro rnd64_pow_bound) simp
  moreover have "\<bar>rnd64 (of_int a) / rnd64 (of_int b)\<bar> \<le> \<bar>rnd64 (of_int a)\<bar> / 1"
    unfolding abs_divide using rnd64_int_abs_ge_1 [OF assms(3)] by (intro divide_left_mono) auto
  ultimately have "\<bar>rnd64 (of_int a) / rnd64 (of_int b)\<bar> \<le> 2 ^ 63" by linarith
  then show "\<bar>f64_val (int_ratio a b)\<bar> \<le> 2 ^ 63" unfolding v by (rule rnd64_pow_bound)
qed

text \<open>A zero target gives an infinite or undefined ratio.\<close>

lemma int_ratio_zero_target:
  assumes "\<bar>a\<bar> \<le> 2 ^ 63"
  shows "\<not> f64_finite (int_ratio a 0)"
    "0 < a \<Longrightarrow> int_ratio a 0 = F_Inf False" "a < 0 \<Longrightarrow> int_ratio a 0 = F_Inf True" "int_ratio 0 0 = F_NaN"
proof -
  have n: "\<exists>q. f64_of_int a = F_Num q \<and> (0 < a \<longrightarrow> 0 < q) \<and> (a < 0 \<longrightarrow> q < 0)" if "a \<noteq> 0"
  proof -
    have "f64_finite (f64_of_int a)" "f64_val (f64_of_int a) = rnd64 (of_int a)"
      using f64_of_int_val [OF assms] by simp_all
    moreover have "1 \<le> rnd64 (of_int a)" if "0 < a" using rnd64.ge_int [of 1 "of_int a"] that by simp
    moreover have "rnd64 (of_int a) \<le> - 1" if "a < 0" using rnd64.le_int [of "-1" "of_int a"] that by simp
    ultimately show ?thesis using that by (cases "f64_of_int a") (auto simp: neq_iff)
  qed
  show "0 < a \<Longrightarrow> int_ratio a 0 = F_Inf False" "a < 0 \<Longrightarrow> int_ratio a 0 = F_Inf True" "int_ratio 0 0 = F_NaN"
    using n by (auto simp: int_ratio_def f64_div_def)
  then show "\<not> f64_finite (int_ratio a 0)" by (cases "a = 0"; cases "0 < a") auto
qed

section \<open>Scaled counts\<close>

lemma scaled_count_val:
  assumes "f64_finite r" "\<bar>f64_val r\<bar> \<le> 2 ^ 63" "0 \<le> n" "n \<le> 2 ^ 53"
  shows "f64_finite (f64_mul r (f64_of_int n))"
    "f64_val (f64_mul r (f64_of_int n)) = rnd64 (f64_val r * of_int n)"
proof -
  have n: "f64_finite (f64_of_int n)" "f64_val (f64_of_int n) = of_int n"
    using assms(3,4) by (simp_all add: f64_of_int_exact)
  have "(of_int n :: rat) \<le> of_int (2 ^ 53)" using assms(4) by (simp only: of_int_le_iff)
  then have "\<bar>f64_val r * of_int n\<bar> \<le> 2 ^ 63 * 2 ^ 53"
    unfolding abs_mult using assms(2,3) by (intro mult_mono) auto
  also have "\<dots> = 2 ^ 116" by simp
  also have "\<dots> \<le> huge" unfolding huge_def by (rule power_increasing) auto
  finally show "f64_finite (f64_mul r (f64_of_int n))"
    "f64_val (f64_mul r (f64_of_int n)) = rnd64 (f64_val r * of_int n)"
    using f64_mul_val [OF assms(1) n(1)] n(2) by simp_all
qed

text \<open>Either the rounded product fits, and the count is its ceiling, or the count is \<open>-2^31\<close>.\<close>

lemma scaled_count_cases:
  assumes "f64_finite r" "\<bar>f64_val r\<bar> \<le> 2 ^ 63" "0 \<le> n" "n \<le> 2 ^ 53"
  defines "c \<equiv> \<lceil>rnd64 (f64_val r * of_int n)\<rceil>"
  shows "sint (scaled_count r n) = (if - 2147483648 \<le> c \<and> c < 2147483648 then c else - 2147483648)"
  using sint_int32_of_Ceil [OF scaled_count_val(1) [OF assms(1-4)]]
    int32_of_Ceil_overflow [of "f64_mul r (f64_of_int n)"]
  unfolding scaled_count_val(2) [OF assms(1-4)] c_def scaled_count_def by (auto simp: not_le)

lemma scaled_count_up:
  assumes "f64_finite r" "\<bar>f64_val r\<bar> \<le> 2 ^ 63" "0 \<le> n" "n \<le> 2 ^ 53" "1 \<le> f64_val r"
  shows "sint (scaled_count r n) = - 2147483648 \<or> n \<le> sint (scaled_count r n)"
  using scaled_count_cases [OF assms(1-4)] rnd64.ceil_scale_up [OF assms(5,3,4)] by auto

lemma scaled_count_down:
  assumes "f64_finite r" "\<bar>f64_val r\<bar> \<le> 2 ^ 63" "0 \<le> n" "n \<le> 2 ^ 53" "f64_val r \<le> 1"
  shows "sint (scaled_count r n) \<le> n"
  using scaled_count_cases [OF assms(1-4)] rnd64.ceil_scale_down [OF assms(5,3,4)] assms(3) by auto

lemma scaled_count_nonneg:
  assumes "f64_finite r" "\<bar>f64_val r\<bar> \<le> 2 ^ 63" "0 \<le> n" "n \<le> 2 ^ 53" "0 \<le> f64_val r"
  shows "sint (scaled_count r n) = - 2147483648 \<or> 0 \<le> sint (scaled_count r n)"
proof -
  have "0 \<le> \<lceil>rnd64 (f64_val r * of_int n)\<rceil>"
    by (rule rnd64.ceil_ge) (use assms in auto)
  then show ?thesis using scaled_count_cases [OF assms(1-4)] by auto
qed

text \<open>An infinite or undefined ratio always gives \<open>-2^31\<close>.\<close>

lemma scaled_count_nonfinite: "\<not> f64_finite r \<Longrightarrow> sint (scaled_count r n) = - 2147483648"
proof -
  assume "\<not> f64_finite r"
  then have "\<not> f64_finite (f64_mul r (f64_of_int n))"
    by (cases r; cases "f64_of_int n") (auto simp: f64_mul_def)
  then show ?thesis unfolding scaled_count_def by (intro int32_of_Ceil_overflow) simp
qed

section \<open>Tolerance\<close>

lemma within_tolerance_one:
  assumes "f64_finite r" "f64_val r = 1" "f64_finite tol" "0 \<le> f64_val tol"
  shows "within_tolerance tol r"
proof -
  have s: "f64_val (f64_sub (f64_of_int 1) r) = 0" "f64_finite (f64_sub (f64_of_int 1) r)"
    using f64_sub_val [of "f64_of_int 1" r] assms by (simp_all add: f64_of_int_exact rnd64_def huge_def)
  then show ?thesis
    using assms(3,4) unfolding within_tolerance_def by (subst less_eq_f64_val) (simp_all add: f64_abs_val)
qed

lemma one_less: "f64_finite r \<Longrightarrow> (f64_of_int 1 < r) = (1 < f64_val r)"
  and less_one: "f64_finite r \<Longrightarrow> (r < f64_of_int 1) = (f64_val r < 1)"
  by (simp_all add: less_f64_val f64_of_int_exact)

section \<open>Direction\<close>

lemma resource_ratio_eq:
  "GetResourceUtilizationRatio m rs t = Inr (r, u, raw) \<Longrightarrow> r = int_ratio (sint u) (sint t)"
  by (auto simp: GetResourceUtilizationRatio_def Let_def int_ratio_def split: sum.splits prod.splits if_splits)

lemma metric_ratio_eq:
  "GetMetricUtilizationRatio m t = Inr (r, u) \<Longrightarrow> r = int_ratio (sint u) (sint t)"
  by (auto simp: GetMetricUtilizationRatio_def Let_def int_ratio_def split: sum.splits)

lemma sint_nonzero: "(x :: 'a::len word) \<noteq> 0 \<Longrightarrow> sint x \<noteq> 0"
  by (metis scast_eq scast_id word_of_int_0)

lemma ratio32_props:
  assumes "t \<noteq> 0" "r = int_ratio (sint (u :: int32)) (sint (t :: int32))"
  shows "f64_finite r" "\<bar>f64_val r\<bar> \<le> 2 ^ 63"
proof -
  have "\<bar>sint u\<bar> \<le> 2 ^ 63" "\<bar>sint t\<bar> \<le> 2 ^ 63" using sint32_abs [of u] sint32_abs [of t] by simp_all
  then show "f64_finite r" "\<bar>f64_val r\<bar> \<le> 2 ^ 63"
    unfolding assms(2) using int_ratio_props(1,2) sint_nonzero [OF assms(1)] by blast+
qed

lemma ratio64_props:
  assumes "t \<noteq> 0" "r = int_ratio (sint (u :: int64)) (sint (t :: int64))"
  shows "f64_finite r" "\<bar>f64_val r\<bar> \<le> 2 ^ 63"
  unfolding assms(2) using sint64_abs [of u] sint64_abs [of t] int_ratio_props(1,2) sint_nonzero [OF assms(1)]
  by blast+

text \<open>The number of pods a proposal is about: the ready ones, or those with a filled-in metric.\<close>

definition counted_pods :: "pod_groups \<Rightarrow> (f64 \<Rightarrow> bool \<Rightarrow> pod_metrics) \<Rightarrow> f64 \<Rightarrow> int" where
  "counted_pods g fill r =
    (let rebalanceUnready = (pg_unreadyPods g \<noteq> [] \<and> f64_of_int 1 < r)
     in if \<not> rebalanceUnready \<and> pg_missingPods g = [] then int (pg_readyPodCount g)
        else int (length (fill r rebalanceUnready)))"

text \<open>
  What both calculations promise about a count \<open>n\<close> proposed for a measured ratio \<open>r\<close>: above one
  it is at least the pods counted (unless the conversion overflowed), below one at most.
\<close>

definition follows_usage :: "int32 \<Rightarrow> f64 \<Rightarrow> int \<Rightarrow> int32 \<Rightarrow> bool" where
  "follows_usage cur r counted n \<longleftrightarrow>
     (1 < f64_val r \<longrightarrow> n = cur \<or> sint n = - 2147483648 \<or> counted \<le> sint n) \<and>
     (f64_val r < 1 \<longrightarrow> n = cur \<or> sint n \<le> counted)"

text \<open>The decision after the second utilisation never turns the direction around.\<close>

lemma rebalanced_follows:
  assumes r: "f64_finite r" "\<bar>f64_val r\<bar> \<le> 2 ^ 63" and r': "f64_finite r'" "\<bar>f64_val r'\<bar> \<le> 2 ^ 63"
    and c: "0 \<le> c" "c \<le> 2 ^ 53"
    and n: "n = (if within_tolerance tol r' \<or> (r < f64_of_int 1 \<and> f64_of_int 1 < r')
                  \<or> (f64_of_int 1 < r \<and> r' < f64_of_int 1) then cur else scaled_count r' c)"
  shows "follows_usage cur r c n"
  unfolding follows_usage_def n one_less [OF r(1)] less_one [OF r(1)] one_less [OF r'(1)] less_one [OF r'(1)]
  using scaled_count_up [OF r' c] scaled_count_down [OF r' c] by (auto simp: not_less)

lemma direct_follows:
  assumes r: "f64_finite r" "\<bar>f64_val r\<bar> \<le> 2 ^ 63" and c: "0 \<le> c" "c \<le> 2 ^ 53"
    and n: "n = (if within_tolerance tol r then cur else scaled_count r c)"
  shows "follows_usage cur r c n"
  unfolding follows_usage_def n using scaled_count_up [OF r c] scaled_count_down [OF r c] by auto

lemma resource_replicas_follows:
  assumes n: "resource_replicas tol cur t g = Inr (n, u, raw)"
    and r: "GetResourceUtilizationRatio (pg_metrics g) (pg_requests g) t = Inr (r, u', raw')"
    and t: "t \<noteq> 0" and size: "groups_size g \<le> 2 ^ 53"
  shows "follows_usage cur r (counted_pods g (resource_fill g) r) n"
proof -
  note rp = ratio32_props [OF t resource_ratio_eq [OF r]]
  define b where "b = (pg_unreadyPods g \<noteq> [] \<and> f64_of_int 1 < r)"
  have ne: "pg_metrics g \<noteq> []" using n by (auto simp: resource_replicas_def)
  show ?thesis
  proof (cases "\<not> b \<and> pg_missingPods g = []")
    case True
    have "n = (if within_tolerance tol r then cur else scaled_count r (int (pg_readyPodCount g)))"
      using n r ne True by (auto simp: resource_replicas_def b_def Let_def split: if_splits)
    moreover have "int (pg_readyPodCount g) \<le> 2 ^ 53" using size by (simp add: groups_size_def)
    ultimately have "follows_usage cur r (int (pg_readyPodCount g)) n"
      by (intro direct_follows [OF rp]) simp_all
    then show ?thesis using True by (simp add: counted_pods_def b_def)
  next
    case False
    define m where "m = resource_fill g r b"
    have "resource_replicas tol cur t g =
        (case GetResourceUtilizationRatio m (pg_requests g) t of Inl e \<Rightarrow> Inl e
         | Inr (r', u'', raw'') \<Rightarrow> if within_tolerance tol r' \<or> (r < f64_of_int 1 \<and> f64_of_int 1 < r')
              \<or> (f64_of_int 1 < r \<and> r' < f64_of_int 1) then Inr (cur, u', raw') else Inr (scaled_count r' (int (length m)), u', raw'))"
      unfolding resource_replicas_def r Let_def sum.case prod.case b_def [symmetric] m_def [symmetric]
        if_not_P [OF ne] if_not_P [OF False] ..
    then obtain r' u'' raw'' where r': "GetResourceUtilizationRatio m (pg_requests g) t = Inr (r', u'', raw'')"
      and n': "n = (if within_tolerance tol r' \<or> (r < f64_of_int 1 \<and> f64_of_int 1 < r')
                  \<or> (f64_of_int 1 < r \<and> r' < f64_of_int 1) then cur else scaled_count r' (int (length m)))"
      using n by (auto split: sum.splits prod.splits if_splits)
    have "int (length m) \<le> 2 ^ 53" using resource_fill_length [of g r b] size by (simp add: m_def)
    then have "follows_usage cur r (int (length m)) n"
      by (intro rebalanced_follows [OF rp ratio32_props [OF t resource_ratio_eq [OF r']] _ _ n']) simp_all
    then show ?thesis using False by (auto simp: counted_pods_def b_def m_def)
  qed
qed

lemma plain_replicas_follows:
  assumes n: "plain_replicas tol cur t g = Inr (n, u)"
    and r: "GetMetricUtilizationRatio (pg_metrics g) t = Inr (r, u')"
    and t: "t \<noteq> 0" and size: "groups_size g \<le> 2 ^ 53"
  shows "follows_usage cur r (counted_pods g (plain_fill g t) r) n"
proof -
  note rp = ratio64_props [OF t metric_ratio_eq [OF r]]
  define b where "b = (pg_unreadyPods g \<noteq> [] \<and> f64_of_int 1 < r)"
  have ne: "pg_metrics g \<noteq> []" using n by (auto simp: plain_replicas_def)
  show ?thesis
  proof (cases "\<not> b \<and> pg_missingPods g = []")
    case True
    have "n = (if within_tolerance tol r then cur else scaled_count r (int (pg_readyPodCount g)))"
      using n r ne True by (auto simp: plain_replicas_def b_def Let_def split: if_splits)
    moreover have "int (pg_readyPodCount g) \<le> 2 ^ 53" using size by (simp add: groups_size_def)
    ultimately have "follows_usage cur r (int (pg_readyPodCount g)) n"
      by (intro direct_follows [OF rp]) simp_all
    then show ?thesis using True by (simp add: counted_pods_def b_def)
  next
    case False
    define m where "m = plain_fill g t r b"
    have "plain_replicas tol cur t g =
        (case GetMetricUtilizationRatio m t of Inl e \<Rightarrow> Inl e
         | Inr (r', u'') \<Rightarrow> if within_tolerance tol r' \<or> (r < f64_of_int 1 \<and> f64_of_int 1 < r')
              \<or> (f64_of_int 1 < r \<and> r' < f64_of_int 1) then Inr (cur, u') else Inr (scaled_count r' (int (length m)), u'))"
      unfolding plain_replicas_def r Let_def sum.case prod.case b_def [symmetric] m_def [symmetric]
        if_not_P [OF ne] if_not_P [OF False] ..
    then obtain r' u'' where r': "GetMetricUtilizationRatio m t = Inr (r', u'')"
      and n': "n = (if within_tolerance tol r' \<or> (r < f64_of_int 1 \<and> f64_of_int 1 < r')
                  \<or> (f64_of_int 1 < r \<and> r' < f64_of_int 1) then cur else scaled_count r' (int (length m)))"
      using n by (auto split: sum.splits prod.splits if_splits)
    have "int (length m) \<le> 2 ^ 53" using plain_fill_length [of g t r b] size by (simp add: m_def)
    then have "follows_usage cur r (int (length m)) n"
      by (intro rebalanced_follows [OF rp ratio64_props [OF t metric_ratio_eq [OF r']] _ _ n']) simp_all
    then show ?thesis using False by (auto simp: counted_pods_def b_def m_def)
  qed
qed

section \<open>Properties\<close>

lemma sample_resource:
  fixes g :: pod_groups
  defines "g \<equiv> \<lparr>pg_metrics = [(''a'', 10), (''b'', 10)], pg_requests = [(''a'', 10), (''b'', 10)],
      pg_readyPodCount = 2, pg_unreadyPods = [], pg_missingPods = []\<rparr>"
  shows "GetResourceUtilizationRatio (pg_metrics g) (pg_requests g) 50 = Inr (F_Num 2, 100, 10)"
    "resource_replicas defaultTolerance 2 50 g = Inr (4, 100, 10)" "counted_pods g (resource_fill g) (F_Num 2) = 2"
proof -
  show ratio: "GetResourceUtilizationRatio (pg_metrics g) (pg_requests g) 50 = Inr (F_Num 2, 100, 10)"
    by (simp add: g_def GetResourceUtilizationRatio_def div64_def Let_def int32_of_int64_def f64_eval signed_divide_int_def)
  show "resource_replicas defaultTolerance 2 50 g = Inr (4, 100, 10)"
    using ratio by (simp add: g_def resource_replicas_def within_tolerance_def scaled_count_def f64_eval defaultTolerance_eq)
  show "counted_pods g (resource_fill g) (F_Num 2) = 2" by (simp add: g_def counted_pods_def)
qed

text \<open>C25. The proposals of resource and of plain metrics follow the usage: over the target they are the current count, or at
  least the number of pods counted, or the overflow value; under the target the current count or at most
  the number of pods counted.  Rebalancing for unready and missing pods never turns the direction
  around.\<close>

theorem rebalancing_follows_usage:
  assumes "groups_size g \<le> 2 ^ 53"
  shows "(resource_replicas tol cur t g = Inr (n, u, raw) \<and>
       GetResourceUtilizationRatio (pg_metrics g) (pg_requests g) t = Inr (r, u', raw') \<and> t \<noteq> 0 \<longrightarrow>
     (1 < f64_val r \<longrightarrow> n = cur \<or> sint n = - 2147483648 \<or> counted_pods g (resource_fill g) r \<le> sint n) \<and>
     (f64_val r < 1 \<longrightarrow> n = cur \<or> sint n \<le> counted_pods g (resource_fill g) r)) \<and>
    (plain_replicas tol cur v g = Inr (k, x) \<and> GetMetricUtilizationRatio (pg_metrics g) v = Inr (q, x') \<and> v \<noteq> 0 \<longrightarrow>
     (1 < f64_val q \<longrightarrow> k = cur \<or> sint k = - 2147483648 \<or> counted_pods g (plain_fill g v) q \<le> sint k) \<and>
     (f64_val q < 1 \<longrightarrow> k = cur \<or> sint k \<le> counted_pods g (plain_fill g v) q))"
  using resource_replicas_follows [of tol cur t g] plain_replicas_follows [of tol cur v g] assms
  by (simp add: follows_usage_def)

theorem rebalancing_follows_usage_witness:
  "\<exists>g. resource_replicas defaultTolerance 2 50 g = Inr (4, 100, 10) \<and> counted_pods g (resource_fill g) (F_Num 2) = 2 \<and>
     (2 :: int) \<le> sint (4 :: int32)"
proof -
  let ?g = "\<lparr>pg_metrics = [(''a'', 10), (''b'', 10)], pg_requests = [(''a'', 10), (''b'', 10)],
      pg_readyPodCount = 2, pg_unreadyPods = [], pg_missingPods = []\<rparr>"
  have "groups_size ?g \<le> 2 ^ 53" by (simp add: groups_size_def)
  from rebalancing_follows_usage [OF this, THEN conjunct1, of defaultTolerance 2 50 4 100 10 "F_Num 2" 100 10]
  show ?thesis using sample_resource by (intro exI [of _ ?g]) simp
qed

text \<open>C38. A target of zero is not caught: under any positive load an object metric then proposes \<open>-2^31\<close> replicas, the value of
  the conversion of an infinite ratio, which the normalisation turns into the minimum.\<close>

theorem object_metric_zero_target:
  assumes "run_state (GetObjectMetric c name ns ref) w = (Inr (load, ts), w')" "0 < sint load"
    "f64_finite (tolerance c)"
  shows "run_state (GetObjectMetricReplicas c cur 0 name ns ref) w = (Inr (- 2147483648, load, ts), w')"
proof -
  have r: "int_ratio (sint load) 0 = F_Inf False"
    using sint64_abs [of load] assms(2) by (intro int_ratio_zero_target(2)) simp_all
  have "scaled_count (F_Inf False) (sint cur) = - 2147483648"
    using scaled_count_nonfinite [of "F_Inf False" "sint cur"] by (simp add: sint_eq_iff)
  moreover have "\<not> within_tolerance (tolerance c) (F_Inf False)"
    using assms(3) by (cases "tolerance c") (simp_all add: within_tolerance_def f64_of_int_exact f64_sub_def
        less_eq_f64_def f64_le_def)
  ultimately show ?thesis
    using assms(1) r by (simp add: GetObjectMetricReplicas_def Let_def int_ratio_def)
qed

theorem object_metric_zero_target_witness:
  "run_state (GetObjectMetricReplicas
     \<lparr>GetResourceMetric = (\<lambda>_ _ _. State_Monad.return (Inl ''none'')), GetRawMetric = (\<lambda>_ _ _. State_Monad.return (Inl ''none'')),
      GetObjectMetric = (\<lambda>_ _ _. State_Monad.return (Inr (8000, 7))), GetExternalMetric = (\<lambda>_ _ _. State_Monad.return (Inl ''none'')),
      ListPods = (\<lambda>_ _. State_Monad.return (Inr [])), LabelSelectorAsSelector = (\<lambda>_. Inr []), MilliValue = (\<lambda>q. word_of_int \<lceil>1000 * q\<rceil>),
      format_selector = (\<lambda>_. []), tolerance = defaultTolerance\<rparr> 5 0 ''depth'' ''prod''
     \<lparr>ref_Kind = ''Service'', ref_Name = ''queue'', ref_APIVersion = ''v1''\<rparr>) () = (Inr (- 2147483648, 8000, 7), ())"
  by (rule object_metric_zero_target) (simp_all add: defaultTolerance_eq)

text \<open>A resource metric exactly at its target.\<close>

lemma resource_at_target_keeps_count:
  assumes "GetResourceUtilizationRatio (pg_metrics g) (pg_requests g) t = Inr (r, u, raw)"
    "f64_finite r" "f64_val r = 1" "pg_metrics g \<noteq> []" "f64_finite tol" "0 \<le> f64_val tol"
  shows "resource_replicas tol cur t g = Inr (cur, u, raw)"
proof -
  have "\<not> f64_of_int 1 < r" "\<not> r < f64_of_int 1" using assms(2,3) by (simp_all add: one_less less_one)
  moreover have "resource_fill g r False = pg_metrics g"
    using calculation by (simp add: resource_fill_def Let_def)
  moreover have "within_tolerance tol r" using assms by (intro within_tolerance_one)
  ultimately show ?thesis using assms(1,4) by (simp add: resource_replicas_def)
qed

end
