(* ===== verification/Scaling.thy ===== *)
theory Scaling
  imports ReplicaRatios
begin

text \<open>
  The pure decisions of chpa_controller.go: the limit on scaling up, the normalisation of the
  desired count against it and against the bounds of the specification, and the forbidden windows
  of \<open>shouldScale\<close>.

  The locale \<open>clamping\<close> is the contract of the normalisation that the reconcile loop uses: the
  result is the proposal cut off at a lower and an upper limit.
\<close>

section \<open>Limits\<close>

definition calculateScaleUpLimit :: "CHPA \<Rightarrow> int32 \<Rightarrow> int32" where
  "calculateScaleUpLimit chpa currentReplicas =
     int32_of_f64 (math_Max (f64_mul (ScaleUpLimitFactor (Spec chpa)) (f64_of_int (sint currentReplicas)))
                            (f64_of_int (sint (ScaleUpLimitMinimum (Spec chpa)))))"

definition convertDesiredReplicasWithRules ::
  "CHPA \<Rightarrow> int32 \<Rightarrow> int32 \<Rightarrow> int32 \<Rightarrow> int32 \<Rightarrow> int32 \<times> string \<times> string" where
  "convertDesiredReplicasWithRules chpa currentReplicas desiredReplicas hpaMinReplicas hpaMaxReplicas =
    (let (minimumAllowedReplicas, possibleLimitingReason) =
           (if hpaMinReplicas = 0 then (1, ''the desired replica count is zero'')
            else (hpaMinReplicas, ''the desired replica count is less than the minimum replica count''));
         scaleUpLimit = calculateScaleUpLimit chpa currentReplicas;
         (maximumAllowedReplicas, possibleLimitingCondition, possibleLimitingReason) =
           (if sint hpaMaxReplicas > sint scaleUpLimit
            then (scaleUpLimit, ''ScaleUpLimit'',
                  ''the desired replica count is increasing faster than the maximum scale rate'')
            else (hpaMaxReplicas, ''TooManyReplicas'',
                  ''the desired replica count is more than the maximum replica count''))
     in if sint desiredReplicas < sint minimumAllowedReplicas then
          (minimumAllowedReplicas, ''TooFewReplicas'', possibleLimitingReason)
        else if sint desiredReplicas > sint maximumAllowedReplicas then
          (maximumAllowedReplicas, possibleLimitingCondition, possibleLimitingReason)
        else (desiredReplicas, ''DesiredWithinRange'', ''the desired count is within the acceptable range''))"

section \<open>Time\<close>

text \<open>\<open>time.Duration(s) * time.Second\<close>, a 64-bit number of nanoseconds, and \<open>t.Add(d).Before(u)\<close>.\<close>

definition seconds :: "int32 \<Rightarrow> int64" where
  "seconds s = word_of_int (sint s) * 1000000000"

definition add_before :: "gotime \<Rightarrow> int64 \<Rightarrow> gotime \<Rightarrow> bool" where
  "add_before t d u \<longleftrightarrow> t + sint d < u"

definition getLastScaleTime :: "CHPA \<Rightarrow> gotime" where
  "getLastScaleTime chpa =
     (case LastScaleTime (Status chpa) of None \<Rightarrow> chpa_CreationTimestamp chpa | Some t \<Rightarrow> t)"

definition shouldScale :: "CHPA \<Rightarrow> int32 \<Rightarrow> int32 \<Rightarrow> gotime \<Rightarrow> bool" where
  "shouldScale chpa currentReplicas desiredReplicas timestamp =
    (if desiredReplicas = currentReplicas then False
     else case LastScaleTime (Status chpa) of
       None \<Rightarrow> True
     | Some lastScaleTime \<Rightarrow>
         (let downscaleForbiddenWindow = seconds (DownscaleForbiddenWindowSeconds (Spec chpa));
              upscaleForbiddenWindow = seconds (UpscaleForbiddenWindowSeconds (Spec chpa)) in
          if sint desiredReplicas < sint currentReplicas
             \<and> add_before lastScaleTime downscaleForbiddenWindow timestamp then True
          else if sint desiredReplicas > sint currentReplicas
             \<and> add_before lastScaleTime upscaleForbiddenWindow timestamp then True
          else False))"

section \<open>The windows do not overflow\<close>

lemma sint_seconds: "sint (seconds s) = sint s * 1000000000"
proof -
  have "sint (word_of_int (sint s) :: int64) = sint s"
    using sint32_range [of s] by (intro sint64_of_int) linarith+
  moreover have "sint (1000000000 :: int64) = 1000000000" by simp
  ultimately show ?thesis
    using sint32_range [of s] sint64_mult [of "word_of_int (sint s)" 1000000000] unfolding seconds_def by simp
qed

lemma add_before_seconds: "add_before t (seconds s) u \<longleftrightarrow> t + sint s * 1000000000 < u"
  by (simp add: add_before_def sint_seconds)

text \<open>
  The decision to scale: the count changes, and for the direction of the change the time since
  the last scale has passed the window of that direction.
\<close>

lemma shouldScale_cases:
  "shouldScale chpa cur des ts \<longleftrightarrow> des \<noteq> cur \<and>
     (case LastScaleTime (Status chpa) of None \<Rightarrow> True
      | Some t0 \<Rightarrow>
          t0 + sint (if sint des < sint cur then DownscaleForbiddenWindowSeconds (Spec chpa)
                       else UpscaleForbiddenWindowSeconds (Spec chpa)) * 1000000000 < ts)"
proof -
  have "sint des < sint cur \<or> sint cur < sint des" if "des \<noteq> cur"
    using that sint_eq_iff [of des cur] by linarith
  then show ?thesis
    by (cases "LastScaleTime (Status chpa)") (auto simp: shouldScale_def Let_def add_before_seconds)
qed

section \<open>The scale-up limit\<close>

lemma math_Max_val:
  "f64_finite x \<Longrightarrow> f64_finite y \<Longrightarrow>
   f64_val (math_Max x y) = max (f64_val x) (f64_val y) \<and> f64_finite (math_Max x y)"
  by (cases x; cases y) (auto simp: math_Max_def max_def)

text \<open>
  A factor the CRD validation admits is finite and small; the limit is then the truncation of
  the larger of the rounded product and the minimum.
\<close>

lemma calculateScaleUpLimit_val:
  assumes "f64_finite (ScaleUpLimitFactor (Spec chpa))" "\<bar>f64_val (ScaleUpLimitFactor (Spec chpa))\<bar> \<le> 2 ^ 63"
    "0 \<le> sint cur"
  defines "v \<equiv> max (rnd64 (f64_val (ScaleUpLimitFactor (Spec chpa)) * of_int (sint cur)))
                  (of_int (sint (ScaleUpLimitMinimum (Spec chpa))))"
  assumes "rat_trunc v < 2147483648"
  shows "sint (calculateScaleUpLimit chpa cur) = rat_trunc v"
proof -
  let ?m = "sint (ScaleUpLimitMinimum (Spec chpa))"
  have "sint cur \<le> 2 ^ 53" using sint32_range [of cur] by simp
  note p = scaled_count_val [OF assms(1-3) this]
  have m: "f64_finite (f64_of_int ?m)" "f64_val (f64_of_int ?m) = of_int ?m"
    by (simp_all add: f64_of_int32)
  have mx: "f64_val (math_Max (f64_mul (ScaleUpLimitFactor (Spec chpa)) (f64_of_int (sint cur))) (f64_of_int ?m)) = v"
    "f64_finite (math_Max (f64_mul (ScaleUpLimitFactor (Spec chpa)) (f64_of_int (sint cur))) (f64_of_int ?m))"
    using math_Max_val [OF p(1) m(1)] by (simp_all add: p(2) m(2) v_def)
  have "of_int ?m \<le> v" by (simp add: v_def)
  then have "?m \<le> rat_trunc v" by (auto simp: rat_trunc_def le_floor_iff le_ceiling_iff)
  then have "- 2147483648 \<le> rat_trunc v" using sint32_range [of "ScaleUpLimitMinimum (Spec chpa)"] by linarith
  then show ?thesis
    unfolding calculateScaleUpLimit_def using mx assms(5) by (subst sint_int32_of_f64) simp_all
qed

text \<open>With an integral factor (the default is 2) the limit is exact: \<open>max (k * cur) min\<close>.\<close>

lemma calculateScaleUpLimit_integral:
  assumes "ScaleUpLimitFactor (Spec chpa) = f64_of_int k" "0 \<le> k" "k \<le> 2 ^ 21" "0 \<le> sint cur"
    "k * sint cur < 2147483648"
  shows "sint (calculateScaleUpLimit chpa cur) = max (k * sint cur) (sint (ScaleUpLimitMinimum (Spec chpa)))"
proof -
  have f: "f64_finite (f64_of_int k)" "f64_val (f64_of_int k) = of_int k"
    using assms(2,3) by (simp_all add: f64_of_int_exact)
  have kc: "0 \<le> k * sint cur" using assms by simp
  then have e: "rnd64 (of_int k * of_int (sint cur)) = of_int (k * sint cur)"
    using rnd64_of_int [of "k * sint cur"] assms(5) by simp
  have mx: "max (of_int (k * sint cur)) (of_int (sint (ScaleUpLimitMinimum (Spec chpa))))
      = (of_int (max (k * sint cur) (sint (ScaleUpLimitMinimum (Spec chpa)))) :: rat)"
    by (simp only: of_int_max)
  have "(of_int k :: rat) \<le> of_int (2 ^ 21)" using assms(3) by (simp only: of_int_le_iff)
  then have "\<bar>of_int k :: rat\<bar> \<le> 2 ^ 63" using assms(2) by simp
  then show ?thesis
    using calculateScaleUpLimit_val [of chpa cur] assms f sint32_range [of "ScaleUpLimitMinimum (Spec chpa)"]
    by (simp add: e mx del: of_int_max of_int_mult)
qed

text \<open>A factor of at least one never puts the limit below the current count (but for overflow).\<close>

lemma calculateScaleUpLimit_ge:
  assumes "f64_finite (ScaleUpLimitFactor (Spec chpa))" "1 \<le> f64_val (ScaleUpLimitFactor (Spec chpa))"
    "f64_val (ScaleUpLimitFactor (Spec chpa)) * of_int (sint cur) \<le> 2147483647" "0 \<le> sint cur"
    "f64_val (ScaleUpLimitFactor (Spec chpa)) \<le> 2 ^ 63"
  shows "sint cur \<le> sint (calculateScaleUpLimit chpa cur)"
    "sint (ScaleUpLimitMinimum (Spec chpa)) \<le> sint (calculateScaleUpLimit chpa cur)"
proof -
  let ?p = "rnd64 (f64_val (ScaleUpLimitFactor (Spec chpa)) * of_int (sint cur))"
  let ?m = "sint (ScaleUpLimitMinimum (Spec chpa))"
  have c: "\<bar>sint cur\<bar> \<le> 2 ^ 53" using sint32_range [of cur] assms(4) by simp
  have lo: "of_int (sint cur) \<le> ?p"
    using assms(2,4) by (intro rnd64.ge_int c) (simp add: mult_le_cancel_right1)
  have hi: "?p \<le> of_int 2147483647" using assms(3) by (intro rnd64.le_int) simp_all
  have "?m \<le> 2147483647" using sint32_range [of "ScaleUpLimitMinimum (Spec chpa)"] by linarith
  then have hi': "max ?p (of_int ?m) \<le> of_int 2147483647" using hi by (simp only: max.bounded_iff of_int_le_iff)
  have v0: "0 \<le> max ?p (of_int ?m)" using lo assms(4) by (simp add: le_max_iff_disj)
  then have t: "rat_trunc (max ?p (of_int ?m)) = \<lfloor>max ?p (of_int ?m)\<rfloor>"
    unfolding rat_trunc_def not_less [symmetric] by (simp only: if_False)
  have "rat_trunc (max ?p (of_int ?m)) < 2147483648" unfolding t using hi' by linarith
  then have "sint (calculateScaleUpLimit chpa cur) = \<lfloor>max ?p (of_int ?m)\<rfloor>"
    using calculateScaleUpLimit_val [OF assms(1) _ assms(4)] assms(2,5) t by simp
  then show "sint cur \<le> sint (calculateScaleUpLimit chpa cur)" "?m \<le> sint (calculateScaleUpLimit chpa cur)"
    using lo by (simp_all add: le_floor_iff le_max_iff_disj)
qed

section \<open>Normalisation\<close>

text \<open>The lower and the upper limit the code works out.\<close>

definition min_allowed :: "int32 \<Rightarrow> int" where
  "min_allowed hpaMinReplicas = (if hpaMinReplicas = 0 then 1 else sint hpaMinReplicas)"

definition max_allowed :: "CHPA \<Rightarrow> int32 \<Rightarrow> int32 \<Rightarrow> int" where
  "max_allowed chpa currentReplicas hpaMaxReplicas =
     min (sint hpaMaxReplicas) (sint (calculateScaleUpLimit chpa currentReplicas))"

text \<open>Cutting a proposal off at two limits: the lower limit wins where they cross.\<close>

locale clamping =
  fixes lo hi :: int and f :: "int32 \<Rightarrow> int32"
  assumes cut: "sint (f d) = (if sint d < lo then lo else if hi < sint d then hi else sint d)"
begin

lemma ge_lo: "lo \<le> hi \<Longrightarrow> lo \<le> sint (f d)"
  by (simp add: cut)

lemma le_hi: "lo \<le> hi \<Longrightarrow> sint (f d) \<le> hi"
  by (simp add: cut)

lemma le_max: "sint (f d) \<le> max lo hi"
  by (simp add: cut)

lemma ge_min: "min lo hi \<le> sint (f d)"
  by (simp add: cut)

lemma max_min: "lo \<le> hi \<Longrightarrow> sint (f d) = max lo (min hi (sint d))"
  by (simp add: cut)

lemma fixed: "lo \<le> sint d \<Longrightarrow> sint d \<le> hi \<Longrightarrow> f d = d"
  by (simp add: cut sint_eq_iff [of "f d" d])

lemma idem: "lo \<le> hi \<Longrightarrow> f (f d) = f d"
  by (rule fixed) (simp_all add: ge_lo le_hi)

lemma mono: "lo \<le> hi \<Longrightarrow> sint d \<le> sint e \<Longrightarrow> sint (f d) \<le> sint (f e)"
  by (simp add: max_min)

lemma raises: "lo \<le> c \<Longrightarrow> c < sint (f d) \<Longrightarrow> c < sint d \<and> sint (f d) \<le> hi"
  by (auto simp: cut split: if_splits)

end

interpretation limits: clamping "min_allowed mn" "max_allowed chpa cur mx"
  "\<lambda>d. fst (convertDesiredReplicasWithRules chpa cur d mn mx)" for chpa cur mn mx
  by unfold_locales
     (simp add: convertDesiredReplicasWithRules_def min_allowed_def max_allowed_def Let_def)

text \<open>Which condition the normalisation reports.\<close>

lemma convert_condition:
  "fst (snd (convertDesiredReplicasWithRules chpa cur d mn mx)) =
     (if sint d < min_allowed mn then ''TooFewReplicas''
      else if max_allowed chpa cur mx < sint d then
        (if sint (calculateScaleUpLimit chpa cur) < sint mx then ''ScaleUpLimit'' else ''TooManyReplicas'')
      else ''DesiredWithinRange'')"
  by (simp add: convertDesiredReplicasWithRules_def min_allowed_def max_allowed_def Let_def)

text \<open>
  The reason of a count below the minimum is always the one of the upper limit: the reasons chosen
  for the minimum are overwritten before they can be returned.
\<close>

lemma convert_too_few_reason:
  "sint d < min_allowed mn \<Longrightarrow>
   snd (snd (convertDesiredReplicasWithRules chpa cur d mn mx)) =
     (if sint (calculateScaleUpLimit chpa cur) < sint mx
      then ''the desired replica count is increasing faster than the maximum scale rate''
      else ''the desired replica count is more than the maximum replica count'')"
  by (cases "mn = 0") (simp_all add: convertDesiredReplicasWithRules_def min_allowed_def Let_def)

section \<open>Properties\<close>

text \<open>C27. The normalised count is the proposal cut off at two limits: below at the minimum (one, where none is set), above
  at the smaller of the maximum and the limit on scaling up; the condition names the limit that acted.
  Normalising twice changes nothing.  The reason given with \<open>TooFewReplicas\<close> is never one of the two the code chooses
  for it: both are overwritten by the reason of the upper limit before they can be returned.\<close>

theorem convertDesiredReplicas_clamps:
  assumes "min_allowed mn \<le> max_allowed chpa cur mx"
  shows "sint (fst (convertDesiredReplicasWithRules chpa cur d mn mx)) =
       max (if mn = 0 then 1 else sint mn) (min (min (sint mx) (sint (calculateScaleUpLimit chpa cur))) (sint d)) \<and>
     fst (snd (convertDesiredReplicasWithRules chpa cur d mn mx)) =
       (if sint d < min_allowed mn then ''TooFewReplicas''
        else if max_allowed chpa cur mx < sint d then
          (if sint (calculateScaleUpLimit chpa cur) < sint mx then ''ScaleUpLimit'' else ''TooManyReplicas'')
        else ''DesiredWithinRange'') \<and>
     (sint d < min_allowed mn \<longrightarrow> snd (snd (convertDesiredReplicasWithRules chpa cur d mn mx)) =
       (if sint (calculateScaleUpLimit chpa cur) < sint mx
        then ''the desired replica count is increasing faster than the maximum scale rate''
        else ''the desired replica count is more than the maximum replica count'')) \<and>
     fst (convertDesiredReplicasWithRules chpa cur (fst (convertDesiredReplicasWithRules chpa cur d mn mx)) mn mx) =
       fst (convertDesiredReplicasWithRules chpa cur d mn mx)"
  using limits.max_min [OF assms] limits.idem [OF assms] convert_condition convert_too_few_reason
  by (simp add: min_allowed_def max_allowed_def)

theorem convertDesiredReplicas_clamps_witness:
  "\<exists>chpa. sint (fst (convertDesiredReplicasWithRules chpa 3 9 2 10)) = 6 \<and>
     fst (snd (convertDesiredReplicasWithRules chpa 3 9 2 10)) = ''ScaleUpLimit''"
proof -
  let ?c = "\<lparr>chpa_Namespace = [], chpa_Name = [], chpa_UID = [], chpa_CreationTimestamp = 0,
    Spec = \<lparr>DownscaleForbiddenWindowSeconds = 300, UpscaleForbiddenWindowSeconds = 300, ScaleUpLimitFactor = f64_of_int 2,
      ScaleUpLimitMinimum = 4, Tolerance = F_Zero False, ScaleTargetRef = \<lparr>ref_Kind = [], ref_Name = [], ref_APIVersion = []\<rparr>,
      Metrics = [], MinReplicas = Some 2, MaxReplicas = 10\<rparr>,
    Status = \<lparr>ObservedGeneration = None, LastScaleTime = None, CurrentReplicas = 0, DesiredReplicas = 0,
      CurrentMetrics = [], Conditions = []\<rparr>\<rparr>"
  have l: "sint (calculateScaleUpLimit ?c 3) = 6"
    by (simp add: calculateScaleUpLimit_def f64_eval)
  show ?thesis
    using convertDesiredReplicas_clamps [of 2 ?c 3 10 9] by (intro exI [of _ ?c]) (simp add: l min_allowed_def max_allowed_def)
qed

text \<open>With an integral factor (the default is two) the limit on scaling up is exactly the larger of the factor times the
  current count and the minimum of the limit, as long as the product is an \<open>int32\<close>.\<close>

lemma calculateScaleUpLimit_exact:
  assumes "ScaleUpLimitFactor (Spec chpa) = f64_of_int k" "0 \<le> k" "k \<le> 2 ^ 21" "0 \<le> sint cur"
    "k * sint cur < 2147483648"
  shows "sint (calculateScaleUpLimit chpa cur) = max (k * sint cur) (sint (ScaleUpLimitMinimum (Spec chpa)))"
  by (rule calculateScaleUpLimit_integral [OF assms])

lemma calculateScaleUpLimit_exact_witness:
  "\<exists>chpa. ScaleUpLimitFactor (Spec chpa) = f64_of_int 2 \<and> sint (calculateScaleUpLimit chpa 7) = 14"
proof -
  let ?c = "\<lparr>chpa_Namespace = [], chpa_Name = [], chpa_UID = [], chpa_CreationTimestamp = 0,
    Spec = \<lparr>DownscaleForbiddenWindowSeconds = 300, UpscaleForbiddenWindowSeconds = 300, ScaleUpLimitFactor = f64_of_int 2,
      ScaleUpLimitMinimum = 4, Tolerance = F_Zero False, ScaleTargetRef = \<lparr>ref_Kind = [], ref_Name = [], ref_APIVersion = []\<rparr>,
      Metrics = [], MinReplicas = Some 2, MaxReplicas = 10\<rparr>,
    Status = \<lparr>ObservedGeneration = None, LastScaleTime = None, CurrentReplicas = 0, DesiredReplicas = 0,
      CurrentMetrics = [], Conditions = []\<rparr>\<rparr>"
  show ?thesis using calculateScaleUpLimit_exact [of ?c 2 7] by (intro exI [of _ ?c]) simp
qed

end
