(* ===== verification/OwnerRef.thy ===== *)
theory OwnerRef
  imports ChpaTypes
begin

text \<open>
  \<open>controllerutil.SetControllerReference\<close> (vendored
  sigs.k8s.io/controller-runtime/pkg/controller/controllerutil/controllerutil.go), by which the
  controller makes the CHPA the controlling owner of its Deployment.  The lookup of the
  group-version-kind of the CHPA in the scheme is a parameter.

  Proved: a success leaves exactly the owners there were plus the CHPA, with the CHPA the only
  controller; a failure is the presence of another controller and changes nothing; a second call
  changes nothing.
\<close>

record GroupVersionKind =
  gvk_Group :: string
  gvk_Version :: string
  gvk_Kind :: string

definition slash :: char where "slash = CHR ''/''"

definition gv_string :: "GroupVersionKind \<Rightarrow> string" where
  "gv_string gvk = (if gvk_Group gvk \<noteq> [] then gvk_Group gvk @ [slash] @ gvk_Version gvk else gvk_Version gvk)"

definition ParseGroupVersion :: "string \<Rightarrow> (string \<times> string) option" where
  "ParseGroupVersion gv =
    (if gv = [] \<or> gv = [slash] then Some ([], [])
     else if count_list gv slash = 0 then Some ([], gv)
     else if count_list gv slash = 1 then
       Some (takeWhile (\<lambda>c. c \<noteq> slash) gv, tl (dropWhile (\<lambda>c. c \<noteq> slash) gv))
     else None)"

definition referSameObject :: "OwnerReference \<Rightarrow> OwnerReference \<Rightarrow> bool" where
  "referSameObject a b =
    (case ParseGroupVersion (or_APIVersion a) of
       None \<Rightarrow> False
     | Some aGV \<Rightarrow>
         (case ParseGroupVersion (or_APIVersion b) of
            None \<Rightarrow> False
          | Some bGV \<Rightarrow> aGV = bGV \<and> or_Kind a = or_Kind b \<and> or_Name a = or_Name b))"

definition NewControllerRef :: "CHPA \<Rightarrow> GroupVersionKind \<Rightarrow> OwnerReference" where
  "NewControllerRef owner gvk =
     \<lparr>or_APIVersion = gv_string gvk, or_Kind = gvk_Kind gvk, or_Name = chpa_Name owner,
      or_UID = chpa_UID owner, or_Controller = Some True, or_BlockOwnerDeletion = Some True\<rparr>"

text \<open>
  The loop over the existing references: the index of the last one that is the same object, or
  the first other one that is a controller.
\<close>

fun find_owner ::
  "OwnerReference \<Rightarrow> OwnerReference list \<Rightarrow> nat \<Rightarrow> nat option \<Rightarrow> OwnerReference + nat option" where
  "find_owner ref [] i fi = Inr fi"
| "find_owner ref (r # existingRefs) i fi =
     (if referSameObject ref r then find_owner ref existingRefs (Suc i) (Some i)
      else if or_Controller r = Some True then Inl r
      else find_owner ref existingRefs (Suc i) fi)"

definition SetControllerReference ::
  "(CHPA \<Rightarrow> string + GroupVersionKind) \<Rightarrow> CHPA \<Rightarrow> Deployment \<Rightarrow> string + Deployment" where
  "SetControllerReference GVKForObject owner object =
    (case GVKForObject owner of
       Inl err \<Rightarrow> Inl err
     | Inr gvk \<Rightarrow>
         (let ref = NewControllerRef owner gvk;
              existingRefs = dep_OwnerReferences object
          in case find_owner ref existingRefs 0 None of
               Inl r \<Rightarrow> Inl (''Object '' @ dep_Namespace object @ ''/'' @ dep_Name object
                            @ '' is already owned by another '' @ or_Kind r @ '' controller '' @ or_Name r)
             | Inr None \<Rightarrow> Inr (object\<lparr>dep_OwnerReferences := existingRefs @ [ref]\<rparr>)
             | Inr (Some fi) \<Rightarrow> Inr (object\<lparr>dep_OwnerReferences := existingRefs[fi := ref]\<rparr>)))"

section \<open>What a successful call leaves\<close>

definition other_controller :: "OwnerReference \<Rightarrow> OwnerReference \<Rightarrow> bool" where
  "other_controller ref r \<longleftrightarrow> \<not> referSameObject ref r \<and> or_Controller r = Some True"

lemma find_owner_Inl: "find_owner ref rs i fi = Inl r \<Longrightarrow> r \<in> set rs \<and> other_controller ref r"
  by (induction rs arbitrary: i fi) (auto simp: other_controller_def split: if_splits)

lemma find_owner_Inr_iff: "(\<exists>j. find_owner ref rs i fi = Inr j) \<longleftrightarrow> (\<forall>r\<in>set rs. \<not> other_controller ref r)"
  by (induction rs arbitrary: i fi) (auto simp: other_controller_def)

lemma find_owner_index:
  "find_owner ref rs i fi = Inr j \<Longrightarrow>
   (j = fi \<and> (\<forall>r\<in>set rs. \<not> referSameObject ref r)) \<or>
   (\<exists>k. j = Some (i + k) \<and> k < length rs \<and> referSameObject ref (rs ! k))"
proof (induction rs arbitrary: i fi)
  case (Cons r rs)
  show ?case
  proof (cases "referSameObject ref r")
    case True
    with Cons.prems have "find_owner ref rs (Suc i) (Some i) = Inr j" by simp
    from Cons.IH [OF this] show ?thesis using True
      by (auto intro: exI [of _ 0])
  next
    case False
    with Cons.prems have "find_owner ref rs (Suc i) fi = Inr j" by (auto split: if_splits)
    from Cons.IH [OF this] show ?thesis using False
      by auto
  qed
qed simp

lemma ParseGroupVersion_gv_string:
  assumes "slash \<notin> set (gvk_Group gvk)" "slash \<notin> set (gvk_Version gvk)"
  shows "ParseGroupVersion (gv_string gvk) = Some (gvk_Group gvk, gvk_Version gvk)"
proof -
  have t: "takeWhile (\<lambda>c. c \<noteq> slash) (g @ slash # v) = g" "dropWhile (\<lambda>c. c \<noteq> slash) (g @ slash # v) = slash # v"
    if "slash \<notin> set g" for g v
    using that by (induction g) auto
  show ?thesis
    using assms t by (auto simp: ParseGroupVersion_def gv_string_def count_notin Cons_eq_append_conv
        append_eq_Cons_conv count_list_0_iff)
qed

lemma referSameObject_refl: "ParseGroupVersion (or_APIVersion r) \<noteq> None \<Longrightarrow> referSameObject r r"
  by (auto simp: referSameObject_def)

text \<open>The index depends only on which references are the same object.\<close>

lemma find_owner_cong:
  "\<forall>r\<in>set rs. \<not> other_controller ref r \<Longrightarrow> \<forall>r\<in>set rs'. \<not> other_controller ref r \<Longrightarrow>
   map (referSameObject ref) rs = map (referSameObject ref) rs' \<Longrightarrow>
   find_owner ref rs i fi = find_owner ref rs' i fi"
proof (induction rs arbitrary: rs' i fi)
  case (Cons r rs)
  then obtain r' ts where "rs' = r' # ts" by (cases rs') auto
  with Cons show ?case by (auto simp: other_controller_def)
qed simp

lemma find_owner_append:
  "\<forall>r\<in>set rs. \<not> other_controller ref r \<Longrightarrow> referSameObject ref r' \<Longrightarrow>
   find_owner ref (rs @ [r']) i fi = Inr (Some (i + length rs))"
  by (induction rs arbitrary: i fi) (auto simp: other_controller_def)

definition controlled_by :: "OwnerReference \<Rightarrow> OwnerReference list \<Rightarrow> OwnerReference list \<Rightarrow> bool" where
  "controlled_by ref refs refs' \<longleftrightarrow>
     ref \<in> set refs' \<and>
     (\<forall>r\<in>set refs. \<not> referSameObject ref r \<longrightarrow> r \<in> set refs') \<and>
     (\<forall>r\<in>set refs'. r = ref \<or> r \<in> set refs) \<and>
     (\<forall>r\<in>set refs'. or_Controller r = Some True \<longrightarrow> referSameObject ref r)"

text \<open>The result of a successful call, and of the same call once more.\<close>

lemma SetControllerReference_success:
  assumes g: "gvkf owner = Inr gvk" and ref: "ref = NewControllerRef owner gvk" "referSameObject ref ref"
    and ok: "SetControllerReference gvkf owner d = Inr d'"
  shows "controlled_by ref (dep_OwnerReferences d) (dep_OwnerReferences d')"
    and "d'\<lparr>dep_OwnerReferences := dep_OwnerReferences d\<rparr> = d"
    and "SetControllerReference gvkf owner d' = Inr d'"
proof -
  let ?rs = "dep_OwnerReferences d"
  obtain j where j: "find_owner ref ?rs 0 None = Inr j"
    using ok by (auto simp: SetControllerReference_def Let_def g ref(1) split: sum.splits)
  then have no: "\<forall>r\<in>set ?rs. \<not> other_controller ref r" using find_owner_Inr_iff by blast
  have no_ref: "\<not> other_controller ref ref" using ref(2) by (simp add: other_controller_def)
  have "controlled_by ref ?rs (dep_OwnerReferences d') \<and> d'\<lparr>dep_OwnerReferences := ?rs\<rparr> = d
        \<and> SetControllerReference gvkf owner d' = Inr d'"
  proof (cases j)
    case None
    then have d': "d' = d\<lparr>dep_OwnerReferences := ?rs @ [ref]\<rparr>"
      using ok j by (simp add: SetControllerReference_def g flip: ref(1))
    have "find_owner ref (?rs @ [ref]) 0 None = Inr (Some (length ?rs))"
      using find_owner_append [OF no ref(2)] by simp
    then have "SetControllerReference gvkf owner d' = Inr d'"
      by (simp add: SetControllerReference_def g d' flip: ref(1))
    moreover have "controlled_by ref ?rs (?rs @ [ref])"
      unfolding controlled_by_def using no no_ref by (auto simp: other_controller_def)
    ultimately show ?thesis by (simp add: d')
  next
    case (Some k)
    then have d': "d' = d\<lparr>dep_OwnerReferences := ?rs[k := ref]\<rparr>"
      using ok j by (simp add: SetControllerReference_def g flip: ref(1))
    have k: "k < length ?rs" "referSameObject ref (?rs ! k)"
      using find_owner_index [OF j] Some by auto
    have set': "set (?rs[k := ref]) \<subseteq> insert ref (set ?rs)" by (rule set_update_subset_insert)
    have no': "\<forall>r\<in>set (?rs[k := ref]). \<not> other_controller ref r" using set' no no_ref by auto
    have "map (referSameObject ref) (?rs[k := ref]) = map (referSameObject ref) ?rs"
      using k ref(2) by (simp add: map_update list_update_same_conv)
    then have "find_owner ref (?rs[k := ref]) 0 None = Inr (Some k)"
      using find_owner_cong [OF no' no] j Some by simp
    then have "SetControllerReference gvkf owner d' = Inr d'"
      by (simp add: SetControllerReference_def g d' flip: ref(1))
    moreover have "controlled_by ref ?rs (?rs[k := ref])"
    proof -
      have "ref \<in> set (?rs[k := ref])" using k(1) by (rule set_update_memI)
      moreover have "r \<in> set (?rs[k := ref])" if "r \<in> set ?rs" "\<not> referSameObject ref r" for r
        using that k by (metis in_set_conv_nth length_list_update nth_list_update_neq)
      ultimately show ?thesis
        unfolding controlled_by_def using set' no' by (auto simp: other_controller_def)
    qed
    ultimately show ?thesis by (simp add: d')
  qed
  then show "controlled_by ref ?rs (dep_OwnerReferences d')" "d'\<lparr>dep_OwnerReferences := ?rs\<rparr> = d"
    "SetControllerReference gvkf owner d' = Inr d'" by simp_all
qed

lemma SetControllerReference_failure:
  assumes "gvkf owner = Inr gvk"
  shows "(\<exists>e. SetControllerReference gvkf owner d = Inl e) \<longleftrightarrow>
         (\<exists>r\<in>set (dep_OwnerReferences d). other_controller (NewControllerRef owner gvk) r)"
proof -
  have "(\<exists>e. SetControllerReference gvkf owner d = Inl e) \<longleftrightarrow>
        \<not> (\<exists>j. find_owner (NewControllerRef owner gvk) (dep_OwnerReferences d) 0 None = Inr j)"
    using assms by (auto simp: SetControllerReference_def Let_def split: sum.splits option.splits)
  then show ?thesis by (simp add: find_owner_Inr_iff)
qed

text \<open>A Deployment with one owner, a controller or not, and the CHPA that is to control it.\<close>

definition sample_gvk :: GroupVersionKind where
  "sample_gvk = \<lparr>gvk_Group = ''autoscalers.postmates.com'', gvk_Version = ''v1beta1'', gvk_Kind = ''CHPA''\<rparr>"

definition sample_owned :: "bool \<Rightarrow> Deployment" where
  "sample_owned b = \<lparr>dep_Namespace = ''prod'', dep_Name = ''web'',
     dep_OwnerReferences = [\<lparr>or_APIVersion = ''v1'', or_Kind = ''App'', or_Name = ''shop'', or_UID = ''7'',
                             or_Controller = Some b, or_BlockOwnerDeletion = None\<rparr>],
     dep_Spec_Replicas = Some 3, dep_Spec_Selector = None, dep_Status_Replicas = 3\<rparr>"

lemma sample_other: "\<forall>r\<in>set (dep_OwnerReferences (sample_owned b)). \<not> referSameObject (NewControllerRef owner sample_gvk) r"
  by (simp add: sample_owned_def referSameObject_def NewControllerRef_def sample_gvk_def ParseGroupVersion_def
      gv_string_def slash_def)

section \<open>Properties\<close>

text \<open>C35. The call fails exactly when another object already controls the Deployment.  When it succeeds, only the
  owners change; the reference of the CHPA is among them, every owner that is another object stays, nothing
  else is added, no other owner is a controller, and a second call changes nothing.\<close>

theorem SetControllerReference_correct:
  assumes "gvkf owner = Inr gvk" "slash \<notin> set (gvk_Group gvk)" "slash \<notin> set (gvk_Version gvk)"
  shows "case SetControllerReference gvkf owner d of
     Inl e \<Rightarrow> \<exists>r\<in>set (dep_OwnerReferences d). \<not> referSameObject (NewControllerRef owner gvk) r \<and> or_Controller r = Some True
   | Inr d' \<Rightarrow>
       (\<forall>r\<in>set (dep_OwnerReferences d). or_Controller r = Some True \<longrightarrow> referSameObject (NewControllerRef owner gvk) r) \<and>
       d'\<lparr>dep_OwnerReferences := dep_OwnerReferences d\<rparr> = d \<and>
       NewControllerRef owner gvk \<in> set (dep_OwnerReferences d') \<and>
       (\<forall>r\<in>set (dep_OwnerReferences d). \<not> referSameObject (NewControllerRef owner gvk) r \<longrightarrow> r \<in> set (dep_OwnerReferences d')) \<and>
       (\<forall>r\<in>set (dep_OwnerReferences d'). r = NewControllerRef owner gvk \<or> r \<in> set (dep_OwnerReferences d)) \<and>
       (\<forall>r\<in>set (dep_OwnerReferences d'). or_Controller r = Some True \<longrightarrow> referSameObject (NewControllerRef owner gvk) r) \<and>
       SetControllerReference gvkf owner d' = Inr d'"
proof -
  note fail = SetControllerReference_failure [of gvkf owner gvk d, OF assms(1)]
  have "referSameObject (NewControllerRef owner gvk) (NewControllerRef owner gvk)"
    by (rule referSameObject_refl) (simp add: NewControllerRef_def ParseGroupVersion_gv_string [OF assms(2,3)])
  note s = SetControllerReference_success [of gvkf owner gvk, OF assms(1) refl this]
  show ?thesis
  proof (cases "SetControllerReference gvkf owner d")
    case (Inl e)
    then show ?thesis using fail by (simp add: other_controller_def)
  next
    case (Inr d')
    then show ?thesis using fail s [OF Inr] by (auto simp: controlled_by_def other_controller_def)
  qed
qed

theorem SetControllerReference_correct_witness:
  "(\<forall>owner. \<exists>e. SetControllerReference (\<lambda>_. Inr sample_gvk) owner (sample_owned True) = Inl e) \<and>
   (\<exists>owner d'. SetControllerReference (\<lambda>_. Inr sample_gvk) owner (sample_owned False) = Inr d' \<and>
     NewControllerRef owner sample_gvk \<in> set (dep_OwnerReferences d') \<and>
     SetControllerReference (\<lambda>_. Inr sample_gvk) owner d' = Inr d')"
proof -
  have ok: "slash \<notin> set (gvk_Group sample_gvk)" "slash \<notin> set (gvk_Version sample_gvk)"
    by (simp_all add: sample_gvk_def slash_def)
  have c: "case SetControllerReference (\<lambda>_. Inr sample_gvk) owner d of
       Inl e \<Rightarrow> \<exists>r\<in>set (dep_OwnerReferences d). \<not> referSameObject (NewControllerRef owner sample_gvk) r \<and> or_Controller r = Some True
     | Inr d' \<Rightarrow>
         (\<forall>r\<in>set (dep_OwnerReferences d). or_Controller r = Some True \<longrightarrow> referSameObject (NewControllerRef owner sample_gvk) r) \<and>
         NewControllerRef owner sample_gvk \<in> set (dep_OwnerReferences d') \<and>
         SetControllerReference (\<lambda>_. Inr sample_gvk) owner d' = Inr d'" for owner d
    using SetControllerReference_correct [of "\<lambda>_. Inr sample_gvk" owner, OF refl ok, of d] by (simp split: sum.splits)
  have "\<exists>e. SetControllerReference (\<lambda>_. Inr sample_gvk) owner (sample_owned True) = Inl e" for owner
    using c [where owner = owner and d = "sample_owned True"] sample_other [of True owner]
    by (auto simp: sample_owned_def split: sum.splits)
  moreover fix owner
  obtain d' where d': "SetControllerReference (\<lambda>_. Inr sample_gvk) owner (sample_owned False) = Inr d'"
    using sample_other [of False owner] by (simp add: SetControllerReference_def Let_def sample_owned_def)
  have "NewControllerRef owner sample_gvk \<in> set (dep_OwnerReferences d') \<and> SetControllerReference (\<lambda>_. Inr sample_gvk) owner d' = Inr d'"
    using c [where owner = owner and d = "sample_owned False"] by (simp add: d')
  ultimately show ?thesis using d' by blast
qed

end
