(* ===== verification/Controller.thy ===== *)
theory Controller
  imports ChpaSpec ConditionList Scaling OwnerRef
begin

text \<open>
  The reconciler of pkg/controller/chpa/chpa_controller.go.

  \<open>env\<close> is the \<open>ReconcileCHPA\<close> struct: the replica calculator, the sync period, and what lies
  outside the program (clock, API server, scheme, the formatting of opaque values) as programs
  over a world \<open>'w\<close>.  \<open>ctx\<close> is what the methods mutate: the CHPA and the Deployment held in
  memory, and the world; every write and every event is also appended to \<open>c_actions\<close>, in order.

  \<open>update_deployment\<close> returns, beside the error, the contents after the call of the integer that
  the Deployment's replicas field points to: the code makes it point to its local variable
  \<open>desiredReplicas\<close>, which the client may overwrite when it decodes the server's answer.
\<close>

datatype action =
    Event string string string
  | UpdateDeployment Deployment
  | UpdateCHPA CHPA

datatype api_error = NotFound string | OtherError string

record 'w env =
  replicaCalc :: "'w ReplicaCalculator"
  syncPeriod :: int64
  time_now :: "('w, gotime) state"
  get_chpa :: "string \<Rightarrow> string \<Rightarrow> ('w, api_error + CHPA) state"
  get_deployment :: "string \<Rightarrow> string \<Rightarrow> ('w, api_error + Deployment) state"
  update_deployment :: "Deployment \<Rightarrow> ('w, string option \<times> int32) state"
  update_chpa :: "CHPA \<Rightarrow> ('w, string option \<times> CHPA) state"
  GVKForObject :: "CHPA \<Rightarrow> string + GroupVersionKind"
  sprintf0 :: "string \<Rightarrow> string"
  quote_verb :: "string \<Rightarrow> string"

record 'w ctx =
  c_chpa :: CHPA
  c_deploy :: Deployment
  c_actions :: "action list"
  c_ext :: 'w

section \<open>Primitive steps\<close>

definition on_ext :: "('w, 'a) state \<Rightarrow> ('w ctx, 'a) state" where
  "on_ext m = State (\<lambda>c. let (a, w) = run_state m (c_ext c) in (a, c\<lparr>c_ext := w\<rparr>))"

definition act :: "action \<Rightarrow> ('w ctx, unit) state" where
  "act a = State_Monad.update (\<lambda>c. c\<lparr>c_actions := c_actions c @ [a]\<rparr>)"

definition record_event :: "string \<Rightarrow> string \<Rightarrow> string \<Rightarrow> ('w ctx, unit) state" where
  "record_event eventtype reason message = act (Event eventtype reason message)"

definition modify_status :: "(CHPAStatus \<Rightarrow> CHPAStatus) \<Rightarrow> ('w ctx, unit) state" where
  "modify_status f = State_Monad.update (\<lambda>c. c\<lparr>c_chpa := (c_chpa c)\<lparr>Status := f (Status (c_chpa c))\<rparr>\<rparr>)"

definition set_deploy_replicas :: "int32 \<Rightarrow> ('w ctx, unit) state" where
  "set_deploy_replicas n = State_Monad.update (\<lambda>c. c\<lparr>c_deploy := (c_deploy c)\<lparr>dep_Spec_Replicas := Some n\<rparr>\<rparr>)"

definition setCondition :: "'w env \<Rightarrow> string \<Rightarrow> string \<Rightarrow> string \<Rightarrow> string \<Rightarrow> ('w ctx, unit) state" where
  "setCondition env conditionType status reason message = do {
     c \<leftarrow> State_Monad.get;
     cs \<leftarrow> setConditionInList (on_ext (time_now env)) (Conditions (Status (c_chpa c)))
            conditionType status reason message;
     modify_status (\<lambda>s. s\<lparr>Conditions := cs\<rparr>)
   }"

section \<open>Writing the status\<close>

definition updateCHPA :: "'w env \<Rightarrow> ('w ctx, string option) state" where
  "updateCHPA env = do {
     c \<leftarrow> State_Monad.get;
     act (UpdateCHPA (c_chpa c));
     (err, chpa) \<leftarrow> on_ext (update_chpa env (c_chpa c));
     State_Monad.update (\<lambda>c. c\<lparr>c_chpa := chpa\<rparr>);
     State_Monad.return err
   }"

definition updateStatusIfNeeded :: "'w env \<Rightarrow> CHPAStatus \<Rightarrow> ('w ctx, string option) state" where
  "updateStatusIfNeeded env oldStatus = do {
     c \<leftarrow> State_Monad.get;
     (if status_DeepEqual oldStatus (Status (c_chpa c)) then State_Monad.return None
      else updateCHPA env)
   }"

definition setStatus ::
  "'w env \<Rightarrow> int32 \<Rightarrow> int32 \<Rightarrow> MetricStatus list \<Rightarrow> bool \<Rightarrow> ('w ctx, unit) state" where
  "setStatus env currentReplicas desiredReplicas metricStatuses rescale = do {
     modify_status (\<lambda>s. \<lparr>ObservedGeneration = None, LastScaleTime = LastScaleTime s,
       CurrentReplicas = currentReplicas, DesiredReplicas = desiredReplicas,
       CurrentMetrics = metricStatuses, Conditions = Conditions s\<rparr>);
     (if rescale then do {
        now \<leftarrow> on_ext (time_now env);
        modify_status (\<lambda>s. s\<lparr>LastScaleTime := Some now\<rparr>)
      } else State_Monad.return ())
   }"

definition setCurrentReplicasInStatus :: "'w env \<Rightarrow> int32 \<Rightarrow> ('w ctx, unit) state" where
  "setCurrentReplicasInStatus env currentReplicas = do {
     c \<leftarrow> State_Monad.get;
     setStatus env currentReplicas (DesiredReplicas (Status (c_chpa c)))
       (CurrentMetrics (Status (c_chpa c))) False
   }"

section \<open>Normalisation of the desired count\<close>

definition normalizeDesiredReplicas :: "'w env \<Rightarrow> int32 \<Rightarrow> int32 \<Rightarrow> ('w ctx, int32) state" where
  "normalizeDesiredReplicas env currentReplicas prenormalizedDesiredReplicas = do {
     c \<leftarrow> State_Monad.get;
     let minReplicas = (case MinReplicas (Spec (c_chpa c)) of Some m \<Rightarrow> m | None \<Rightarrow> 0);
     let (desiredReplicas, condition, reason) =
       convertDesiredReplicasWithRules (c_chpa c) currentReplicas prenormalizedDesiredReplicas
         minReplicas (MaxReplicas (Spec (c_chpa c)));
     (if desiredReplicas = prenormalizedDesiredReplicas
      then setCondition env ''ScalingLimited'' ''False'' condition reason
      else setCondition env ''ScalingLimited'' ''True'' condition reason);
     State_Monad.return desiredReplicas
   }"

section \<open>The count the metrics ask for\<close>

text \<open>What one metric contributes: the count, its timestamp, its name, its status.\<close>

type_synonym proposal = "int32 \<times> gotime \<times> string \<times> MetricStatus"

definition nil_dereference :: fault where
  "nil_dereference = Panic ''runtime error: invalid memory address or nil pointer dereference''"

definition fail_metric :: "'w env \<Rightarrow> string \<Rightarrow> string \<Rightarrow> string \<Rightarrow> string \<Rightarrow> ('w ctx, fault + 'a) state" where
  "fail_metric env reason event shown text = do {
     record_event ''Warning'' reason event;
     setCondition env ''ScalingActive'' ''False'' reason
       (''the HPA was unable to compute the replica count: '' @ shown);
     State_Monad.return (Inl (Err text))
   }"

text \<open>A calculation's error is reported and wrapped; a panic goes straight through.\<close>

definition with_proposal ::
  "'w env \<Rightarrow> string \<Rightarrow> string \<Rightarrow> fault + 'r \<Rightarrow> ('r \<Rightarrow> proposal) \<Rightarrow> ('w ctx, fault + proposal) state" where
  "with_proposal env reason text r f =
    (case r of
       Inr v \<Rightarrow> State_Monad.return (Inr (f v))
     | Inl (Panic p) \<Rightarrow> State_Monad.return (Inl (Panic p))
     | Inl (Err err) \<Rightarrow> fail_metric env reason err err (text @ err))"

definition object_proposal ::
  "'w env \<Rightarrow> string \<Rightarrow> int32 \<Rightarrow> ObjectMetricSource \<Rightarrow> ('w ctx, fault + proposal) state" where
  "object_proposal env namespace currentReplicas src = do {
     r \<leftarrow> on_ext (GetObjectMetricReplicas (replicaCalc env) currentReplicas
            (MilliValue (replicaCalc env) (oms_TargetValue src)) (oms_MetricName src) namespace (oms_Target src));
     with_proposal env ''FailedGetObjectMetric'' ''failed to get object metric value: '' r
       (\<lambda>(replicaCount, utilization, timestamp).
          (replicaCount, timestamp, ref_Kind (oms_Target src) @ '' metric '' @ oms_MetricName src,
           zero_MetricStatus\<lparr>mt_Type := ''Object'',
             mt_Object := Some \<lparr>omt_Target = oms_Target src, omt_MetricName = oms_MetricName src,
                                omt_CurrentValue = NewMilliQuantity utilization\<rparr>\<rparr>))
   }"

definition pods_proposal ::
  "'w env \<Rightarrow> string \<Rightarrow> selector \<Rightarrow> int32 \<Rightarrow> PodsMetricSource \<Rightarrow> ('w ctx, fault + proposal) state" where
  "pods_proposal env namespace sel currentReplicas src = do {
     r \<leftarrow> on_ext (GetMetricReplicas (replicaCalc env) currentReplicas
            (MilliValue (replicaCalc env) (pms_TargetAverageValue src)) (pms_MetricName src) namespace sel);
     with_proposal env ''FailedGetPodsMetric'' ''failed to get pods metric value: '' r
       (\<lambda>(replicaCount, utilization, timestamp).
          (replicaCount, timestamp, ''pods metric '' @ pms_MetricName src,
           zero_MetricStatus\<lparr>mt_Type := ''Pods'',
             mt_Pods := Some \<lparr>pmt_MetricName = pms_MetricName src,
                              pmt_CurrentAverageValue = NewMilliQuantity utilization\<rparr>\<rparr>))
   }"

definition resource_proposal ::
  "'w env \<Rightarrow> string \<Rightarrow> selector \<Rightarrow> int32 \<Rightarrow> ResourceMetricSource \<Rightarrow> ('w ctx, fault + proposal) state" where
  "resource_proposal env namespace sel currentReplicas src =
    (case rms_TargetAverageValue src of
       Some target \<Rightarrow> do {
         r \<leftarrow> on_ext (GetRawResourceReplicas (replicaCalc env) currentReplicas
                (MilliValue (replicaCalc env) target) (rms_Name src) namespace sel);
         with_proposal env ''FailedGetResourceMetric'' (''failed to get '' @ rms_Name src @ '' utilization: '') r
           (\<lambda>(replicaCount, raw, timestamp).
              (replicaCount, timestamp, rms_Name src @ '' resource'',
               zero_MetricStatus\<lparr>mt_Type := ''Resource'',
                 mt_Resource := Some \<lparr>rmt_Name = rms_Name src, rmt_CurrentAverageUtilization = None,
                                      rmt_CurrentAverageValue = NewMilliQuantity raw\<rparr>\<rparr>))
       }
     | None \<Rightarrow>
         (case rms_TargetAverageUtilization src of
            None \<Rightarrow>
              (let errMsg = ''invalid resource metric source: neither a utilization target nor a value target was set''
               in fail_metric env ''FailedGetResourceMetric'' errMsg errMsg errMsg)
          | Some targetUtilization \<Rightarrow> do {
              r \<leftarrow> on_ext (GetResourceReplicas (replicaCalc env) currentReplicas targetUtilization
                     (rms_Name src) namespace sel);
              with_proposal env ''FailedGetResourceMetric'' (''failed to get '' @ rms_Name src @ '' utilization: '') r
                (\<lambda>(replicaCount, percentage, raw, timestamp).
                   (replicaCount, timestamp, rms_Name src @ '' resource utilization (percentage of request)'',
                    zero_MetricStatus\<lparr>mt_Type := ''Resource'',
                      mt_Resource := Some \<lparr>rmt_Name = rms_Name src,
                                           rmt_CurrentAverageUtilization = Some percentage,
                                           rmt_CurrentAverageValue = NewMilliQuantity raw\<rparr>\<rparr>))
            }))"

text \<open>In the last branch the message shows the variable \<open>err\<close>, which is nil there.\<close>

definition external_proposal ::
  "'w env \<Rightarrow> string \<Rightarrow> int32 \<Rightarrow> ExternalMetricSource \<Rightarrow> ('w ctx, fault + proposal) state" where
  "external_proposal env namespace currentReplicas src =
    (let name = ''external metric '' @ ems_MetricName src @ ''(''
                @ format_selector (replicaCalc env) (ems_MetricSelector src) @ '')'' in
     case ems_TargetAverageValue src of
       Some target \<Rightarrow> do {
         r \<leftarrow> on_ext (GetExternalPerPodMetricReplicas (replicaCalc env) currentReplicas
                (MilliValue (replicaCalc env) target) (ems_MetricName src) namespace (ems_MetricSelector src));
         with_proposal env ''FailedGetExternalMetric'' (''failed to get '' @ ems_MetricName src @ '' external metric: '') r
           (\<lambda>(replicaCount, utilization, timestamp).
              (replicaCount, timestamp, name,
               zero_MetricStatus\<lparr>mt_Type := ''External'',
                 mt_External := Some \<lparr>emt_MetricName = ems_MetricName src, emt_MetricSelector = ems_MetricSelector src,
                                      emt_CurrentValue = 0,
                                      emt_CurrentAverageValue = Some (NewMilliQuantity utilization)\<rparr>\<rparr>))
       }
     | None \<Rightarrow>
         (case ems_TargetValue src of
            Some target \<Rightarrow> do {
              r \<leftarrow> on_ext (GetExternalMetricReplicas (replicaCalc env) currentReplicas
                     (MilliValue (replicaCalc env) target) (ems_MetricName src) namespace (ems_MetricSelector src));
              with_proposal env ''FailedGetExternalMetric'' (''failed to get external metric '' @ ems_MetricName src @ '': '') r
                (\<lambda>(replicaCount, utilization, timestamp).
                   (replicaCount, timestamp, name,
                    zero_MetricStatus\<lparr>mt_Type := ''External'',
                      mt_External := Some \<lparr>emt_MetricName = ems_MetricName src, emt_MetricSelector = ems_MetricSelector src,
                                           emt_CurrentValue = NewMilliQuantity utilization,
                                           emt_CurrentAverageValue = None\<rparr>\<rparr>))
            }
          | None \<Rightarrow>
              (let errMsg = ''invalid external metric source: neither a value target nor an average value target was set''
               in fail_metric env ''FailedGetExternalMetric'' errMsg ''<nil>'' errMsg)))"

definition metric_proposal ::
  "'w env \<Rightarrow> string \<Rightarrow> selector \<Rightarrow> int32 \<Rightarrow> MetricSpec \<Rightarrow> ('w ctx, fault + proposal) state" where
  "metric_proposal env namespace sel currentReplicas metricSpec =
    (if ms_Type metricSpec = ''Object'' then
       (case ms_Object metricSpec of
          None \<Rightarrow> State_Monad.return (Inl nil_dereference)
        | Some src \<Rightarrow> object_proposal env namespace currentReplicas src)
     else if ms_Type metricSpec = ''Pods'' then
       (case ms_Pods metricSpec of
          None \<Rightarrow> State_Monad.return (Inl nil_dereference)
        | Some src \<Rightarrow> pods_proposal env namespace sel currentReplicas src)
     else if ms_Type metricSpec = ''Resource'' then
       (case ms_Resource metricSpec of
          None \<Rightarrow> State_Monad.return (Inl nil_dereference)
        | Some src \<Rightarrow> resource_proposal env namespace sel currentReplicas src)
     else if ms_Type metricSpec = ''External'' then
       (case ms_External metricSpec of
          None \<Rightarrow> State_Monad.return (Inl nil_dereference)
        | Some src \<Rightarrow> external_proposal env namespace currentReplicas src)
     else
       (let errMsg = ''unknown metric source type '' @ quote_verb env (ms_Type metricSpec)
        in fail_metric env ''InvalidMetricSourceType'' errMsg errMsg (sprintf0 env errMsg)))"

text \<open>The selector of the Deployment, converted anew for every metric.\<close>

definition deployment_selector :: "'w env \<Rightarrow> ('w ctx, fault + selector) state" where
  "deployment_selector env = do {
     c \<leftarrow> State_Monad.get;
     (case dep_Spec_Selector (c_deploy c) of
        None \<Rightarrow> do {
          record_event ''Warning'' ''SelectorRequired'' ''selector is required'';
          setCondition env ''ScalingActive'' ''False'' ''InvalidSelector''
            (''the CHPA target'' @ apos @ ''s deploy is missing a selector'');
          State_Monad.return (Inl (Err ''selector is required''))
        }
      | Some _ \<Rightarrow>
          (case LabelSelectorAsSelector (replicaCalc env) (dep_Spec_Selector (c_deploy c)) of
             Inl err \<Rightarrow>
               (let errMsg = ''couldn'' @ apos @ ''t convert selector into a corresponding internal selector object: '' @ err
                in do {
                  record_event ''Warning'' ''InvalidSelector'' errMsg;
                  setCondition env ''ScalingActive'' ''False'' ''InvalidSelector'' (sprintf0 env errMsg);
                  State_Monad.return (Inl (Err (sprintf0 env errMsg)))
                })
           | Inr sel \<Rightarrow> State_Monad.return (Inr sel)))
   }"

text \<open>The named results of the loop.\<close>

record metric_results =
  mr_replicas :: int32
  mr_metric :: string
  mr_statuses :: "MetricStatus list"
  mr_timestamp :: gotime

definition take_proposal :: "nat \<Rightarrow> proposal \<Rightarrow> metric_results \<Rightarrow> metric_results" where
  "take_proposal i p m =
    (case p of (replicaCountProposal, timestampProposal, metricNameProposal, status) \<Rightarrow>
      (let m' = m\<lparr>mr_statuses := (mr_statuses m)[i := status]\<rparr> in
       if mr_replicas m' = 0 \<or> sint replicaCountProposal > sint (mr_replicas m')
       then m'\<lparr>mr_timestamp := timestampProposal, mr_replicas := replicaCountProposal,
              mr_metric := metricNameProposal\<rparr>
       else m'))"

fun compute_loop ::
  "'w env \<Rightarrow> int32 \<Rightarrow> nat \<Rightarrow> MetricSpec list \<Rightarrow> metric_results \<Rightarrow> ('w ctx, fault + metric_results) state" where
  "compute_loop env currentReplicas i [] m = State_Monad.return (Inr m)"
| "compute_loop env currentReplicas i (metricSpec # metricSpecs) m = do {
     s \<leftarrow> deployment_selector env;
     (case s of
        Inl e \<Rightarrow> State_Monad.return (Inl e)
      | Inr sel \<Rightarrow> do {
          c \<leftarrow> State_Monad.get;
          r \<leftarrow> metric_proposal env (chpa_Namespace (c_chpa c)) sel currentReplicas metricSpec;
          (case r of
             Inl e \<Rightarrow> State_Monad.return (Inl e)
           | Inr p \<Rightarrow> compute_loop env currentReplicas (Suc i) metricSpecs (take_proposal i p m))
        })
   }"

definition computeReplicasForMetrics ::
  "'w env \<Rightarrow> MetricSpec list \<Rightarrow> ('w ctx, fault + metric_results) state" where
  "computeReplicasForMetrics env metricSpecs = do {
     c \<leftarrow> State_Monad.get;
     r \<leftarrow> compute_loop env (dep_Status_Replicas (c_deploy c)) 0 metricSpecs
            \<lparr>mr_replicas = 0, mr_metric = [],
             mr_statuses = replicate (length metricSpecs) zero_MetricStatus, mr_timestamp = 0\<rparr>;
     (case r of
        Inl e \<Rightarrow> State_Monad.return (Inl e)
      | Inr m \<Rightarrow> do {
          setCondition env ''ScalingActive'' ''True'' ''ValidMetricFound''
            (''the HPA was able to successfully calculate a replica count from '' @ mr_metric m);
          State_Monad.return (Inr m)
        })
   }"

end
