(* ===== verification/Reconcile.thy ===== *)
theory Reconcile
  imports Controller
begin

text \<open>
  \<open>Reconcile\<close> and \<open>reconcileCHPA\<close> of pkg/controller/chpa/chpa_controller.go, on the state and with
  the steps of the theory Controller.

  \<open>reconcileCHPA\<close> is cut where the code has its phases: \<open>metrics_decision\<close> is the branch that asks
  the metrics, \<open>decide\<close> the whole chain of conditions, \<open>apply_decision\<close> the rescale and the final
  status.  A \<open>None\<close> is a \<open>return nil\<close> on the way.  \<open>reconcile_body\<close> is the function without its
  deferred \<open>recover\<close>, which \<open>reconcileCHPA\<close> adds.
\<close>

section \<open>Deciding on a count\<close>

text \<open>The local variables the decision leaves for the rescale.\<close>

record decision =
  d_desiredReplicas :: int32
  d_rescaleReason :: string
  d_metricStatuses :: "MetricStatus list"
  d_rescale :: bool

definition failed_update_replicas :: "'w env \<Rightarrow> string \<Rightarrow> ('w ctx, unit) state" where
  "failed_update_replicas env err = do {
     record_event ''Warning'' ''FailedUpdateReplicas'' err;
     setCondition env ''AbleToScale'' ''False'' ''FailedUpdateReplicas''
       (''the CHPA controller was unable to update the number of replicas: '' @ err)
   }"

definition backoff_conditions :: "'w env \<Rightarrow> gotime \<Rightarrow> ('w ctx, unit) state" where
  "backoff_conditions env timestamp = do {
     c \<leftarrow> State_Monad.get;
     (backoffDown, backoffUp) \<leftarrow>
       (case LastScaleTime (Status (c_chpa c)) of
          None \<Rightarrow> State_Monad.return (False, False)
        | Some lastScaleTime \<Rightarrow> do {
            let backoffDown = (\<not> add_before lastScaleTime
                  (seconds (DownscaleForbiddenWindowSeconds (Spec (c_chpa c)))) timestamp);
            (if backoffDown
             then setCondition env ''AbleToScale'' ''False'' ''BackoffDownscale''
                    ''the time since the previous scale is still within the downscale forbidden window''
             else State_Monad.return ());
            let backoffUp = (\<not> add_before lastScaleTime
                  (seconds (UpscaleForbiddenWindowSeconds (Spec (c_chpa c)))) timestamp);
            (if backoffUp
             then (if backoffDown
                   then setCondition env ''AbleToScale'' ''False'' ''BackoffBoth''
                          ''the time since the previous scale is still within both the downscale and upscale forbidden windows''
                   else setCondition env ''AbleToScale'' ''False'' ''BackoffUpscale''
                          ''the time since the previous scale is still within the upscale forbidden window'')
             else State_Monad.return ());
            State_Monad.return (backoffDown, backoffUp)
          });
     (if \<not> backoffDown \<and> \<not> backoffUp
      then setCondition env ''AbleToScale'' ''True'' ''ReadyForNewScale''
             ''the last scale time was sufficiently old as to warrant a new scale''
      else State_Monad.return ())
   }"

text \<open>Of a positive metric count its timestamp and name are kept; otherwise the count is 0, as of \<open>now\<close>.\<close>

definition metric_desire :: "gotime \<Rightarrow> metric_results \<Rightarrow> int32 \<times> gotime \<times> string" where
  "metric_desire now m =
    (if sint (mr_replicas m) > 0 then (mr_replicas m, mr_timestamp m, mr_metric m) else (0, now, []))"

definition rescale_reason :: "string \<Rightarrow> int32 \<Rightarrow> int32 \<Rightarrow> string" where
  "rescale_reason rescaleMetric currentReplicas desiredReplicas =
    (let rescaleReason = (if sint desiredReplicas > sint currentReplicas then rescaleMetric @ '' above target'' else [])
     in if sint desiredReplicas < sint currentReplicas then ''All metrics below target'' else rescaleReason)"

definition metrics_decision ::
  "'w env \<Rightarrow> CHPAStatus \<Rightarrow> int32 \<Rightarrow> gotime \<Rightarrow> ('w ctx, fault + decision option) state" where
  "metrics_decision env chpaStatusOriginal currentReplicas now = do {
     c \<leftarrow> State_Monad.get;
     r \<leftarrow> computeReplicasForMetrics env (Metrics (Spec (c_chpa c)));
     (case r of
        Inl (Panic p) \<Rightarrow> State_Monad.return (Inl (Panic p))
      | Inl (Err computeErr) \<Rightarrow> do {
          setCurrentReplicasInStatus env currentReplicas;
          u \<leftarrow> updateStatusIfNeeded env chpaStatusOriginal;
          (case u of
             Some err \<Rightarrow> failed_update_replicas env err
           | None \<Rightarrow> record_event ''Warning'' ''FailedComputeMetricsReplicas'' computeErr);
          State_Monad.return (Inr None)
        }
      | Inr m \<Rightarrow> do {
          let (desired, timestamp, rescaleMetric) = metric_desire now m;
          desiredReplicas \<leftarrow> normalizeDesiredReplicas env currentReplicas desired;
          c \<leftarrow> State_Monad.get;
          let rescale = shouldScale (c_chpa c) currentReplicas desiredReplicas timestamp;
          backoff_conditions env timestamp;
          State_Monad.return (Inr (Some
            \<lparr>d_desiredReplicas = desiredReplicas, d_rescaleReason = rescale_reason rescaleMetric currentReplicas desired,
             d_metricStatuses = mr_statuses m, d_rescale = rescale\<rparr>))
        })
   }"

definition decide ::
  "'w env \<Rightarrow> CHPAStatus \<Rightarrow> int32 \<Rightarrow> gotime \<Rightarrow> ('w ctx, fault + decision option) state" where
  "decide env chpaStatusOriginal currentReplicas now = do {
     c \<leftarrow> State_Monad.get;
     let spec = Spec (c_chpa c);
     (case dep_Spec_Replicas (c_deploy c) of
        None \<Rightarrow> State_Monad.return (Inl nil_dereference)
      | Some specReplicas \<Rightarrow>
          if specReplicas = 0 then do {
            setCondition env ''ScalingActive'' ''False'' ''ScalingDisabled''
              ''scaling is disabled since the replica count of the target is zero'';
            State_Monad.return (Inr (Some
              \<lparr>d_desiredReplicas = 0, d_rescaleReason = [], d_metricStatuses = [], d_rescale = False\<rparr>))
          }
          else if sint currentReplicas > sint (MaxReplicas spec) then
            State_Monad.return (Inr (Some
              \<lparr>d_desiredReplicas = MaxReplicas spec,
               d_rescaleReason = ''Current number of replicas above Spec.MaxReplicas'',
               d_metricStatuses = [], d_rescale = True\<rparr>))
          else if (case MinReplicas spec of None \<Rightarrow> False | Some m \<Rightarrow> sint currentReplicas < sint m) then
            State_Monad.return (Inr (Some
              \<lparr>d_desiredReplicas = the (MinReplicas spec),
               d_rescaleReason = ''Current number of replicas below Spec.MinReplicas'',
               d_metricStatuses = [], d_rescale = True\<rparr>))
          else if currentReplicas = 0 then
            State_Monad.return (Inr (Some
              \<lparr>d_desiredReplicas = 1,
               d_rescaleReason = ''Current number of replicas must be greater than 0'',
               d_metricStatuses = [], d_rescale = True\<rparr>))
          else metrics_decision env chpaStatusOriginal currentReplicas now)
   }"

section \<open>Carrying the decision out\<close>

text \<open>
  \<open>deploy.Spec.Replicas = &desiredReplicas\<close>: what the variable holds after the update is what the
  client left in the cell.
\<close>

definition rescale_deployment ::
  "'w env \<Rightarrow> int32 \<Rightarrow> ('w ctx, string option \<times> int32) state" where
  "rescale_deployment env desiredReplicas = do {
     set_deploy_replicas desiredReplicas;
     c \<leftarrow> State_Monad.get;
     act (UpdateDeployment (c_deploy c));
     on_ext (update_deployment env (c_deploy c))
   }"

definition finish_status ::
  "'w env \<Rightarrow> CHPAStatus \<Rightarrow> int32 \<Rightarrow> int32 \<Rightarrow> MetricStatus list \<Rightarrow> bool \<Rightarrow> ('w ctx, unit) state" where
  "finish_status env chpaStatusOriginal currentReplicas desiredReplicas metricStatuses rescale = do {
     setStatus env currentReplicas desiredReplicas metricStatuses rescale;
     _ \<leftarrow> updateStatusIfNeeded env chpaStatusOriginal;
     State_Monad.return ()
   }"

definition apply_decision ::
  "'w env \<Rightarrow> CHPAStatus \<Rightarrow> int32 \<Rightarrow> decision \<Rightarrow> ('w ctx, unit) state" where
  "apply_decision env chpaStatusOriginal currentReplicas d =
    (if d_rescale d then do {
       (e, desiredReplicas) \<leftarrow> rescale_deployment env (d_desiredReplicas d);
       (case e of
          Some err \<Rightarrow> do {
            record_event ''Warning'' ''FailedRescale''
              (''New size: '' @ itoa (sint desiredReplicas) @ ''; reason: '' @ d_rescaleReason d @ ''; error: '' @ err);
            setCondition env ''AbleToScale'' ''False'' ''FailedUpdateScale''
              (''the HPA controller was unable to update the target scale: '' @ err);
            setCurrentReplicasInStatus env currentReplicas;
            u \<leftarrow> updateStatusIfNeeded env chpaStatusOriginal;
            (case u of
               Some err \<Rightarrow> failed_update_replicas env err
             | None \<Rightarrow> State_Monad.return ())
          }
        | None \<Rightarrow> do {
            setCondition env ''AbleToScale'' ''True'' ''SucceededRescale''
              (''the HPA controller was able to update the target scale to '' @ itoa (sint desiredReplicas));
            record_event ''Normal'' ''SuccessfulRescale''
              (''New size: '' @ itoa (sint desiredReplicas) @ ''; reason: '' @ d_rescaleReason d);
            finish_status env chpaStatusOriginal currentReplicas desiredReplicas (d_metricStatuses d) True
          })
     }
     else finish_status env chpaStatusOriginal currentReplicas currentReplicas (d_metricStatuses d) False)"

definition reconcile_body :: "'w env \<Rightarrow> ('w ctx, fault + unit) state" where
  "reconcile_body env = do {
     c \<leftarrow> State_Monad.get;
     let currentReplicas = dep_Status_Replicas (c_deploy c);
     let chpaStatusOriginal = Status (c_chpa c);
     setCondition env ''AbleToScale'' ''True'' ''SucceededGetScale''
       (''the HPA controller was able to get the target'' @ apos @ ''s current scale'');
     now \<leftarrow> on_ext (time_now env);
     r \<leftarrow> decide env chpaStatusOriginal currentReplicas now;
     (case r of
        Inl e \<Rightarrow> State_Monad.return (Inl e)
      | Inr None \<Rightarrow> State_Monad.return (Inr ())
      | Inr (Some d) \<Rightarrow> do {
          apply_decision env chpaStatusOriginal currentReplicas d;
          State_Monad.return (Inr ())
        })
   }"

definition recovered :: "fault + unit \<Rightarrow> string option" where
  "recovered r = (case r of
     Inr _ \<Rightarrow> None
   | Inl (Err e) \<Rightarrow> Some e
   | Inl (Panic p) \<Rightarrow> Some (''RunTime error in reconcileCHPA: '' @ p))"

definition reconcileCHPA :: "'w env \<Rightarrow> ('w ctx, string option) state" where
  "reconcileCHPA env = do {
     r \<leftarrow> reconcile_body env;
     State_Monad.return (recovered r)
   }"

section \<open>The entry point\<close>

text \<open>\<open>reconcile.Result\<close>: a positive \<open>RequeueAfter\<close> asks to be called again after that time, \<open>Requeue\<close> after the
  delay of the rate limiter.\<close>

record reconcile_Result =
  Requeue :: bool
  RequeueAfter :: int64

definition resRepeat :: "'w env \<Rightarrow> reconcile_Result" where
  "resRepeat env = \<lparr>Requeue = False, RequeueAfter = syncPeriod env\<rparr>"

definition resStop :: reconcile_Result where
  "resStop = \<lparr>Requeue = False, RequeueAfter = 0\<rparr>"

definition process_deployment ::
  "'w env \<Rightarrow> ('w ctx, reconcile_Result \<times> string option) state" where
  "process_deployment env = do {
     c \<leftarrow> State_Monad.get;
     r \<leftarrow> on_ext (get_deployment env (chpa_Namespace (c_chpa c)) (ref_Name (ScaleTargetRef (Spec (c_chpa c)))));
     (case r of
        Inl _ \<Rightarrow> State_Monad.return (resRepeat env, None)
      | Inr deploy \<Rightarrow>
          (case SetControllerReference (GVKForObject env) (c_chpa c) deploy of
             Inl _ \<Rightarrow> State_Monad.return (resRepeat env, None)
           | Inr deploy' \<Rightarrow> do {
               State_Monad.update (\<lambda>c. c\<lparr>c_deploy := deploy'\<rparr>);
               e \<leftarrow> reconcileCHPA env;
               (case e of
                  Some err \<Rightarrow> do {
                    record_event ''Warning'' ''FailedProcessCHPA'' err;
                    setCondition env ''AbleToScale'' ''True'' ''FailedProcessCHPA''
                      ''Error happened while processing the CHPA'';
                    State_Monad.return (resStop, None)
                  }
                | None \<Rightarrow> State_Monad.return (resRepeat env, None))
             }))
   }"

definition Reconcile :: "'w env \<Rightarrow> string \<Rightarrow> string \<Rightarrow> ('w ctx, reconcile_Result \<times> string option) state" where
  "Reconcile env namespace name = do {
     r \<leftarrow> on_ext (get_chpa env namespace name);
     (case r of
        Inl (NotFound _) \<Rightarrow> State_Monad.return (resStop, None)
      | Inl (OtherError _) \<Rightarrow> State_Monad.return (resRepeat env, None)
      | Inr chpa \<Rightarrow> do {
          State_Monad.update (\<lambda>c. c\<lparr>c_chpa := setCHPADefaults chpa\<rparr>);
          (case checkCHPAValidity (sprintf0 env) (setCHPADefaults chpa) of
             Inl err \<Rightarrow> do {
               record_event ''Warning'' ''FailedSpecCheck'' err;
               setCondition env ''AbleToScale'' ''False'' ''FailedSpecCheck''
                 (''Invalid CHPA specification: '' @ err);
               State_Monad.return (resStop, None)
             }
           | Inr _ \<Rightarrow> process_deployment env)
        })
   }"

end
