(* ===== verification/StatePrograms.thy ===== *)
theory StatePrograms
  imports Prelude
begin

text \<open>
  How the state-monad programs of the controller are reasoned about.

  \<open>wp m Q s\<close> says that running \<open>m\<close> from \<open>s\<close> ends with a value and a state that satisfy \<open>Q\<close>; its
  equations (collected in \<open>wp_simps\<close>) unfold a program statement by statement.  \<open>frames R m\<close> says
  that every run of \<open>m\<close> is related by \<open>R\<close>; the locale \<open>frame\<close> gives, for any reflexive and transitive
  \<open>R\<close>, the rules by which a program inherits its frame from its statements.
\<close>

named_theorems wp_simps \<open>weakest preconditions of the program constructs\<close>

definition wp :: "('s, 'a) state \<Rightarrow> ('a \<Rightarrow> 's \<Rightarrow> bool) \<Rightarrow> 's \<Rightarrow> bool" where
  "wp m Q s \<longleftrightarrow> Q (fst (run_state m s)) (snd (run_state m s))"

lemma wp_return [wp_simps]: "wp (State_Monad.return a) Q = Q a"
  by (simp add: wp_def fun_eq_iff)

lemma wp_bind [wp_simps]: "wp (State_Monad.bind m f) Q s = wp m (\<lambda>a. wp (f a) Q) s"
  by (simp add: wp_def split: prod.splits)

lemma wp_get [wp_simps]: "wp State_Monad.get Q s = Q s s"
  by (simp add: wp_def State_Monad.get_def)

lemma wp_update [wp_simps]: "wp (State_Monad.update f) Q s = Q () (f s)"
  by (simp add: wp_def State_Monad.update_def State_Monad.get_def State_Monad.set_def)

lemma wp_if [wp_simps]: "wp (if b then m else n) Q s = (if b then wp m Q s else wp n Q s)"
  by simp

lemma wp_case_sum [wp_simps]:
  "wp (case r of Inl e \<Rightarrow> f e | Inr v \<Rightarrow> g v) Q s = (case r of Inl e \<Rightarrow> wp (f e) Q s | Inr v \<Rightarrow> wp (g v) Q s)"
  by (cases r) simp_all

lemma wp_case_option [wp_simps]:
  "wp (case r of None \<Rightarrow> f | Some v \<Rightarrow> g v) Q s = (case r of None \<Rightarrow> wp f Q s | Some v \<Rightarrow> wp (g v) Q s)"
  by (cases r) simp_all

lemma wp_case_prod [wp_simps]:
  "wp (case p of (a, b) \<Rightarrow> f a b) Q s = (case p of (a, b) \<Rightarrow> wp (f a b) Q s)"
  by (cases p) simp

lemma wp_case_fault [wp_simps]:
  "wp (case e of Err x \<Rightarrow> f x | Panic p \<Rightarrow> g p) Q s = (case e of Err x \<Rightarrow> wp (f x) Q s | Panic p \<Rightarrow> wp (g p) Q s)"
  by (cases e) simp_all

lemma wp_Let [wp_simps]: "wp (let x = v in f x) Q s = (let x = v in wp (f x) Q s)"
  by simp

lemma wp_mono: "wp m P s \<Longrightarrow> (\<And>a t. P a t \<Longrightarrow> Q a t) \<Longrightarrow> wp m Q s"
  by (simp add: wp_def)

lemma wp_conj: "wp m P s \<Longrightarrow> wp m Q s \<Longrightarrow> wp m (\<lambda>a t. P a t \<and> Q a t) s"
  by (simp add: wp_def)

lemma wp_True [simp]: "wp m (\<lambda>_ _. True) s"
  by (simp add: wp_def)

section \<open>Frames\<close>

definition frames :: "('s \<Rightarrow> 's \<Rightarrow> bool) \<Rightarrow> ('s, 'a) state \<Rightarrow> bool" where
  "frames R m \<longleftrightarrow> (\<forall>s. wp m (\<lambda>_. R s) s)"

lemma framesI: "(\<And>s. wp m (\<lambda>_. R s) s) \<Longrightarrow> frames R m"
  by (simp add: frames_def)

lemma framesD: "frames R m \<Longrightarrow> R s (snd (run_state m s))"
  by (simp add: frames_def wp_def)

lemma frames_wp: "frames R m \<Longrightarrow> (\<And>a t. R s t \<Longrightarrow> Q a t) \<Longrightarrow> wp m Q s"
  by (simp add: frames_def wp_def)

lemma frames_mono: "frames R m \<Longrightarrow> (\<And>s t. R s t \<Longrightarrow> R' s t) \<Longrightarrow> frames R' m"
  by (simp add: frames_def wp_def)

text \<open>Branching keeps any frame.\<close>

lemma frames_if: "frames R m \<Longrightarrow> frames R n \<Longrightarrow> frames R (if b then m else n)"
  by simp

lemma frames_case_sum:
  "(\<And>e. r = Inl e \<Longrightarrow> frames R (f e)) \<Longrightarrow> (\<And>v. r = Inr v \<Longrightarrow> frames R (g v))
   \<Longrightarrow> frames R (case r of Inl e \<Rightarrow> f e | Inr v \<Rightarrow> g v)"
  by (cases r) simp_all

lemma frames_case_option:
  "frames R f \<Longrightarrow> (\<And>v. r = Some v \<Longrightarrow> frames R (g v)) \<Longrightarrow> frames R (case r of None \<Rightarrow> f | Some v \<Rightarrow> g v)"
  by (cases r) simp_all

lemma frames_case_prod: "(\<And>a b. frames R (f a b)) \<Longrightarrow> frames R (case p of (a, b) \<Rightarrow> f a b)"
  by (cases p) simp

lemma frames_case_fault:
  "(\<And>x. frames R (f x)) \<Longrightarrow> (\<And>p. frames R (g p)) \<Longrightarrow> frames R (case e of Err x \<Rightarrow> f x | Panic p \<Rightarrow> g p)"
  by (cases e) simp_all

lemmas frames_branch = frames_if frames_case_sum frames_case_option frames_case_prod frames_case_fault

locale frame =
  fixes R :: "'s \<Rightarrow> 's \<Rightarrow> bool"
  assumes frame_refl: "R s s" and frame_trans: "R s t \<Longrightarrow> R t u \<Longrightarrow> R s u"
begin

lemma frames_return: "frames R (State_Monad.return a)"
  by (simp add: frames_def wp_simps frame_refl)

lemma frames_get: "frames R State_Monad.get"
  by (simp add: frames_def wp_simps frame_refl)

lemma frames_bind:
  assumes "frames R m" "\<And>a. frames R (f a)"
  shows "frames R (State_Monad.bind m f)"
proof (rule framesI)
  fix s
  show "wp (State_Monad.bind m f) (\<lambda>_. R s) s"
    using framesD [OF assms(1), of s] framesD [OF assms(2)] frame_trans by (simp add: wp_bind) (simp add: wp_def)
qed

lemmas intros = frames_return frames_get frames_bind frames_branch

end

text \<open>What holds at the end held at the start: the frame of a condition that is lost once and for all.\<close>

definition backward :: "('s \<Rightarrow> bool) \<Rightarrow> 's \<Rightarrow> 's \<Rightarrow> bool" where
  "backward C s t \<longleftrightarrow> (C t \<longrightarrow> C s)"

interpretation backward: frame "backward C" for C
  by unfold_locales (auto simp: backward_def)

lemma frames_conj: "frames R m \<Longrightarrow> frames R' m \<Longrightarrow> frames (\<lambda>s t. R s t \<and> R' s t) m"
  by (simp add: frames_def wp_def)

section \<open>Results\<close>

text \<open>\<open>results R m\<close>: every run of \<open>m\<close> ends with a value in \<open>R\<close>.\<close>

definition results :: "('a \<Rightarrow> bool) \<Rightarrow> ('s, 'a) state \<Rightarrow> bool" where
  "results R m \<longleftrightarrow> (\<forall>s. wp m (\<lambda>r _. R r) s)"

lemma resultsI: "(\<And>s. R (fst (run_state m s))) \<Longrightarrow> results R m"
  by (simp add: results_def wp_def)

lemma resultsD: "results R m \<Longrightarrow> R (fst (run_state m s))"
  by (simp add: results_def wp_def)

lemma frames_results_wp:
  "frames R m \<Longrightarrow> results V m \<Longrightarrow> (\<And>a t. R s t \<Longrightarrow> V a \<Longrightarrow> Q a t) \<Longrightarrow> wp m Q s"
  by (simp add: frames_def results_def wp_def)

lemma results_mono: "results R m \<Longrightarrow> (\<And>r. R r \<Longrightarrow> R' r) \<Longrightarrow> results R' m"
  by (simp add: results_def wp_def)

lemma results_conj: "results R m \<Longrightarrow> results R' m \<Longrightarrow> results (\<lambda>r. R r \<and> R' r) m"
  by (simp add: results_def wp_def)

lemma results_return: "R r \<Longrightarrow> results R (State_Monad.return r)"
  by (simp add: results_def wp_simps)

lemma results_bind:
  assumes "results R m" "\<And>r. R r \<Longrightarrow> results R' (f r)"
  shows "results R' (State_Monad.bind m f)"
  using assms by (auto simp: results_def wp_bind) (auto simp: wp_def)

lemma results_any: "results (\<lambda>_. True) m"
  by (simp add: results_def)

text \<open>\<open>until C R m\<close>: a run of \<open>m\<close> that ends while \<open>C\<close> still holds ends with a value in \<open>R\<close>.\<close>

definition until :: "('s \<Rightarrow> bool) \<Rightarrow> ('a \<Rightarrow> bool) \<Rightarrow> ('s, 'a) state \<Rightarrow> bool" where
  "until C R m \<longleftrightarrow> (\<forall>s. wp m (\<lambda>r t. C t \<longrightarrow> C s \<and> R r) s)"

lemma until_True [simp]: "until (\<lambda>_. True) R m = results R m"
  by (simp add: until_def results_def)

lemma until_wp: "until C R m \<Longrightarrow> (\<And>r t. (C t \<Longrightarrow> C s \<and> R r) \<Longrightarrow> Q r t) \<Longrightarrow> wp m Q s"
  by (auto simp: until_def wp_def)

lemma until_any: "frames (backward C) m \<Longrightarrow> until C (\<lambda>_. True) m"
  by (simp add: until_def frames_def backward_def wp_def)

lemma until_back: "until C R m \<Longrightarrow> frames (backward C) m"
  by (auto simp: until_def frames_def backward_def wp_def)

lemma until_mono: "until C R m \<Longrightarrow> (\<And>r. R r \<Longrightarrow> R' r) \<Longrightarrow> until C R' m"
  by (simp add: until_def wp_def)

lemma until_return: "R r \<Longrightarrow> until C R (State_Monad.return r)"
  by (simp add: until_def wp_simps)

lemma until_bind:
  assumes "until C R m" "\<And>r. frames (backward C) (f r)" "\<And>r. R r \<Longrightarrow> until C R' (f r)"
  shows "until C R' (State_Monad.bind m f)"
  unfolding until_def wp_bind
proof (intro allI, rule until_wp [OF assms(1)])
  fix s r t assume r: "C t \<Longrightarrow> C s \<and> R r"
  show "wp (f r) (\<lambda>r t. C t \<longrightarrow> C s \<and> R' r) t"
  proof (cases "C t")
    case True
    with r have "until C R' (f r)" "C s" using assms(3) by auto
    then show ?thesis by (auto simp: until_def wp_def)
  next
    case False
    then show ?thesis using framesD [OF assms(2) [of r], of t] by (auto simp: backward_def wp_def)
  qed
qed

lemma until_case_sum:
  "(\<And>e. r = Inl e \<Longrightarrow> until C R (f e)) \<Longrightarrow> (\<And>v. r = Inr v \<Longrightarrow> until C R (g v))
   \<Longrightarrow> until C R (case r of Inl e \<Rightarrow> f e | Inr v \<Rightarrow> g v)"
  by (cases r) simp_all

lemma until_case_option:
  "(r = None \<Longrightarrow> until C R f) \<Longrightarrow> (\<And>v. r = Some v \<Longrightarrow> until C R (g v))
   \<Longrightarrow> until C R (case r of None \<Rightarrow> f | Some v \<Rightarrow> g v)"
  by (cases r) simp_all

lemma until_case_prod: "(\<And>a b. r = (a, b) \<Longrightarrow> until C R (f a b)) \<Longrightarrow> until C R (case r of (a, b) \<Rightarrow> f a b)"
  by (cases r) simp

lemma until_if: "(b \<Longrightarrow> until C R m) \<Longrightarrow> (\<not> b \<Longrightarrow> until C R n) \<Longrightarrow> until C R (if b then m else n)"
  by simp

lemma results_case_sum:
  "(\<And>e. r = Inl e \<Longrightarrow> results R (f e)) \<Longrightarrow> (\<And>v. r = Inr v \<Longrightarrow> results R (g v))
   \<Longrightarrow> results R (case r of Inl e \<Rightarrow> f e | Inr v \<Rightarrow> g v)"
  by (cases r) simp_all

lemma results_case_option:
  "(r = None \<Longrightarrow> results R f) \<Longrightarrow> (\<And>v. r = Some v \<Longrightarrow> results R (g v))
   \<Longrightarrow> results R (case r of None \<Rightarrow> f | Some v \<Rightarrow> g v)"
  by (cases r) simp_all

lemma results_if: "(b \<Longrightarrow> results R m) \<Longrightarrow> (\<not> b \<Longrightarrow> results R n) \<Longrightarrow> results R (if b then m else n)"
  by simp

text \<open>A run that does not panic.\<close>

definition calm :: "fault + 'a \<Rightarrow> bool" where
  "calm r \<longleftrightarrow> (\<forall>p. r \<noteq> Inl (Panic p))"

lemma calm_simps [simp]: "calm (Inr v)" "calm (Inl e) \<longleftrightarrow> (\<forall>p. e \<noteq> Panic p)"
  by (simp_all add: calm_def)

lemma calm_map_sum [simp]: "calm (map_sum id f r) = calm r"
  by (cases r) (simp_all add: calm_def)

text \<open>A result that, if it is a value, has the property \<open>P\<close>.\<close>

definition valued :: "('a \<Rightarrow> bool) \<Rightarrow> 'e + 'a \<Rightarrow> bool" where
  "valued P r \<longleftrightarrow> (\<forall>v. r = Inr v \<longrightarrow> P v)"

lemma valued_simps [simp]: "valued P (Inr v) = P v" "valued P (Inl e)"
  by (simp_all add: valued_def)

lemma valued_map_sum [simp]: "valued P (map_sum f g r) = valued (\<lambda>v. P (g v)) r"
  by (cases r) simp_all

end
