(* ===== verification/ControllerFacts.thy ===== *)
theory ControllerFacts
  imports Reconcile StatePrograms
begin

text \<open>
  What the steps of the reconciler leave alone.  \<open>quiet c c'\<close>: from \<open>c\<close> to \<open>c'\<close> only the conditions
  of the CHPA, the world outside and the list of events have changed; nothing was written to the
  cluster.  All of the metric calculation, the normalisation and the back-off conditions are quiet.
\<close>

section \<open>The primitive steps\<close>

lemma wp_on_ext [wp_simps]: "wp (on_ext m) Q c = wp m (\<lambda>a w. Q a (c\<lparr>c_ext := w\<rparr>)) (c_ext c)"
  by (simp add: on_ext_def wp_def split: prod.splits)

lemma wp_act [wp_simps]: "wp (act a) Q c = Q () (c\<lparr>c_actions := c_actions c @ [a]\<rparr>)"
  by (simp add: act_def wp_simps)

lemma wp_modify_status [wp_simps]:
  "wp (modify_status f) Q c = Q () (c\<lparr>c_chpa := (c_chpa c)\<lparr>Status := f (Status (c_chpa c))\<rparr>\<rparr>)"
  by (simp add: modify_status_def wp_simps)

lemma wp_set_deploy_replicas [wp_simps]:
  "wp (set_deploy_replicas n) Q c = Q () (c\<lparr>c_deploy := (c_deploy c)\<lparr>dep_Spec_Replicas := Some n\<rparr>\<rparr>)"
  by (simp add: set_deploy_replicas_def wp_simps)

section \<open>Quiet steps\<close>

fun is_event :: "action \<Rightarrow> bool" where
  "is_event (Event _ _ _) = True"
| "is_event _ = False"

text \<open>The writes among a list of actions.\<close>

definition writes :: "action list \<Rightarrow> action list" where
  "writes as = filter (\<lambda>a. \<not> is_event a) as"

lemma writes_simps [simp]:
  "writes [] = []" "writes (as @ bs) = writes as @ writes bs"
  "writes (a # as) = (if is_event a then writes as else a # writes as)"
  by (simp_all add: writes_def)

definition quiet :: "'w ctx \<Rightarrow> 'w ctx \<Rightarrow> bool" where
  "quiet c c' \<longleftrightarrow>
     c_deploy c' = c_deploy c \<and>
     (\<exists>cs. c_chpa c' = (c_chpa c)\<lparr>Status := (Status (c_chpa c))\<lparr>Conditions := cs\<rparr>\<rparr>) \<and>
     writes (c_actions c') = writes (c_actions c)"

lemma quiet_same:
  assumes "c_deploy c' = c_deploy c" "c_chpa c' = c_chpa c" "writes (c_actions c') = writes (c_actions c)"
  shows "quiet c c'"
proof -
  have "c_chpa c = (c_chpa c)\<lparr>Status := (Status (c_chpa c))\<lparr>Conditions := Conditions (Status (c_chpa c))\<rparr>\<rparr>" by simp
  with assms show ?thesis unfolding quiet_def by metis
qed

lemma quiet_refl: "quiet c c"
  by (rule quiet_same) simp_all

lemma quiet_trans: "quiet c d \<Longrightarrow> quiet d e \<Longrightarrow> quiet c e"
  by (auto simp: quiet_def)

lemma quietD:
  assumes "quiet c c'"
  shows "c_deploy c' = c_deploy c" "Spec (c_chpa c') = Spec (c_chpa c)"
    "chpa_Namespace (c_chpa c') = chpa_Namespace (c_chpa c)"
    "LastScaleTime (Status (c_chpa c')) = LastScaleTime (Status (c_chpa c))"
    "CurrentMetrics (Status (c_chpa c')) = CurrentMetrics (Status (c_chpa c))"
    "DesiredReplicas (Status (c_chpa c')) = DesiredReplicas (Status (c_chpa c))"
    "writes (c_actions c') = writes (c_actions c)"
  using assms by (auto simp: quiet_def)

text \<open>A frame of the world outside that its reads stay in: the clock, the metric sources, the list of the pods.\<close>

definition reads_keep :: "('w \<Rightarrow> 'w \<Rightarrow> bool) \<Rightarrow> 'w env \<Rightarrow> bool" where
  "reads_keep R env \<longleftrightarrow>
     frames R (time_now env) \<and>
     (\<forall>res ns sel. frames R (GetResourceMetric (replicaCalc env) res ns sel)) \<and>
     (\<forall>name ns sel. frames R (GetRawMetric (replicaCalc env) name ns sel)) \<and>
     (\<forall>name ns ref. frames R (GetObjectMetric (replicaCalc env) name ns ref)) \<and>
     (\<forall>name ns sel. frames R (GetExternalMetric (replicaCalc env) name ns sel)) \<and>
     (\<forall>ns sel. frames R (ListPods (replicaCalc env) ns sel))"

lemma reads_keepD:
  assumes "reads_keep R env"
  shows "frames R (time_now env)" "frames R (GetResourceMetric (replicaCalc env) res ns sel)"
    "frames R (GetRawMetric (replicaCalc env) name ns sel)" "frames R (GetObjectMetric (replicaCalc env) name ns ref)"
    "frames R (GetExternalMetric (replicaCalc env) name ns sel)" "frames R (ListPods (replicaCalc env) ns sel)"
  using assms by (simp_all add: reads_keep_def)

text \<open>The conditions the controller sets: type, status and reason.\<close>

inductive vocabulary :: "string \<Rightarrow> string \<Rightarrow> string \<Rightarrow> bool" where
  "vocabulary ''AbleToScale'' ''True'' ''SucceededGetScale''"
| "vocabulary ''AbleToScale'' ''True'' ''SucceededRescale''"
| "vocabulary ''AbleToScale'' ''True'' ''ReadyForNewScale''"
| "vocabulary ''AbleToScale'' ''True'' ''FailedProcessCHPA''"
| "vocabulary ''AbleToScale'' ''False'' ''BackoffBoth''"
| "vocabulary ''AbleToScale'' ''False'' ''BackoffDownscale''"
| "vocabulary ''AbleToScale'' ''False'' ''BackoffUpscale''"
| "vocabulary ''AbleToScale'' ''False'' ''FailedSpecCheck''"
| "vocabulary ''AbleToScale'' ''False'' ''FailedUpdateScale''"
| "vocabulary ''AbleToScale'' ''False'' ''FailedUpdateReplicas''"
| "vocabulary ''ScalingActive'' ''True'' ''ValidMetricFound''"
| "vocabulary ''ScalingActive'' ''False'' ''ScalingDisabled''"
| "vocabulary ''ScalingActive'' ''False'' ''InvalidSelector''"
| "vocabulary ''ScalingActive'' ''False'' ''InvalidMetricSourceType''"
| "vocabulary ''ScalingActive'' ''False'' ''FailedGetObjectMetric''"
| "vocabulary ''ScalingActive'' ''False'' ''FailedGetPodsMetric''"
| "vocabulary ''ScalingActive'' ''False'' ''FailedGetResourceMetric''"
| "vocabulary ''ScalingActive'' ''False'' ''FailedGetExternalMetric''"
| "vocabulary ''ScalingLimited'' ''True'' ''TooFewReplicas''"
| "vocabulary ''ScalingLimited'' ''True'' ''TooManyReplicas''"
| "vocabulary ''ScalingLimited'' ''True'' ''ScaleUpLimit''"
| "vocabulary ''ScalingLimited'' ''False'' ''DesiredWithinRange''"

text \<open>The normalisation reports a limit exactly when it changes the count.\<close>

lemma convert_phrase:
  "convertDesiredReplicasWithRules chpa cur d mn mx = (d', condition, reason) \<Longrightarrow>
   vocabulary ''ScalingLimited'' (if d' = d then ''False'' else ''True'') condition"
  by (auto simp: convertDesiredReplicasWithRules_def Let_def intro: vocabulary.intros split: if_splits)

text \<open>
  \<open>steps R S env\<close>: the frame \<open>S\<close> of contexts allows the reads of the world, events, and the conditions of the
  vocabulary.  Everything up to the writes stays within such a frame.
\<close>

locale steps = frame S + world: frame R
  for R :: "'w \<Rightarrow> 'w \<Rightarrow> bool" and S :: "'w ctx \<Rightarrow> 'w ctx \<Rightarrow> bool" +
  fixes env :: "'w env"
  assumes reads: "reads_keep R env"
    and at_world: "R (c_ext c) w \<Longrightarrow> S c (c\<lparr>c_ext := w\<rparr>)"
    and at_event: "S c (c\<lparr>c_actions := c_actions c @ [Event t r m]\<rparr>)"
    and step_setCondition: "vocabulary t st r \<Longrightarrow> frames S (setCondition env t st r m)"
begin

lemma step_on_ext: "frames R m \<Longrightarrow> frames S (on_ext m)"
  by (rule framesI) (simp add: wp_on_ext at_world frames_wp)

lemma step_event: "frames S (record_event t r m)"
  by (rule framesI) (simp add: record_event_def wp_simps at_event)

lemma step_clock: "frames S (on_ext (time_now env))"
  by (rule step_on_ext [OF reads_keepD(1) [OF reads]])

lemma step_limited:
  "convertDesiredReplicasWithRules chpa cur d mn mx = (d', condition, reason) \<Longrightarrow>
   frames S (if d' = d then setCondition env ''ScalingLimited'' ''False'' condition m
             else setCondition env ''ScalingLimited'' ''True'' condition m)"
  using convert_phrase [of chpa cur d mn mx d' condition reason] by (auto intro: step_setCondition)

lemmas step_intros = intros step_event step_setCondition vocabulary.intros

text \<open>The six calculations of the replica calculator only read.\<close>

lemma calculations_keep:
  "frames R (GetResourceReplicas (replicaCalc env) cur t32 name ns sel)"
  "frames R (GetRawResourceReplicas (replicaCalc env) cur t name ns sel)"
  "frames R (GetMetricReplicas (replicaCalc env) cur t name ns sel)"
  "frames R (GetObjectMetricReplicas (replicaCalc env) cur t name ns ref)"
  "frames R (GetExternalMetricReplicas (replicaCalc env) cur t name ns lsel)"
  "frames R (GetExternalPerPodMetricReplicas (replicaCalc env) cur t name ns lsel)"
  unfolding GetResourceReplicas_def GetRawResourceReplicas_def GetMetricReplicas_def GetObjectMetricReplicas_def
    GetExternalMetricReplicas_def GetExternalPerPodMetricReplicas_def calcPlainMetricReplicas_def Let_def
  by (intro world.intros reads_keepD [OF reads])+

lemma step_fail_metric: "vocabulary ''ScalingActive'' ''False'' r \<Longrightarrow> frames S (fail_metric env r e s t)"
  unfolding fail_metric_def by (intro step_intros)

lemma step_with_proposal: "vocabulary ''ScalingActive'' ''False'' r \<Longrightarrow> frames S (with_proposal env r t x f)"
  unfolding with_proposal_def by (intro step_intros step_fail_metric)

lemma step_metric_proposal: "frames S (metric_proposal env ns sel cur m)"
  unfolding metric_proposal_def object_proposal_def pods_proposal_def resource_proposal_def
    external_proposal_def Let_def
  by (intro step_intros step_fail_metric step_with_proposal step_on_ext calculations_keep)

lemma step_deployment_selector: "frames S (deployment_selector env)"
  unfolding deployment_selector_def Let_def by (intro step_intros)

lemma step_compute_loop: "frames S (compute_loop env cur i ms m)"
proof (induction ms arbitrary: i m)
  case Nil
  show ?case by (simp add: frames_return)
next
  case (Cons a ms)
  show ?case unfolding compute_loop.simps
    by (intro step_intros step_deployment_selector step_metric_proposal Cons.IH)
qed

lemma step_compute: "frames S (computeReplicasForMetrics env ms)"
  unfolding computeReplicasForMetrics_def by (intro step_intros step_compute_loop)

lemma step_normalize: "frames S (normalizeDesiredReplicas env cur d)"
  unfolding normalizeDesiredReplicas_def Let_def
proof (rule frames_bind [OF frames_get])
  fix c :: "'w ctx"
  obtain d' condition reason where r: "convertDesiredReplicasWithRules (c_chpa c) cur d
      (case MinReplicas (Spec (c_chpa c)) of None \<Rightarrow> 0 | Some m \<Rightarrow> m) (MaxReplicas (Spec (c_chpa c))) = (d', condition, reason)"
    by (metis surj_pair)
  show "frames S (case convertDesiredReplicasWithRules (c_chpa c) cur d
      (case MinReplicas (Spec (c_chpa c)) of None \<Rightarrow> 0 | Some m \<Rightarrow> m) (MaxReplicas (Spec (c_chpa c))) of
      (desiredReplicas, condition, reason) \<Rightarrow> do {
        (if desiredReplicas = d then setCondition env ''ScalingLimited'' ''False'' condition reason
         else setCondition env ''ScalingLimited'' ''True'' condition reason);
        State_Monad.return desiredReplicas
      })"
    unfolding r prod.case by (intro frames_bind frames_return step_limited [OF r])
qed

lemma step_backoff: "frames S (backoff_conditions env ts)"
  unfolding backoff_conditions_def Let_def by (intro step_intros)

lemma step_failed_update: "frames S (failed_update_replicas env e)"
  unfolding failed_update_replicas_def by (intro step_intros)

end

text \<open>A frame that does not look at the conditions allows any of them.\<close>

locale plain_steps = frame S + world: frame R
  for R :: "'w \<Rightarrow> 'w \<Rightarrow> bool" and S :: "'w ctx \<Rightarrow> 'w ctx \<Rightarrow> bool" +
  fixes env :: "'w env"
  assumes plain_reads: "reads_keep R env"
    and plain_world: "R (c_ext c) w \<Longrightarrow> S c (c\<lparr>c_ext := w\<rparr>)"
    and plain_event: "S c (c\<lparr>c_actions := c_actions c @ [Event t r m]\<rparr>)"
    and plain_conditions: "S c (c\<lparr>c_chpa := (c_chpa c)\<lparr>Status := (Status (c_chpa c))\<lparr>Conditions := cs\<rparr>\<rparr>\<rparr>)"
begin

lemma plain_setCondition: "frames S (setCondition env t st r m)"
proof -
  have "frames S (on_ext (time_now env))"
    by (rule framesI) (simp add: wp_on_ext plain_world frames_wp [OF reads_keepD(1) [OF plain_reads]])
  then have "frames S (setConditionInList (on_ext (time_now env)) cs t st r m)" for cs
    unfolding setConditionInList_def Let_def by (intro intros)
  moreover have "frames S (modify_status (\<lambda>s. s\<lparr>Conditions := cs\<rparr>))" for cs
    by (rule framesI) (simp add: wp_simps plain_conditions)
  ultimately show ?thesis unfolding setCondition_def by (intro intros)
qed

lemma steps: "steps R S env"
  by unfold_locales (simp_all add: plain_reads plain_world plain_event plain_setCondition)

end

sublocale plain_steps \<subseteq> steps R S env
  by (rule steps)

context plain_steps
begin

lemmas plain_intros = intros step_event plain_setCondition

lemma plain_fail_metric: "frames S (fail_metric env r e s t)"
  unfolding fail_metric_def by (intro plain_intros)

lemma plain_with_proposal: "frames S (with_proposal env r t x f)"
  unfolding with_proposal_def by (intro plain_intros plain_fail_metric)

end

interpretation quiet: plain_steps "\<lambda>_ _. True" quiet env for env :: "'w env"
proof unfold_locales
  fix c c' c'' :: "'w ctx"
  show "reads_keep (\<lambda>_ _. True) env" by (simp add: reads_keep_def frames_def)
  show "quiet c c" by (rule quiet_refl)
  show "quiet c c' \<Longrightarrow> quiet c' c'' \<Longrightarrow> quiet c c''" by (rule quiet_trans)
  show "quiet c (c\<lparr>c_ext := w\<rparr>)" "quiet c (c\<lparr>c_actions := c_actions c @ [Event t r m]\<rparr>)" for w t r m
    by (rule quiet_same; simp)+
  show "quiet c (c\<lparr>c_chpa := (c_chpa c)\<lparr>Status := (Status (c_chpa c))\<lparr>Conditions := cs\<rparr>\<rparr>\<rparr>)" for cs
    by (auto simp: quiet_def)
qed simp_all

lemma quiet_on_ext: "frames quiet (on_ext m)"
  by (rule quiet.step_on_ext) (simp add: frames_def)

lemmas quiet_record_event = quiet.step_event and quiet_setCondition = quiet.plain_setCondition
  and quiet_fail_metric = quiet.plain_fail_metric and quiet_with_proposal = quiet.plain_with_proposal
  and quiet_metric_proposal = quiet.step_metric_proposal and quiet_deployment_selector = quiet.step_deployment_selector
  and quiet_compute = quiet.step_compute and quiet_normalize = quiet.step_normalize
  and quiet_backoff = quiet.step_backoff and quiet_failed_update = quiet.step_failed_update

lemmas quiet_intros = quiet.intros quiet_on_ext quiet_record_event quiet_setCondition

text \<open>The normalised count is the pure one.\<close>

definition normalized :: "CHPA \<Rightarrow> int32 \<Rightarrow> int32 \<Rightarrow> int32" where
  "normalized chpa cur d =
     fst (convertDesiredReplicasWithRules chpa cur d (case MinReplicas (Spec chpa) of Some m \<Rightarrow> m | None \<Rightarrow> 0)
            (MaxReplicas (Spec chpa)))"

lemma wp_normalize:
  assumes "steps R S env" "\<And>c'. quiet c c' \<Longrightarrow> S c c' \<Longrightarrow> Q (normalized (c_chpa c) cur d) c'"
  shows "wp (normalizeDesiredReplicas env cur d) Q c"
proof -
  let ?mn = "case MinReplicas (Spec (c_chpa c)) of Some m \<Rightarrow> m | None \<Rightarrow> 0"
  obtain d' condition reason
    where r: "convertDesiredReplicasWithRules (c_chpa c) cur d ?mn (MaxReplicas (Spec (c_chpa c))) = (d', condition, reason)"
    by (metis surj_pair)
  have n: "normalized (c_chpa c) cur d = d'" by (simp add: normalized_def r)
  let ?set = "if d' = d then setCondition env ''ScalingLimited'' ''False'' condition reason
    else setCondition env ''ScalingLimited'' ''True'' condition reason"
  have "frames (\<lambda>c c'. quiet c c' \<and> S c c') ?set"
    by (rule frames_conj [OF frames_if [OF quiet_setCondition quiet_setCondition] steps.step_limited [OF assms(1) r]])
  then have "wp ?set (\<lambda>_. Q d') c" by (rule frames_wp) (use assms(2) n in simp)
  then show ?thesis
    unfolding normalizeDesiredReplicas_def wp_bind wp_get Let_def r prod.case wp_return .
qed

section \<open>What the conditions say\<close>

text \<open>The conditions of the CHPA as a store of what each type says; a set condition is a write to it.\<close>

definition reads :: "'w ctx \<Rightarrow> string \<Rightarrow> (string \<times> string \<times> string) option" where
  "reads c = says (Conditions (Status (c_chpa c)))"

lemma setCondition_reads:
  "reads (snd (run_state (setCondition env t st r m) c)) = (reads c)(t := Some (st, r, m))"
proof -
  let ?m = "setConditionInList (on_ext (time_now env)) (Conditions (Status (c_chpa c))) t st r m"
  obtain cs c' where r: "run_state ?m c = (cs, c')" by (metis surj_pair)
  have "says cs k = (if k = t then Some (st, r, m) else says (Conditions (Status (c_chpa c))) k)" for k
    using cond_list.look_put [where now = "on_ext (time_now env)" and s = c and l = "Conditions (Status (c_chpa c))"
        and k = t and v = "(st, r, m)" and k' = k]
    by (simp add: r)
  then show ?thesis
    by (auto simp: setCondition_def State_Monad.get_def r reads_def modify_status_def State_Monad.update_def
        State_Monad.set_def fun_eq_iff)
qed

lemma wp_setCondition:
  assumes "\<And>c'. quiet c c' \<Longrightarrow> reads c' = (reads c)(t := Some (st, r, m)) \<Longrightarrow> Q () c'"
  shows "wp (setCondition env t st r m) Q c"
  unfolding wp_def using assms [OF framesD [OF quiet_setCondition] setCondition_reads] by simp

text \<open>The conditions of a back-off, by which windows are still open at the time of the metrics.\<close>

definition in_window :: "CHPA \<Rightarrow> int32 \<Rightarrow> gotime \<Rightarrow> bool" where
  "in_window chpa s timestamp \<longleftrightarrow>
     (case LastScaleTime (Status chpa) of None \<Rightarrow> False | Some t \<Rightarrow> timestamp \<le> t + sint s * 1000000000)"

definition backoff_says :: "CHPA \<Rightarrow> gotime \<Rightarrow> string \<times> string" where
  "backoff_says chpa timestamp =
     (let down = in_window chpa (DownscaleForbiddenWindowSeconds (Spec chpa)) timestamp;
          up = in_window chpa (UpscaleForbiddenWindowSeconds (Spec chpa)) timestamp
      in if down \<and> up then (''False'', ''BackoffBoth'')
         else if down then (''False'', ''BackoffDownscale'')
         else if up then (''False'', ''BackoffUpscale'')
         else (''True'', ''ReadyForNewScale''))"

lemma wp_backoff_conditions:
  fixes c :: "'w ctx"
  shows "wp (backoff_conditions env ts)
           (\<lambda>_ c'. \<exists>m. reads c' = (reads c)(''AbleToScale'' \<mapsto>
              (fst (backoff_says (c_chpa c) ts), snd (backoff_says (c_chpa c) ts), m))) c"
proof (cases "LastScaleTime (Status (c_chpa c))")
  case None
  then show ?thesis
    unfolding backoff_conditions_def wp_simps
    by (simp add: wp_simps backoff_says_def in_window_def) (rule wp_setCondition; auto)
next
  case (Some t)
  then show ?thesis
    unfolding backoff_conditions_def wp_simps Some option.case Let_def
    by (auto simp: wp_simps backoff_says_def in_window_def add_before_seconds not_less Some Let_def
        intro!: wp_setCondition)
qed

end
