(* ===== verification/Proposals.thy ===== *)
theory Proposals
  imports ControllerFacts
begin

text \<open>
  What the loop over the metrics returns.  Every metric contributes a proposal that is a function of
  the answer of one calculation; the loop keeps the largest count with its timestamp and name.

  Proved: the proposal of a valid metric never panics when the calculations do not; the
  timestamps of the result are timestamps of the metric sources; the loop computes the fold of
  \<open>take_proposal\<close> over the sequence of proposals, whose count is the maximum.
\<close>

section \<open>Results of one metric\<close>

lemma results_on_ext: "results R m \<Longrightarrow> results R (on_ext m)"
  by (simp add: results_def wp_on_ext)

lemma results_on_extD: "results R m \<Longrightarrow> (\<And>r. R r \<Longrightarrow> results R' (f r)) \<Longrightarrow> results R' (State_Monad.bind (on_ext m) f)"
  by (rule results_bind [OF results_on_ext])

lemma until_on_ext: "until C R m \<Longrightarrow> until (\<lambda>c. C (c_ext c)) R (on_ext m)"
  by (simp add: until_def wp_on_ext)

text \<open>A condition on the world that its reads can only lose.\<close>

lemma backward_plain_steps:
  "reads_keep (backward C) env \<Longrightarrow> plain_steps (backward C) (backward (\<lambda>c. C (c_ext c))) env"
  by unfold_locales (auto simp: backward_def)

lemma results_fail_metric: "R (Inl (Err text)) \<Longrightarrow> results R (fail_metric env reason event shown text)"
  unfolding fail_metric_def by (intro results_bind [OF results_any] results_return)

lemma calm_with_proposal: "calm r \<Longrightarrow> results calm (with_proposal env reason text r f)"
  by (auto simp: with_proposal_def intro!: results_return results_fail_metric split: sum.splits fault.splits)

text \<open>\<open>calm_calculator c\<close>: none of the five calculations panics.\<close>

definition calm_calculator :: "'w ReplicaCalculator \<Rightarrow> bool" where
  "calm_calculator c \<longleftrightarrow>
     (\<forall>cur t name ns sel. results calm (GetResourceReplicas c cur t name ns sel)) \<and>
     (\<forall>cur t name ns sel. results calm (GetRawResourceReplicas c cur t name ns sel)) \<and>
     (\<forall>cur t name ns sel. results calm (GetMetricReplicas c cur t name ns sel)) \<and>
     (\<forall>cur t name ns ref. results calm (GetObjectMetricReplicas c cur t name ns ref)) \<and>
     (\<forall>cur t name ns sel. results calm (GetExternalMetricReplicas c cur t name ns sel)) \<and>
     (\<forall>cur t name ns sel. results calm (GetExternalPerPodMetricReplicas c cur t name ns sel))"

lemma clients_ok_calm: "clients_ok c \<Longrightarrow> calm_calculator c"
  unfolding calm_calculator_def
  by (intro conjI allI resultsI; simp add: calm_def GetResourceReplicas_no_panic GetRawResourceReplicas_no_panic
      GetMetricReplicas_no_panic GetObjectMetricReplicas_no_panic GetExternalMetricReplicas_no_panic
      GetExternalPerPodMetricReplicas_no_panic)

lemma metric_proposal_calm:
  assumes "calm_calculator (replicaCalc env)" "metric_ok m"
  shows "results calm (metric_proposal env ns sel cur m)"
proof -
  note c = assms(1) [unfolded calm_calculator_def]
  have o: "results calm (object_proposal env ns cur src)" for src
    unfolding object_proposal_def by (rule results_on_extD [of calm]) (use c calm_with_proposal in auto)
  have p: "results calm (pods_proposal env ns sel cur src)" for src
    unfolding pods_proposal_def by (rule results_on_extD [of calm]) (use c calm_with_proposal in auto)
  have r: "results calm (resource_proposal env ns sel cur src)" for src
    unfolding resource_proposal_def Let_def
    by (intro results_case_option results_fail_metric; (rule results_on_extD [of calm])?)
       (use c calm_with_proposal in auto)
  have e: "results calm (external_proposal env ns cur src)" for src
    unfolding external_proposal_def Let_def
    by (intro results_case_option results_fail_metric; (rule results_on_extD [of calm])?)
       (use c calm_with_proposal in auto)
  show ?thesis
    using assms(2) o p r e by (auto simp: metric_proposal_def metric_ok_def)
qed

section \<open>Timestamps\<close>

text \<open>
  \<open>dated_until C P env\<close>: every time the clock and the metric sources return while \<open>C\<close> holds of the world has the
  property \<open>P\<close>, for instance of not being later than some instant; \<open>C\<close> is lost once and for all.
  \<open>dated P env\<close>: every time they can return has it.
\<close>

definition dated_until :: "('w \<Rightarrow> bool) \<Rightarrow> (gotime \<Rightarrow> bool) \<Rightarrow> 'w env \<Rightarrow> bool" where
  "dated_until C P env \<longleftrightarrow>
     until C P (time_now env) \<and>
     (\<forall>res ns sel. until C (valued (\<lambda>(_, ts). P ts)) (GetResourceMetric (replicaCalc env) res ns sel)) \<and>
     (\<forall>name ns sel. until C (valued (\<lambda>(_, ts). P ts)) (GetRawMetric (replicaCalc env) name ns sel)) \<and>
     (\<forall>name ns ref. until C (valued (\<lambda>(_, ts). P ts)) (GetObjectMetric (replicaCalc env) name ns ref)) \<and>
     (\<forall>name ns sel. until C (valued (\<lambda>(_, ts). P ts)) (GetExternalMetric (replicaCalc env) name ns sel)) \<and>
     (\<forall>ns sel. frames (backward C) (ListPods (replicaCalc env) ns sel))"

definition dated :: "(gotime \<Rightarrow> bool) \<Rightarrow> 'w env \<Rightarrow> bool" where
  "dated P env \<longleftrightarrow>
     results P (time_now env) \<and>
     (\<forall>res ns sel. results (valued (\<lambda>(_, ts). P ts)) (GetResourceMetric (replicaCalc env) res ns sel)) \<and>
     (\<forall>name ns sel. results (valued (\<lambda>(_, ts). P ts)) (GetRawMetric (replicaCalc env) name ns sel)) \<and>
     (\<forall>name ns ref. results (valued (\<lambda>(_, ts). P ts)) (GetObjectMetric (replicaCalc env) name ns ref)) \<and>
     (\<forall>name ns sel. results (valued (\<lambda>(_, ts). P ts)) (GetExternalMetric (replicaCalc env) name ns sel))"

lemma dated_until_True: "dated P env \<Longrightarrow> dated_until (\<lambda>_. True) P env"
  by (simp add: dated_def dated_until_def frames_def backward_def wp_def)

lemma dated_any: "dated (\<lambda>_. True) env"
  by (simp add: dated_def results_def wp_def valued_def)

lemma dated_untilD:
  assumes "dated_until C P env"
  shows "until C P (time_now env)"
    "until C (valued (\<lambda>(_, ts). P ts)) (GetResourceMetric (replicaCalc env) res ns sel)"
    "until C (valued (\<lambda>(_, ts). P ts)) (GetRawMetric (replicaCalc env) name ns sel)"
    "until C (valued (\<lambda>(_, ts). P ts)) (GetObjectMetric (replicaCalc env) name ns ref)"
    "until C (valued (\<lambda>(_, ts). P ts)) (GetExternalMetric (replicaCalc env) name ns sel)"
  using assms by (simp_all add: dated_until_def)

lemma datedD: "dated P env \<Longrightarrow> results P (time_now env)"
  by (simp add: dated_def)

lemma dated_until_keeps: "dated_until C P env \<Longrightarrow> reads_keep (backward C) env"
  unfolding dated_until_def reads_keep_def by (blast intro: until_back)

lemma dated_until_plain: "dated_until C P env \<Longrightarrow> plain_steps (backward C) (backward (\<lambda>c. C (c_ext c))) env"
  by (rule backward_plain_steps [OF dated_until_keeps])

lemmas dated_until_steps = plain_steps.steps [OF dated_until_plain]

lemma valued_with_timestamp: "P ts \<Longrightarrow> valued (\<lambda>(_, _, t). P t) (with_timestamp ts r)"
  by (auto simp: with_timestamp_def split: sum.splits)

text \<open>The rules by which the calculations inherit the dates of their sources.\<close>

lemmas until_rules = until_return until_case_sum until_case_prod until_case_option until_if until_bind [OF until_any]

lemma calculations_dated:
  assumes "dated_until C P env"
  shows "until C (valued (\<lambda>(_, _, _, ts). P ts)) (GetResourceReplicas (replicaCalc env) cur t name ns sel)"
    and "until C (valued (\<lambda>(_, _, ts). P ts)) (GetRawResourceReplicas (replicaCalc env) cur t' name ns sel)"
    and "until C (valued (\<lambda>(_, _, ts). P ts)) (GetMetricReplicas (replicaCalc env) cur t' name ns sel)"
    and "until C (valued (\<lambda>(_, _, ts). P ts)) (GetObjectMetricReplicas (replicaCalc env) cur t' name ns ref)"
    and "until C (valued (\<lambda>(_, _, ts). P ts)) (GetExternalMetricReplicas (replicaCalc env) cur t' name ns sel')"
    and "until C (valued (\<lambda>(_, _, ts). P ts)) (GetExternalPerPodMetricReplicas (replicaCalc env) cur t' name ns sel')"
proof -
  note k = backward.intros reads_keepD [OF dated_until_keeps [OF assms]] and d = dated_untilD [OF assms]
  show "until C (valued (\<lambda>(_, _, _, ts). P ts)) (GetResourceReplicas (replicaCalc env) cur t name ns sel)"
    unfolding GetResourceReplicas_def
    by (rule until_bind [OF d(2)]; intro k until_rules) (auto split: sum.splits)
  show "until C (valued (\<lambda>(_, _, ts). P ts)) (GetRawResourceReplicas (replicaCalc env) cur t' name ns sel)"
    unfolding GetRawResourceReplicas_def calcPlainMetricReplicas_def
    by (rule until_bind [OF d(2)]; intro k until_rules) (auto intro: valued_with_timestamp)
  show "until C (valued (\<lambda>(_, _, ts). P ts)) (GetMetricReplicas (replicaCalc env) cur t' name ns sel)"
    unfolding GetMetricReplicas_def calcPlainMetricReplicas_def
    by (rule until_bind [OF d(3)]; intro k until_rules) (auto intro: valued_with_timestamp)
  show "until C (valued (\<lambda>(_, _, ts). P ts)) (GetObjectMetricReplicas (replicaCalc env) cur t' name ns ref)"
    unfolding GetObjectMetricReplicas_def Let_def
    by (rule until_bind [OF d(4)]; intro k until_rules) (auto split: sum.splits)
  show "until C (valued (\<lambda>(_, _, ts). P ts)) (GetExternalMetricReplicas (replicaCalc env) cur t' name ns sel')"
    unfolding GetExternalMetricReplicas_def Let_def
    by (intro until_case_sum until_return; (rule until_bind [OF d(5)]; intro k until_rules)?) (auto split: sum.splits)
  show "until C (valued (\<lambda>(_, _, ts). P ts)) (GetExternalPerPodMetricReplicas (replicaCalc env) cur t' name ns sel')"
    unfolding GetExternalPerPodMetricReplicas_def Let_def
    by (intro until_case_sum until_return; (rule until_bind [OF d(5)]; intro k until_rules)?) (auto split: sum.splits)
qed

lemma metric_proposal_dated:
  assumes "dated_until C P env"
  shows "until (\<lambda>c. C (c_ext c)) (valued (\<lambda>(_, ts, _, _). P ts)) (metric_proposal env ns sel cur m)"
proof -
  note steps = dated_until_plain [OF assms]
  let ?ok = "until (\<lambda>c. C (c_ext c)) (valued (\<lambda>(_, ts, _, _). P ts)) :: ('a ctx, fault + proposal) state \<Rightarrow> bool"
  note d = calculations_dated [OF assms, THEN until_on_ext, THEN until_bind]
  note k = plain_steps.plain_with_proposal [OF steps]
  have fail: "?ok (fail_metric env reason event shown msg)" for reason event shown msg
    using until_any [OF plain_steps.plain_fail_metric [OF steps]]
    unfolding fail_metric_def
    by (intro until_bind [OF until_any] until_return plain_steps.plain_intros [OF steps]) simp_all
  have v: "?ok (with_proposal env reason msg r f)" if "valued (\<lambda>x. P (fst (snd (f x)))) r"
    for reason msg f and r :: "fault + 'b"
    using that fail by (auto simp: with_proposal_def split_beta intro!: until_return split: sum.splits fault.splits)
  have o: "?ok (object_proposal env ns cur src)" for src
    unfolding object_proposal_def by (intro d k v) (auto simp: valued_def)
  have p: "?ok (pods_proposal env ns sel cur src)" for src
    unfolding pods_proposal_def by (intro d k v) (auto simp: valued_def)
  have r: "?ok (resource_proposal env ns sel cur src)" for src
    unfolding resource_proposal_def Let_def
    by (intro until_case_option fail d k v) (auto simp: valued_def)
  have e: "?ok (external_proposal env ns cur src)" for src
    unfolding external_proposal_def Let_def
    by (intro until_case_option fail d k v) (auto simp: valued_def)
  show ?thesis
    unfolding metric_proposal_def Let_def
    by (intro until_if until_case_option fail until_return o p r e) simp_all
qed

section \<open>The loop as a fold\<close>

text \<open>The sequence of proposals, up to the first failure.\<close>

fun proposals :: "'w env \<Rightarrow> int32 \<Rightarrow> MetricSpec list \<Rightarrow> ('w ctx, fault + proposal list) state" where
  "proposals env currentReplicas [] = State_Monad.return (Inr [])"
| "proposals env currentReplicas (metricSpec # metricSpecs) = do {
     s \<leftarrow> deployment_selector env;
     (case s of
        Inl e \<Rightarrow> State_Monad.return (Inl e)
      | Inr sel \<Rightarrow> do {
          c \<leftarrow> State_Monad.get;
          r \<leftarrow> metric_proposal env (chpa_Namespace (c_chpa c)) sel currentReplicas metricSpec;
          (case r of
             Inl e \<Rightarrow> State_Monad.return (Inl e)
           | Inr p \<Rightarrow> do {
               ps \<leftarrow> proposals env currentReplicas metricSpecs;
               State_Monad.return (map_sum id (Cons p) ps)
             })
        })
   }"

fun take_all :: "nat \<Rightarrow> proposal list \<Rightarrow> metric_results \<Rightarrow> metric_results" where
  "take_all i [] m = m"
| "take_all i (p # ps) m = take_all (Suc i) ps (take_proposal i p m)"

lemma compute_loop_fold:
  "run_state (compute_loop env cur i ms m) c =
     apfst (map_sum id (\<lambda>ps. take_all i ps m)) (run_state (proposals env cur ms) c)"
proof (induction ms arbitrary: i m c)
  case (Cons a ms)
  show ?case
    by (auto simp: run_simps State_Monad.get_def Cons.IH sum.map_comp comp_def split: prod.splits sum.splits)
qed simp

lemma proposals_length: "results (valued (\<lambda>ps. length ps = length ms)) (proposals env cur ms)"
proof (induction ms)
  case (Cons a ms)
  have step: "results (valued (\<lambda>ps. length ps = Suc (length ms)))
          (do { ps \<leftarrow> proposals env cur ms; State_Monad.return (map_sum id (Cons p) ps) })" for p
    by (rule results_bind [OF Cons.IH]) (simp add: results_return)
  show ?case
    unfolding proposals.simps
    by (rule results_bind [OF results_any], rule results_case_sum, simp add: results_return,
        rule results_bind [OF results_any], rule results_bind [OF results_any], rule results_case_sum)
       (simp_all add: results_return step)
qed (simp add: results_return)

text \<open>A proposal's count, status.\<close>

abbreviation p_count :: "proposal \<Rightarrow> int" where "p_count p \<equiv> sint (fst p)"
abbreviation p_status :: "proposal \<Rightarrow> MetricStatus" where "p_status p \<equiv> snd (snd (snd p))"

lemma take_proposal_simps [simp]:
  "mr_statuses (take_proposal i p m) = (mr_statuses m)[i := p_status p]"
  "mr_replicas (take_proposal i p m) =
     (if mr_replicas m = 0 \<or> p_count p > sint (mr_replicas m) then fst p else mr_replicas m)"
  "mr_timestamp (take_proposal i p m) =
     (if mr_replicas m = 0 \<or> p_count p > sint (mr_replicas m) then fst (snd p) else mr_timestamp m)"
  "mr_metric (take_proposal i p m) =
     (if mr_replicas m = 0 \<or> p_count p > sint (mr_replicas m) then fst (snd (snd p)) else mr_metric m)"
  by (simp_all add: take_proposal_def Let_def split_beta)

lemma take_all_statuses:
  "length (mr_statuses m) = i + length ps \<Longrightarrow>
   mr_statuses (take_all i ps m) = take i (mr_statuses m) @ map p_status ps"
proof (induction ps arbitrary: i m)
  case (Cons p ps)
  then have i: "i < length (mr_statuses m)" by simp
  have "take (Suc i) ((mr_statuses m)[i := p_status p]) = take i (mr_statuses m) @ [p_status p]"
    using i by (simp add: take_Suc_conv_app_nth)
  with Cons show ?case by simp
qed simp

text \<open>
  The count kept.  A positive proposal is never given up for a smaller one, so that with a positive proposal it is the maximum.
  But a count of zero counts as none yet: where no proposal is positive, a zero makes the loop forget what came before it, and the
  count is the largest of the proposals behind the last zero.
\<close>

definition chosen :: "int list \<Rightarrow> int" where
  "chosen ns = (if \<exists>n\<in>set ns. 0 < n then Max (set ns)
     else (let late = takeWhile (\<lambda>n. n \<noteq> 0) (rev ns) in if late = [] then 0 else Max (set late)))"

lemma chosen_Nil: "chosen [] = 0"
  by (simp add: chosen_def)

lemma chosen_pos:
  assumes "\<exists>n\<in>set ns. 0 < n"
  shows "chosen ns = Max (set ns) \<and> 0 < chosen ns"
proof -
  obtain n where n: "n \<in> set ns" "0 < n" using assms by blast
  have "n \<le> Max (set ns)" by (rule Max_ge) (simp_all add: n(1))
  then show ?thesis using assms n(2) by (simp add: chosen_def)
qed

lemma late_neg: "\<forall>n\<in>set ns. n \<le> 0 \<Longrightarrow> n \<in> set (takeWhile (\<lambda>n. n \<noteq> (0 :: int)) (rev ns)) \<Longrightarrow> n < 0"
  by (metis order_le_neq_trans set_rev set_takeWhileD)

lemma chosen_nonpos: "\<not> (\<exists>n\<in>set ns. 0 < n) \<Longrightarrow> chosen ns \<le> 0"
  using late_neg [of ns] by (auto simp: chosen_def Let_def not_less less_imp_le)

lemma chosen_snoc: "chosen (ns @ [n]) = (if chosen ns = 0 \<or> chosen ns < n then n else chosen ns)"
proof (cases "\<exists>n\<in>set ns. 0 < n")
  case True
  then have "set ns \<noteq> {}" by auto
  then have "chosen (ns @ [n]) = max n (Max (set ns))" using True by (simp add: chosen_def)
  then show ?thesis using chosen_pos [OF True] by simp
next
  case no: False
  let ?late = "takeWhile (\<lambda>n. n \<noteq> 0) (rev ns)"
  have late: "chosen ns = (if ?late = [] then 0 else Max (set ?late))" using no by (simp add: chosen_def Let_def)
  have neg: "m < 0" if "m \<in> set ?late" for m using late_neg [OF _ that] no by (simp add: not_less)
  show ?thesis
  proof (cases "0 < n")
    case True
    have "Max (insert n (set ns)) = n" using no True by (intro Max_eqI) auto
    then show ?thesis using True chosen_nonpos [OF no] by (auto simp: chosen_def [of "ns @ [n]"])
  next
    case False
    show ?thesis
    proof (cases "n = 0")
      case True
      then show ?thesis using no chosen_nonpos [OF no] by (auto simp: chosen_def [of "ns @ [0]"] Let_def)
    next
      case nz: False
      have "chosen (ns @ [n]) = Max (insert n (set ?late))"
        using no \<open>\<not> 0 < n\<close> nz by (simp add: chosen_def insert_def [symmetric])
      moreover define m where "m = Max (set ?late)"
      ultimately have snoc: "chosen (ns @ [n]) = (if ?late = [] then n else max n m)" by simp
      have old: "chosen ns = (if ?late = [] then 0 else m)" by (simp only: late m_def)
      have "m < 0" if "?late \<noteq> []" using that neg by (simp add: m_def)
      then show ?thesis unfolding snoc old by (cases "?late = []") (simp_all add: max_def)
    qed
  qed
qed

lemma take_all_snoc: "take_all i (ps @ [p]) m = take_proposal (i + length ps) p (take_all i ps m)"
  by (induction ps arbitrary: i m) simp_all

lemma take_all_count:
  "mr_replicas m = 0 \<Longrightarrow> sint (mr_replicas (take_all i ps m)) = chosen (map p_count ps)"
proof (induction ps rule: rev_induct)
  case (snoc p ps)
  have "mr_replicas (take_all i ps m) = 0 \<longleftrightarrow> chosen (map p_count ps) = 0"
    using snoc by (simp add: sint_eq_iff [of "mr_replicas (take_all i ps m)" 0])
  then show ?case using snoc by (simp add: take_all_snoc chosen_snoc)
qed (simp add: chosen_Nil)

text \<open>What is kept is what was there or one of the proposals.\<close>

lemma take_all_origin:
  "let m' = take_all i ps m in
   (mr_replicas m' = mr_replicas m \<and> mr_timestamp m' = mr_timestamp m \<and> mr_metric m' = mr_metric m) \<or>
   (\<exists>p\<in>set ps. mr_replicas m' = fst p \<and> mr_timestamp m' = fst (snd p) \<and> mr_metric m' = fst (snd (snd p)))"
proof (induction ps arbitrary: i m)
  case (Cons p ps)
  from Cons.IH [of "Suc i" "take_proposal i p m"] show ?case
    by (auto simp: Let_def split: if_splits)
qed (simp add: Let_def)

lemma take_all_first:
  assumes "mr_replicas m = 0" "ps \<noteq> []"
  shows "\<exists>p\<in>set ps. mr_replicas (take_all i ps m) = fst p \<and> mr_timestamp (take_all i ps m) = fst (snd p) \<and>
           mr_metric (take_all i ps m) = fst (snd (snd p))"
proof -
  obtain q qs where q: "ps = q # qs" using assms(2) by (cases ps) auto
  show ?thesis using take_all_origin [of "Suc i" qs "take_proposal i q m"] assms(1) by (auto simp: q Let_def)
qed

section \<open>The whole calculation\<close>

definition no_results :: "nat \<Rightarrow> metric_results" where
  "no_results n = \<lparr>mr_replicas = 0, mr_metric = [], mr_statuses = replicate n zero_MetricStatus, mr_timestamp = 0\<rparr>"

text \<open>The value of the calculation is the fold over the proposals, or their first failure.\<close>

lemma compute_value:
  "fst (run_state (computeReplicasForMetrics env ms) c) =
     map_sum id (\<lambda>ps. take_all 0 ps (no_results (length ms)))
       (fst (run_state (proposals env (dep_Status_Replicas (c_deploy c)) ms) c))"
proof -
  obtain r c' where "run_state (proposals env (dep_Status_Replicas (c_deploy c)) ms) c = (r, c')"
    by (metis surj_pair)
  then show ?thesis
    by (cases r) (simp_all add: computeReplicasForMetrics_def State_Monad.get_def compute_loop_fold no_results_def
        split: prod.splits)
qed

lemma compute_statuses:
  assumes "length ps = n"
  shows "mr_statuses (take_all 0 ps (no_results n)) = map p_status ps"
  using assms by (simp add: take_all_statuses no_results_def)

lemma compute_count:
  "sint (mr_replicas (take_all 0 ps (no_results n))) = chosen (map p_count ps)"
  by (rule take_all_count) (simp add: no_results_def)

text \<open>What \<open>reconcileCHPA\<close> makes of it is the largest proposal, or zero.\<close>

lemma chosen_max: "ns \<noteq> [] \<Longrightarrow> max 0 (chosen ns) = max 0 (Max (set ns))"
proof (cases "\<exists>n\<in>set ns. 0 < n")
  case False
  moreover assume "ns \<noteq> []"
  ultimately have "Max (set ns) \<le> 0" by (simp add: not_less)
  then show ?thesis using chosen_nonpos [OF False] by simp
qed (use chosen_pos in simp)

lemma desire_count: "sint (fst (metric_desire now m)) = max 0 (sint (mr_replicas m))"
  by (simp add: metric_desire_def)

lemma proposals_calm:
  assumes "calm_calculator (replicaCalc env)" "list_all metric_ok ms"
  shows "results calm (proposals env cur ms)"
  using assms(2)
proof (induction ms)
  case (Cons a ms)
  have s: "results calm (deployment_selector env)"
    unfolding deployment_selector_def Let_def
    by (intro results_bind [OF results_any] results_case_option results_case_sum results_return) simp_all
  have step: "results calm (do { ps \<leftarrow> proposals env cur ms; State_Monad.return (map_sum id (Cons p) ps) })" for p
    by (rule results_bind [of calm]) (use Cons in \<open>simp_all add: results_return\<close>)
  have m: "results calm (metric_proposal env ns sel cur a)" for ns sel
    using metric_proposal_calm [OF assms(1)] Cons.prems by simp
  show ?case
    unfolding proposals.simps
    by (rule results_bind [OF s], rule results_case_sum, simp add: results_return,
        rule results_bind [OF results_any], rule results_bind [OF m], rule results_case_sum)
       (simp_all add: results_return step)
qed (simp add: results_return)

lemma compute_calm:
  assumes "calm_calculator (replicaCalc env)" "list_all metric_ok ms"
  shows "results calm (computeReplicasForMetrics env ms)"
proof (rule resultsI, unfold compute_value)
  fix c :: "'a ctx"
  show "calm (map_sum id (\<lambda>ps. take_all 0 ps (no_results (length ms)))
      (fst (run_state (proposals env (dep_Status_Replicas (c_deploy c)) ms) c)))"
    using resultsD [OF proposals_calm [OF assms]] by simp
qed

lemma proposals_dated:
  assumes "dated_until C P env"
  shows "until (\<lambda>c. C (c_ext c)) (valued (list_all (\<lambda>p. P (fst (snd p))))) (proposals env cur ms)"
proof (induction ms)
  case (Cons a ms)
  note steps = dated_until_steps [OF assms]
  note k = steps.step_intros [OF steps] steps.step_metric_proposal [OF steps] until_back [OF Cons.IH]
  have step: "until (\<lambda>c. C (c_ext c)) (valued (list_all (\<lambda>p. P (fst (snd p)))))
       (do { ps \<leftarrow> proposals env cur ms; State_Monad.return (map_sum id (Cons p) ps) })"
    if "P (fst (snd p))" for p
    by (rule until_bind [OF Cons.IH]; intro k until_return) (use that in simp)
  have rest: "until (\<lambda>c. C (c_ext c)) (valued (list_all (\<lambda>p. P (fst (snd p)))))
       (case r of Inl e \<Rightarrow> State_Monad.return (Inl e)
        | Inr p \<Rightarrow> do { ps \<leftarrow> proposals env cur ms; State_Monad.return (map_sum id (Cons p) ps) })"
    if "valued (\<lambda>(_, ts, _, _). P ts) r" for r
    using that by (intro until_case_sum until_return step) auto
  show ?case
    unfolding proposals.simps
    by (intro until_bind [OF until_any [OF steps.step_deployment_selector [OF steps]]] until_case_sum until_return
        until_bind [OF until_any] until_bind [OF metric_proposal_dated [OF assms]] rest k) simp_all
qed (simp add: until_return)

lemma compute_later:
  assumes "dated_until C P env" "C (c_ext (snd (run_state (computeReplicasForMetrics env ms) c)))"
  shows "C (c_ext (snd (run_state (proposals env (dep_Status_Replicas (c_deploy c)) ms) c)))"
proof -
  note steps = dated_until_steps [OF assms(1)]
  obtain r c' where r: "run_state (proposals env (dep_Status_Replicas (c_deploy c)) ms) c = (r, c')"
    by (metis surj_pair)
  show ?thesis
  proof (cases r)
    case (Inl e)
    then show ?thesis
      using assms(2) r by (simp add: computeReplicasForMetrics_def State_Monad.get_def compute_loop_fold)
  next
    case (Inr ps)
    then show ?thesis
      using assms(2) r framesD [OF plain_steps.plain_setCondition [OF dated_until_plain [OF assms(1)]], of c']
      by (simp add: computeReplicasForMetrics_def State_Monad.get_def compute_loop_fold backward_def split: prod.splits)
        (metis snd_conv)
  qed
qed

text \<open>A count that is not zero comes with the timestamp of a metric source.\<close>

lemma compute_dated:
  assumes "dated_until C P env"
  shows "until (\<lambda>c. C (c_ext c)) (valued (\<lambda>m. mr_replicas m = 0 \<or> P (mr_timestamp m))) (computeReplicasForMetrics env ms)"
  unfolding until_def
proof
  fix c :: "'a ctx"
  note steps = dated_until_steps [OF assms]
  let ?c' = "snd (run_state (computeReplicasForMetrics env ms) c)"
  let ?r = "fst (run_state (proposals env (dep_Status_Replicas (c_deploy c)) ms) c)"
  have "valued (list_all (\<lambda>p. P (fst (snd p)))) ?r" if "C (c_ext ?c')"
    using proposals_dated [OF assms, of "dep_Status_Replicas (c_deploy c)" ms] that compute_later [OF assms, of ms c]
    by (auto simp: until_def wp_def)
  then have "mr_replicas (take_all 0 ps (no_results n)) = 0 \<or> P (mr_timestamp (take_all 0 ps (no_results n)))"
    if "?r = Inr ps" "C (c_ext ?c')" for ps n
    using that take_all_origin [of 0 ps "no_results n"] by (auto simp: list_all_iff Let_def no_results_def)
  then show "wp (computeReplicasForMetrics env ms)
      (\<lambda>r t. C (c_ext t) \<longrightarrow> C (c_ext c) \<and> valued (\<lambda>m. mr_replicas m = 0 \<or> P (mr_timestamp m)) r) c"
    using framesD [OF steps.step_compute [OF steps, of ms], of c]
    by (auto simp: wp_def compute_value backward_def) (simp add: valued_def)
qed

section \<open>The order of the metrics\<close>

lemma proposals_append:
  "run_state (proposals env cur (xs @ ys)) c =
     (case run_state (proposals env cur xs) c of
        (Inl e, c') \<Rightarrow> (Inl e, c')
      | (Inr ps, c') \<Rightarrow> apfst (map_sum id (append ps)) (run_state (proposals env cur ys) c'))"
proof (induction xs arbitrary: c)
  case Nil
  have "map_sum id (append []) = (\<lambda>r :: fault + proposal list. r)"
    by (intro ext) (simp add: map_sum_def id_def split: sum.splits)
  then show ?case by (simp add: apfst_def map_prod_def split: prod.splits)
next
  case (Cons x xs)
  have "map_sum (\<lambda>x. x) (\<lambda>qs. p # ps @ qs) r = map_sum id (append (p # ps)) r" for p ps and r :: "fault + proposal list"
    by (cases r) simp_all
  then show ?case
    by (auto simp: Cons.IH State_Monad.get_def sum.map_comp comp_def apfst_def map_prod_def split: prod.splits sum.splits)
qed

lemma compute_failure:
  assumes "run_state (proposals env (dep_Status_Replicas (c_deploy c)) ms) c = (Inl e, c')"
  shows "run_state (computeReplicasForMetrics env ms) c = (Inl e, c')"
  using assms by (simp add: computeReplicasForMetrics_def State_Monad.get_def compute_loop_fold)

end
