(* ===== verification/StatusWrites.thy ===== *)
theory StatusWrites
  imports Proposals
begin

text \<open>
  The writes of a reconcile, one by one: the update of the Deployment and the count it corrects, the status as
  \<open>setStatus\<close> rebuilds it, the update of the status, and the path of a failure, on which only the current count
  is stored.
\<close>

section \<open>The Deployment\<close>

text \<open>The count a Deployment outside the bounds is set to, without looking at any metric.\<close>

definition corrective :: "CHPASpec \<Rightarrow> int32 \<Rightarrow> int32 option" where
  "corrective spec cur =
    (if sint cur > sint (MaxReplicas spec) then Some (MaxReplicas spec)
     else if (case MinReplicas spec of None \<Rightarrow> False | Some m \<Rightarrow> sint cur < sint m) then MinReplicas spec
     else if cur = 0 then Some 1 else None)"

text \<open>The Deployment as it is written.\<close>

definition scaled_to :: "Deployment \<Rightarrow> int32 \<Rightarrow> Deployment" where
  "scaled_to dep n = dep\<lparr>dep_Spec_Replicas := Some n\<rparr>"

section \<open>Frames of the pure functions\<close>

text \<open>The scaling decisions read the specification and the time of the last scale only.\<close>

lemma convert_cong:
  "Spec chpa' = Spec chpa \<Longrightarrow>
   convertDesiredReplicasWithRules chpa' = convertDesiredReplicasWithRules chpa"
  by (intro ext) (simp add: convertDesiredReplicasWithRules_def calculateScaleUpLimit_def)

lemma normalized_cong: "Spec chpa' = Spec chpa \<Longrightarrow> normalized chpa' = normalized chpa"
  by (intro ext) (simp add: normalized_def convert_cong [of chpa' chpa])

lemma shouldScale_cong:
  "Spec chpa' = Spec chpa \<Longrightarrow> LastScaleTime (Status chpa') = LastScaleTime (Status chpa) \<Longrightarrow>
   shouldScale chpa' = shouldScale chpa"
  by (intro ext) (cases "LastScaleTime (Status chpa)"; simp add: shouldScale_cases)

section \<open>The status updates\<close>

lemma wp_updateStatusIfNeeded:
  "wp (updateStatusIfNeeded env old) Q c =
     (if Status (c_chpa c) = old then Q None c
      else wp (update_chpa env (c_chpa c))
             (\<lambda>r w. Q (fst r) (c\<lparr>c_actions := c_actions c @ [UpdateCHPA (c_chpa c)], c_ext := w, c_chpa := snd r\<rparr>))
             (c_ext c))"
  by (auto simp: updateStatusIfNeeded_def updateCHPA_def status_DeepEqual_def wp_simps split_beta)

lemma wp_setStatus_False:
  "wp (setStatus env cur des ms False) Q c =
     Q () (c\<lparr>c_chpa := (c_chpa c)\<lparr>Status := \<lparr>ObservedGeneration = None,
       LastScaleTime = LastScaleTime (Status (c_chpa c)), CurrentReplicas = cur, DesiredReplicas = des,
       CurrentMetrics = ms, Conditions = Conditions (Status (c_chpa c))\<rparr>\<rparr>\<rparr>)"
  by (simp add: setStatus_def wp_simps)

text \<open>\<open>wrote old c c' x\<close>: what an update of the status adds to the writes.\<close>

definition wrote :: "CHPAStatus \<Rightarrow> 'w ctx \<Rightarrow> 'w ctx \<Rightarrow> CHPA \<Rightarrow> bool" where
  "wrote old c c' x \<longleftrightarrow>
     writes (c_actions c') = writes (c_actions c) @ (if Status x = old then [] else [UpdateCHPA x])"

lemma wp_update_wrote:
  assumes "\<And>e c'. wrote old c c' (c_chpa c) \<Longrightarrow> Q e c'"
  shows "wp (updateStatusIfNeeded env old) Q c"
  unfolding wp_updateStatusIfNeeded using assms by (simp add: wp_def wrote_def)

lemma wrote_quiet: "wrote old c c' x \<Longrightarrow> quiet c' c'' \<Longrightarrow> wrote old c c'' x"
  by (simp add: wrote_def quietD)

text \<open>The path of a failure: the current count is stored, then an event or a condition is added.\<close>

definition with_current :: "CHPA \<Rightarrow> int32 \<Rightarrow> CHPA \<Rightarrow> bool" where
  "with_current chpa cur x \<longleftrightarrow> (\<exists>cs. x = chpa\<lparr>Status := \<lparr>ObservedGeneration = None,
     LastScaleTime = LastScaleTime (Status chpa), CurrentReplicas = cur, DesiredReplicas = DesiredReplicas (Status chpa),
     CurrentMetrics = CurrentMetrics (Status chpa), Conditions = cs\<rparr>\<rparr>)"

lemma with_currentD:
  "with_current chpa cur x \<Longrightarrow> x = chpa\<lparr>Status := Status x\<rparr> \<and> CurrentReplicas (Status x) = cur \<and>
     LastScaleTime (Status x) = LastScaleTime (Status chpa)"
  by (auto simp: with_current_def)

lemma wp_setCurrent:
  assumes "\<And>c'. c_deploy c' = c_deploy c \<Longrightarrow> writes (c_actions c') = writes (c_actions c) \<Longrightarrow>
             with_current (c_chpa c) cur (c_chpa c') \<Longrightarrow> Q () c'"
  shows "wp (setCurrentReplicasInStatus env cur) Q c"
  unfolding setCurrentReplicasInStatus_def wp_simps wp_setStatus_False
  by (rule assms) (auto simp: with_current_def)

lemma wp_fail_status:
  assumes "\<And>e c'. (\<And>c''. quiet c' c'' \<Longrightarrow> Q c'') \<Longrightarrow> K e c'"
    "\<And>x c'. with_current (c_chpa c) cur x \<Longrightarrow> wrote old c c' x \<Longrightarrow> Q c'"
  shows "wp (setCurrentReplicasInStatus (env :: 'w env) cur) (\<lambda>_. wp (updateStatusIfNeeded env old) K) c"
proof (rule wp_setCurrent)
  fix c1 :: "'w ctx" assume c1: "writes (c_actions c1) = writes (c_actions c)" "with_current (c_chpa c) cur (c_chpa c1)"
  show "wp (updateStatusIfNeeded env old) K c1"
  proof (rule wp_update_wrote, rule assms(1))
    fix e and c2 c3 :: "'w ctx" assume "wrote old c1 c2 (c_chpa c1)" "quiet c2 c3"
    then have "wrote old c1 c3 (c_chpa c1)" by (rule wrote_quiet)
    then show "Q c3" using c1 by (intro assms(2) [OF c1(2)]) (simp add: wrote_def)
  qed
qed

text \<open>The status as \<open>setStatus\<close> rebuilds it; the time is given after a rescale only.\<close>

definition rebuilt :: "int32 \<Rightarrow> int32 \<Rightarrow> MetricStatus list \<Rightarrow> gotime option \<Rightarrow> CHPAStatus \<Rightarrow> CHPAStatus" where
  "rebuilt cur des ms t s =
     \<lparr>ObservedGeneration = None, LastScaleTime = (if t = None then LastScaleTime s else t), CurrentReplicas = cur,
      DesiredReplicas = des, CurrentMetrics = ms, Conditions = Conditions s\<rparr>"

lemma with_current_conditions:
  "with_current (chpa\<lparr>Status := (Status chpa)\<lparr>Conditions := cs\<rparr>\<rparr>) cur x = with_current chpa cur x"
  by (simp add: with_current_def)

lemma quiet_conditions:
  "quiet c c' \<Longrightarrow> c_chpa c = chpa\<lparr>Status := (Status chpa)\<lparr>Conditions := cs\<rparr>\<rparr> \<Longrightarrow>
   \<exists>cs'. c_chpa c' = chpa\<lparr>Status := (Status chpa)\<lparr>Conditions := cs'\<rparr>\<rparr>"
  by (auto simp: quiet_def)

section \<open>A failed calculation\<close>

text \<open>A failed calculation: the current count is stored, nothing is decided.\<close>

lemma wp_metrics_failure:
  fixes c :: "'w ctx"
  assumes "fst (run_state (computeReplicasForMetrics env (Metrics (Spec (c_chpa c)))) c) = Inl (Err e)"
  shows "wp (metrics_decision env old cur now)
           (\<lambda>r c'. r = Inr None \<and> (\<exists>x. with_current (c_chpa c) cur x \<and> wrote old c c' x)) c"
proof -
  obtain c1 where c1: "run_state (computeReplicasForMetrics env (Metrics (Spec (c_chpa c)))) c = (Inl (Err e), c1)"
    using assms by (metis prod.collapse)
  have q: "quiet c c1" using framesD [OF quiet_compute [of env "Metrics (Spec (c_chpa c))"], of c] by (simp add: c1)
  have run: "wp (computeReplicasForMetrics env (Metrics (Spec (c_chpa c)))) K c = K (Inl (Err e)) c1" for K
    by (simp add: wp_def c1)
  show ?thesis
    unfolding metrics_decision_def wp_simps run sum.case fault.case
  proof (rule wp_fail_status [where Q = "\<lambda>c'. (Inr None :: fault + decision option) = Inr None \<and> (\<exists>x. with_current (c_chpa c) cur x \<and> wrote old c c' x)"],
      goal_cases)
    case (1 a c')
    then show ?case
      by (cases a) (simp_all add: frames_wp [OF quiet_record_event] frames_wp [OF quiet_failed_update])
  next
    case (2 x c')
    then show ?case using q by (auto simp: with_current_def wrote_def quiet_def intro!: exI [of _ x])
  qed
qed

end
