(* ===== verification/ReferenceDecision.thy ===== *)
theory ReferenceDecision
  imports StatusWrites
begin

text \<open>
  A reference for \<open>reconcileCHPA\<close> as a whole.  \<open>verdict\<close> is a pure function of the CHPA and the Deployment
  that were read, of the time, and of the outcome of the calculation over the metrics.  \<open>reports\<close> are the conditions
  the decision sets, \<open>verdict_writes\<close> what is written for a verdict: the status to the last field, with the conditions and the
  time of the scale as the server and the clock answer in the world in which the code asks them.

  Proved: the code follows the reference exactly, with the same result and the same writes.  So where the abstract
  specification of the theory ReconcileFacts tells what may be written, this tells what is.
\<close>

section \<open>Conditions and the clock\<close>

text \<open>The conditions a stretch of the code sets, one after the other: type, status, reason and message.  The clock is read where
  the status of a condition changes.\<close>

type_synonym report = "string \<times> string \<times> string \<times> string"

fun set_all :: "'w env \<Rightarrow> report list \<Rightarrow> Condition list \<Rightarrow> 'w \<Rightarrow> Condition list \<times> 'w" where
  "set_all env [] cs w = (cs, w)"
| "set_all env ((t, st, r, m) # rs) cs w =
     (let (cs', w') = run_state (setConditionInList (time_now env) cs t st r m) w in set_all env rs cs' w')"

text \<open>The state after them.\<close>

definition reported :: "'w env \<Rightarrow> report list \<Rightarrow> 'w ctx \<Rightarrow> 'w ctx" where
  "reported env rs c =
     (let (cs, w) = set_all env rs (Conditions (Status (c_chpa c))) (c_ext c)
      in c\<lparr>c_ext := w, c_chpa := (c_chpa c)\<lparr>Status := (Status (c_chpa c))\<lparr>Conditions := cs\<rparr>\<rparr>\<rparr>)"

lemma set_all_append:
  "set_all env (qs @ rs) cs w = (let (cs', w') = set_all env qs cs w in set_all env rs cs' w')"
  by (induction env qs cs w rule: set_all.induct) (simp_all split: prod.splits)

lemma reported_simps [simp]:
  "c_deploy (reported env rs c) = c_deploy c" "c_actions (reported env rs c) = c_actions c"
  "Spec (c_chpa (reported env rs c)) = Spec (c_chpa c)"
  "LastScaleTime (Status (c_chpa (reported env rs c))) = LastScaleTime (Status (c_chpa c))"
  "reported env [] c = c"
  "reported env rs (reported env qs c) = reported env (qs @ rs) c"
  "reported env rs (c\<lparr>c_actions := as\<rparr>) = (reported env rs c)\<lparr>c_actions := as\<rparr>"
  "reported env rs (c\<lparr>c_deploy := d\<rparr>) = (reported env rs c)\<lparr>c_deploy := d\<rparr>"
  by (simp_all add: reported_def set_all_append split: prod.splits)

lemma reported_conditions:
  "c_chpa c = chpa\<lparr>Status := (Status chpa)\<lparr>Conditions := cs\<rparr>\<rparr> \<Longrightarrow>
   \<exists>cs'. c_chpa (reported env rs c) = chpa\<lparr>Status := (Status chpa)\<lparr>Conditions := cs'\<rparr>\<rparr>"
  by (auto simp: reported_def split: prod.splits)

lemma on_ext_setCondition:
  "run_state (setConditionInList (on_ext now) cs t st r m) c =
     (let (cs', w) = run_state (setConditionInList now cs t st r m) (c_ext c) in (cs', c\<lparr>c_ext := w\<rparr>))"
  by (auto simp: setConditionInList_def on_ext_def Let_def split: prod.splits option.splits)

lemma wp_setCondition_exact: "wp (setCondition env t st r m) Q c = Q () (reported env [(t, st, r, m)] c)"
  unfolding setCondition_def wp_bind wp_get wp_modify_status
  by (simp add: wp_def on_ext_setCondition reported_def split: prod.splits)

lemma wp_record_event: "wp (record_event ty rs msg) Q c = Q () (c\<lparr>c_actions := c_actions c @ [Event ty rs msg]\<rparr>)"
  by (simp add: record_event_def wp_act)

section \<open>The reference\<close>

datatype verdict =
    Fails
  | Stops
  | Keeps "MetricStatus list"
  | Scales int32 "MetricStatus list"

text \<open>What the metrics ask for and as of when, and when a rescale is due: the count changes, and the last scale, of either
  direction, is longer ago than the window of the direction of the change.\<close>

definition wanted :: "gotime \<Rightarrow> metric_results \<Rightarrow> int32 \<times> gotime" where
  "wanted now m = (if 0 < sint (mr_replicas m) then (mr_replicas m, mr_timestamp m) else (0, now))"

definition due :: "CHPA \<Rightarrow> int32 \<Rightarrow> int32 \<Rightarrow> gotime \<Rightarrow> bool" where
  "due chpa cur n timestamp \<longleftrightarrow> n \<noteq> cur \<and>
     \<not> in_window chpa (if sint n < sint cur then DownscaleForbiddenWindowSeconds (Spec chpa)
                      else UpscaleForbiddenWindowSeconds (Spec chpa)) timestamp"

lemma wanted_desire: "metric_desire now m = (d, ts, name) \<Longrightarrow> wanted now m = (d, ts)"
  by (auto simp: metric_desire_def wanted_def split: if_splits)

lemma due_eq: "due = shouldScale"
  by (intro ext) (simp add: due_def in_window_def shouldScale_cases not_le split: option.split)

definition metrics_verdict :: "CHPA \<Rightarrow> int32 \<Rightarrow> gotime \<Rightarrow> fault + metric_results \<Rightarrow> verdict" where
  "metrics_verdict chpa cur now r =
     (case r of
        Inl (Panic _) \<Rightarrow> Fails
      | Inl (Err _) \<Rightarrow> Stops
      | Inr m \<Rightarrow>
          (let (demand, timestamp) = wanted now m; n = normalized chpa cur demand
           in if due chpa cur n timestamp then Scales n (mr_statuses m) else Keeps (mr_statuses m)))"

definition verdict :: "CHPA \<Rightarrow> Deployment \<Rightarrow> gotime \<Rightarrow> fault + metric_results \<Rightarrow> verdict" where
  "verdict chpa dep now r =
     (case dep_Spec_Replicas dep of
        None \<Rightarrow> Fails
      | Some k \<Rightarrow>
          if k = 0 then Keeps []
          else (case corrective (Spec chpa) (dep_Status_Replicas dep) of
                  Some n \<Rightarrow> Scales n []
                | None \<Rightarrow> metrics_verdict chpa (dep_Status_Replicas dep) now r))"

text \<open>The conditions that go with it.\<close>

definition asks_metrics :: "CHPA \<Rightarrow> Deployment \<Rightarrow> bool" where
  "asks_metrics chpa dep \<longleftrightarrow> dep_Spec_Replicas dep \<notin> {None, Some 0} \<and> corrective (Spec chpa) (dep_Status_Replicas dep) = None"

definition limit_report :: "CHPA \<Rightarrow> int32 \<Rightarrow> int32 \<Rightarrow> report" where
  "limit_report chpa cur demand =
     (let (n, condition, reason) = convertDesiredReplicasWithRules chpa cur demand
            (case MinReplicas (Spec chpa) of Some m \<Rightarrow> m | None \<Rightarrow> 0) (MaxReplicas (Spec chpa))
      in (''ScalingLimited'', if n = demand then ''False'' else ''True'', condition, reason))"

definition backoff_reports :: "CHPA \<Rightarrow> gotime \<Rightarrow> report list" where
  "backoff_reports chpa timestamp =
     (let down = in_window chpa (DownscaleForbiddenWindowSeconds (Spec chpa)) timestamp;
          up = in_window chpa (UpscaleForbiddenWindowSeconds (Spec chpa)) timestamp
      in (if down then [(''AbleToScale'', ''False'', ''BackoffDownscale'',
                         ''the time since the previous scale is still within the downscale forbidden window'')] else []) @
         (if down \<and> up then [(''AbleToScale'', ''False'', ''BackoffBoth'',
            ''the time since the previous scale is still within both the downscale and upscale forbidden windows'')]
          else if up then [(''AbleToScale'', ''False'', ''BackoffUpscale'',
            ''the time since the previous scale is still within the upscale forbidden window'')]
          else if down then []
          else [(''AbleToScale'', ''True'', ''ReadyForNewScale'',
            ''the last scale time was sufficiently old as to warrant a new scale'')]))"

definition reports :: "CHPA \<Rightarrow> Deployment \<Rightarrow> gotime \<Rightarrow> fault + metric_results \<Rightarrow> report list" where
  "reports chpa dep now r =
     (if dep_Spec_Replicas dep = Some 0
      then [(''ScalingActive'', ''False'', ''ScalingDisabled'', ''scaling is disabled since the replica count of the target is zero'')]
      else if asks_metrics chpa dep then
        (case r of
           Inl _ \<Rightarrow> []
         | Inr m \<Rightarrow> (let (demand, timestamp) = wanted now m
                     in limit_report chpa (dep_Status_Replicas dep) demand # backoff_reports chpa timestamp))
      else [])"

lemma wp_backoff_exact:
  "wp (backoff_conditions env ts) Q c = Q () (reported env (backoff_reports (c_chpa c) ts) c)"
proof (cases "LastScaleTime (Status (c_chpa c))")
  case None
  then show ?thesis unfolding backoff_conditions_def wp_simps by (simp add: wp_simps wp_setCondition_exact backoff_reports_def in_window_def)
next
  case (Some t)
  then show ?thesis unfolding backoff_conditions_def wp_simps Some option.case Let_def
    by (auto simp: wp_simps wp_setCondition_exact backoff_reports_def in_window_def add_before_seconds not_less Some Let_def)
qed

lemma wp_normalize_exact:
  "wp (normalizeDesiredReplicas env cur d) Q c = Q (normalized (c_chpa c) cur d) (reported env [limit_report (c_chpa c) cur d] c)"
  unfolding normalizeDesiredReplicas_def wp_simps normalized_def limit_report_def
  by (simp add: wp_simps wp_setCondition_exact Let_def split: prod.splits)

section \<open>Carrying it out\<close>

fun deployment_writes :: "Deployment \<Rightarrow> verdict \<Rightarrow> action list" where
  "deployment_writes dep (Scales n ms) = [UpdateDeployment (scaled_to dep n)]"
| "deployment_writes dep v = []"

text \<open>The status that is stored in the end, from the conditions and the world the decision left.\<close>

fun final_status :: "'w env \<Rightarrow> verdict \<Rightarrow> CHPAStatus \<Rightarrow> Deployment \<Rightarrow> Condition list \<Rightarrow> 'w \<Rightarrow> CHPAStatus" where
  "final_status env Fails s dep cs w = s"
| "final_status env Stops s dep cs w =
     (rebuilt (dep_Status_Replicas dep) (DesiredReplicas s) (CurrentMetrics s) None s)\<lparr>Conditions := cs\<rparr>"
| "final_status env (Keeps ms) s dep cs w =
     (rebuilt (dep_Status_Replicas dep) (dep_Status_Replicas dep) ms None s)\<lparr>Conditions := cs\<rparr>"
| "final_status env (Scales n ms) s dep cs w =
     (case run_state (update_deployment env (scaled_to dep n)) w of
        ((Some err, cell), w') \<Rightarrow>
          (rebuilt (dep_Status_Replicas dep) (DesiredReplicas s) (CurrentMetrics s) None s)\<lparr>Conditions :=
             fst (set_all env [(''AbleToScale'', ''False'', ''FailedUpdateScale'',
               ''the HPA controller was unable to update the target scale: '' @ err)] cs w')\<rparr>
      | ((None, cell), w') \<Rightarrow>
          (let (cs', w'') = set_all env [(''AbleToScale'', ''True'', ''SucceededRescale'',
                 ''the HPA controller was able to update the target scale to '' @ itoa (sint cell))] cs w'
           in (rebuilt (dep_Status_Replicas dep) cell ms (Some (fst (run_state (time_now env) w''))) s)\<lparr>Conditions := cs'\<rparr>))"

definition status_writes :: "verdict \<Rightarrow> CHPA \<Rightarrow> CHPAStatus \<Rightarrow> action list" where
  "status_writes v chpa st = (if v = Fails \<or> st = Status chpa then [] else [UpdateCHPA (chpa\<lparr>Status := st\<rparr>)])"

definition verdict_writes :: "'w env \<Rightarrow> CHPA \<Rightarrow> Deployment \<Rightarrow> verdict \<Rightarrow> Condition list \<Rightarrow> 'w \<Rightarrow> action list" where
  "verdict_writes env chpa dep v cs w = deployment_writes dep v @ status_writes v chpa (final_status env v (Status chpa) dep cs w)"

lemma wp_apply_exact:
  fixes c :: "'w ctx"
  assumes chpa: "c_chpa c = chpa\<lparr>Status := (Status chpa)\<lparr>Conditions := cs\<rparr>\<rparr>" and dep: "c_deploy c = dep" "cur = dep_Status_Replicas dep"
    and v: "v = (if d_rescale d then Scales (d_desiredReplicas d) (d_metricStatuses d) else Keeps (d_metricStatuses d))"
  shows "wp (apply_decision env (Status chpa) cur d)
           (\<lambda>_ c'. writes (c_actions c') = writes (c_actions c) @ verdict_writes env chpa dep v cs (c_ext c)) c"
proof (cases "d_rescale d")
  case False
  show ?thesis unfolding apply_decision_def if_not_P [OF False] finish_status_def wp_simps wp_setStatus_False
    by (rule wp_update_wrote)
       (use False in \<open>simp add: wrote_def chpa dep v verdict_writes_def status_writes_def rebuilt_def\<close>)
next
  case True
  obtain e cell w where u: "run_state (update_deployment env (scaled_to dep (d_desiredReplicas d))) (c_ext c) = ((e, cell), w)"
    by (metis surj_pair)
  have run: "wp (rescale_deployment env (d_desiredReplicas d)) Q c =
      Q (e, cell) (c\<lparr>c_deploy := scaled_to dep (d_desiredReplicas d),
         c_actions := c_actions c @ [UpdateDeployment (scaled_to dep (d_desiredReplicas d))], c_ext := w\<rparr>)" for Q
    by (simp add: rescale_deployment_def wp_simps dep flip: scaled_to_def) (simp add: wp_def u)
  show ?thesis
  proof (cases e)
    case None
    show ?thesis
      unfolding apply_decision_def if_P [OF True] wp_bind run None option.case prod.case wp_setCondition_exact wp_record_event
        finish_status_def setStatus_def wp_simps if_True wp_on_ext [of "time_now env"]
      by (subst wp_def) (rule wp_update_wrote; use True in \<open>simp add: wrote_def reported_def chpa dep v verdict_writes_def
          status_writes_def rebuilt_def u None split: prod.splits\<close>)
  next
    case (Some err)
    show ?thesis
      unfolding apply_decision_def if_P [OF True] wp_bind run Some option.case prod.case wp_setCondition_exact wp_record_event
        setCurrentReplicasInStatus_def wp_get wp_setStatus_False
    proof (rule wp_update_wrote, goal_cases)
      case (1 a c')
      have "writes (c_actions c') = writes (c_actions c) @ verdict_writes env chpa dep v cs (c_ext c)"
        using 1 True by (simp add: wrote_def reported_def chpa dep v verdict_writes_def
          status_writes_def rebuilt_def u Some split: prod.splits)
      then show ?case
        by (cases a) (auto simp: wp_return quietD intro: frames_wp [OF quiet_failed_update])
    qed
  qed
qed

text \<open>\<open>performed\<close>: what is written for a verdict from some conditions and some world.\<close>

definition performed :: "'w env \<Rightarrow> CHPA \<Rightarrow> Deployment \<Rightarrow> verdict \<Rightarrow> action list \<Rightarrow> bool" where
  "performed env chpa dep v ws \<longleftrightarrow> (\<exists>cs w. ws = verdict_writes env chpa dep v cs w)"

section \<open>Deciding\<close>

text \<open>The error the deferred \<open>recover\<close> makes of a panic.\<close>

definition failure :: "CHPA \<Rightarrow> Deployment \<Rightarrow> fault + metric_results \<Rightarrow> string option" where
  "failure chpa dep r =
     (if dep_Spec_Replicas dep = None
      then Some ''RunTime error in reconcileCHPA: runtime error: invalid memory address or nil pointer dereference''
      else if asks_metrics chpa dep then
        (case r of Inl (Panic p) \<Rightarrow> Some (''RunTime error in reconcileCHPA: '' @ p) | _ \<Rightarrow> None)
      else None)"

lemma metrics_verdict_cong:
  "Spec chpa' = Spec chpa \<Longrightarrow> LastScaleTime (Status chpa') = LastScaleTime (Status chpa) \<Longrightarrow>
   metrics_verdict chpa' = metrics_verdict chpa"
  by (intro ext) (simp only: metrics_verdict_def due_eq normalized_cong [of chpa' chpa] shouldScale_cong [of chpa' chpa])

lemma verdict_cong:
  "Spec chpa' = Spec chpa \<Longrightarrow> LastScaleTime (Status chpa') = LastScaleTime (Status chpa) \<Longrightarrow> verdict chpa' = verdict chpa"
  by (intro ext) (simp only: verdict_def metrics_verdict_cong [of chpa' chpa])

lemma asks_metrics_cong: "Spec chpa' = Spec chpa \<Longrightarrow> asks_metrics chpa' = asks_metrics chpa"
  by (intro ext) (simp add: asks_metrics_def)

lemma limit_report_cong: "Spec chpa' = Spec chpa \<Longrightarrow> limit_report chpa' = limit_report chpa"
  by (intro ext) (simp add: limit_report_def convert_cong [of chpa' chpa])

lemma backoff_reports_cong:
  "Spec chpa' = Spec chpa \<Longrightarrow> LastScaleTime (Status chpa') = LastScaleTime (Status chpa) \<Longrightarrow>
   backoff_reports chpa' = backoff_reports chpa"
  by (intro ext) (simp add: backoff_reports_def in_window_def)

lemma reports_cong:
  "Spec chpa' = Spec chpa \<Longrightarrow> LastScaleTime (Status chpa') = LastScaleTime (Status chpa) \<Longrightarrow> reports chpa' = reports chpa"
  by (intro ext) (simp only: reports_def asks_metrics_cong [of chpa' chpa] limit_report_cong [of chpa' chpa]
      backoff_reports_cong [of chpa' chpa])

text \<open>The state a decision leaves, up to events.\<close>

definition same_state :: "'w ctx \<Rightarrow> 'w ctx \<Rightarrow> bool" where
  "same_state c c' \<longleftrightarrow> c_chpa c' = c_chpa c \<and> c_deploy c' = c_deploy c \<and> c_ext c' = c_ext c \<and> writes (c_actions c') = writes (c_actions c)"

definition left_by :: "'w env \<Rightarrow> CHPA \<Rightarrow> Deployment \<Rightarrow> gotime \<Rightarrow> fault + metric_results \<Rightarrow> 'w ctx \<Rightarrow> 'w ctx \<Rightarrow> 'w ctx" where
  "left_by env chpa dep now r c1 c2 = reported env (reports chpa dep now r) (if asks_metrics chpa dep then c2 else c1)"

definition decided :: "'w env \<Rightarrow> CHPA \<Rightarrow> Deployment \<Rightarrow> verdict \<Rightarrow> string option \<Rightarrow> 'w ctx \<Rightarrow> fault + decision option \<Rightarrow> 'w ctx \<Rightarrow> bool" where
  "decided env chpa dep v err c3 res c' \<longleftrightarrow>
     (case v of
        Fails \<Rightarrow> (\<exists>p. res = Inl (Panic p) \<and> err = Some (''RunTime error in reconcileCHPA: '' @ p)) \<and>
          writes (c_actions c') = writes (c_actions c3)
      | Stops \<Rightarrow> res = Inr None \<and> err = None \<and> writes (c_actions c') = writes (c_actions c3) @
          verdict_writes env chpa dep v (Conditions (Status (c_chpa c3))) (c_ext c3)
      | _ \<Rightarrow> err = None \<and> (\<exists>d. res = Inr (Some d) \<and> same_state c3 c' \<and>
          v = (if d_rescale d then Scales (d_desiredReplicas d) (d_metricStatuses d) else Keeps (d_metricStatuses d))))"

lemma decided_go:
  "v = (if d_rescale d then Scales (d_desiredReplicas d) (d_metricStatuses d) else Keeps (d_metricStatuses d)) \<Longrightarrow>
   decided env chpa dep v None c (Inr (Some d)) c"
  by (auto simp: decided_def same_state_def)

lemma wp_metrics_decided:
  fixes c :: "'w ctx"
  assumes run: "run_state (computeReplicasForMetrics env (Metrics (Spec (c_chpa c)))) c = (r, c2)"
    and dep: "c_deploy c = dep" "cur = dep_Status_Replicas dep" "asks_metrics chpa dep" and v: "v = metrics_verdict chpa cur now r"
    and chpa: "c_chpa c = chpa\<lparr>Status := (Status chpa)\<lparr>Conditions := cs\<rparr>\<rparr>"
  shows "wp (metrics_decision env (Status chpa) cur now)
           (decided env chpa dep v (failure chpa dep r) (left_by env chpa dep now r c1 c2)) c"
proof -
  have q: "quiet c c2" using framesD [OF quiet_compute [of env "Metrics (Spec (c_chpa c))"], of c] run by simp
  then obtain cs2 where c2: "c_chpa c2 = chpa\<lparr>Status := (Status chpa)\<lparr>Conditions := cs2\<rparr>\<rparr>" "c_deploy c2 = dep"
    using quiet_conditions [OF _ chpa] dep(1) by (auto simp: quietD)
  have some: "dep_Spec_Replicas dep \<noteq> None" "dep_Spec_Replicas dep \<noteq> Some 0" using dep(3) by (auto simp: asks_metrics_def)
  note wp = wp_bind wp_get wp_Let wp_return
  have run: "wp (computeReplicasForMetrics env (Metrics (Spec (c_chpa c)))) K c = K r c2" for K
    by (simp add: wp_def run)
  have left: "left_by env chpa dep now r c1 c2 = reported env (reports chpa dep now r) c2" by (simp add: left_by_def dep(3))
  consider p where "r = Inl (Panic p)" | e where "r = Inl (Err e)" | m where "r = Inr m"
    by (metis fault.exhaust sum.exhaust)
  then show ?thesis
  proof cases
    case 1
    then show ?thesis unfolding metrics_decision_def wp run left
      by (simp add: wp_return decided_def metrics_verdict_def failure_def v some dep(3))
  next
    case 2
    have "v = Stops" by (simp add: v 2 metrics_verdict_def)
    show ?thesis unfolding metrics_decision_def wp run left 2 sum.case fault.case setCurrentReplicasInStatus_def wp_setStatus_False
    proof (rule wp_update_wrote, goal_cases)
      case (1 a c')
      then have w: "writes (c_actions c') = writes (c_actions c2) @ verdict_writes env chpa dep v (Conditions (Status (c_chpa c2))) (c_ext c2)"
        by (simp add: wrote_def c2 \<open>v = Stops\<close> verdict_writes_def status_writes_def rebuilt_def dep(2))
      have "decided env chpa dep v (failure chpa dep (Inl (Err e))) (left_by env chpa dep now (Inl (Err e)) c1 c2) (Inr None) c''"
        if "quiet c' c''" for c''
        using w that by (simp add: left [unfolded 2] decided_def \<open>v = Stops\<close> failure_def reports_def dep(3) some quietD)
      then show ?case by (cases a) (auto intro: frames_wp [OF quiet_record_event] frames_wp [OF quiet_failed_update])
    qed
  next
    case 3
    obtain d ts nm where d: "metric_desire now m = (d, ts, nm)" by (cases "metric_desire now m") auto
    have same: "Spec (c_chpa c2) = Spec chpa" "LastScaleTime (Status (c_chpa c2)) = LastScaleTime (Status chpa)"
      by (simp_all add: c2)
    note cong = normalized_cong [OF same(1)] shouldScale_cong [OF same] limit_report_cong [OF same(1)] backoff_reports_cong [OF same]
    have "failure chpa dep r = None" by (simp add: failure_def 3 some split: option.split)
    moreover have "left_by env chpa dep now (Inr m) c1 c2 = reported env (limit_report chpa cur d # backoff_reports chpa ts) c2"
      using some dep(2,3) by (simp add: left [unfolded 3] reports_def wanted_desire [OF d])
    moreover have "shouldScale (c_chpa (reported env rs c2)) = shouldScale chpa" for rs
      by (rule shouldScale_cong) (simp_all add: same)
    moreover have "backoff_reports (c_chpa (reported env rs c2)) = backoff_reports chpa" for rs
      by (rule backoff_reports_cong) (simp_all add: same)
    ultimately show ?thesis unfolding metrics_decision_def wp run 3 sum.case d prod.case wp_normalize_exact wp_backoff_exact Let_def
      by (auto simp: v metrics_verdict_def 3 wanted_desire [OF d] due_eq Let_def cong intro!: decided_go)
  qed
qed


lemma wp_decide_decided:
  fixes c :: "'w ctx"
  assumes run: "run_state (computeReplicasForMetrics env (Metrics (Spec (c_chpa c)))) c = (r, c2)"
    and dep: "c_deploy c = dep" "cur = dep_Status_Replicas dep"
    and chpa: "c_chpa c = chpa\<lparr>Status := (Status chpa)\<lparr>Conditions := cs\<rparr>\<rparr>"
  shows "wp (decide env (Status chpa) cur now)
           (decided env chpa dep (verdict chpa dep now r) (failure chpa dep r) (left_by env chpa dep now r c c2)) c"
proof -
  note wp = decide_def wp_bind wp_get wp_Let wp_return wp_if wp_case_option wp_setCondition_exact Let_def
  have spec: "Spec (c_chpa c) = Spec chpa" by (simp add: chpa)
  show ?thesis
  proof (cases "dep_Spec_Replicas dep")
    case None
    then show ?thesis
      by (simp add: wp dep asks_metrics_def nil_dereference_def decided_def verdict_def failure_def left_by_def reports_def)
  next
    case (Some k)
    show ?thesis
    proof (cases "k = 0")
      case True
      with Some show ?thesis
        by (simp add: wp dep asks_metrics_def failure_def left_by_def reports_def verdict_def decided_go)
    next
      case nz: False
      show ?thesis
      proof (cases "corrective (Spec chpa) (dep_Status_Replicas dep)")
        case None
        then have a: "asks_metrics chpa dep" using Some nz by (simp add: asks_metrics_def)
        have v: "verdict chpa dep now r = metrics_verdict chpa cur now r" using Some nz None by (simp add: verdict_def dep)
        have "wp (decide env (Status chpa) cur now) Q c = wp (metrics_decision env (Status chpa) cur now) Q c" for Q
          using None nz by (auto simp: wp spec dep Some corrective_def split: option.splits if_splits)
        with wp_metrics_decided [OF run dep a v chpa] show ?thesis by simp
      next
        case corr: (Some n)
        then have "\<not> asks_metrics chpa dep" by (simp add: asks_metrics_def)
        then have "failure chpa dep r = None" "left_by env chpa dep now r c c2 = c" "verdict chpa dep now r = Scales n []"
          using Some nz corr by (simp_all add: failure_def left_by_def reports_def verdict_def)
        then show ?thesis
          using corr nz by (auto simp: wp spec dep Some corrective_def split: option.splits if_splits intro!: decided_go)
      qed
    qed
  qed
qed

section \<open>The whole function\<close>

text \<open>The statements of \<open>reconcileCHPA\<close> before the decision: the scale was read, the clock is read.\<close>

definition got_scale :: report where
  "got_scale = (''AbleToScale'', ''True'', ''SucceededGetScale'', ''the HPA controller was able to get the target'' @ apos @ ''s current scale'')"

definition get_scale :: "'w env \<Rightarrow> ('w ctx, gotime) state" where
  "get_scale env = do {
     setCondition env ''AbleToScale'' ''True'' ''SucceededGetScale''
       (''the HPA controller was able to get the target'' @ apos @ ''s current scale'');
     on_ext (time_now env)
   }"

lemma quiet_get_scale: "frames quiet (get_scale env)"
  unfolding get_scale_def by (intro quiet_intros)

definition carry_out :: "'w env \<Rightarrow> CHPAStatus \<Rightarrow> int32 \<Rightarrow> fault + decision option \<Rightarrow> ('w ctx, fault + unit) state" where
  "carry_out env old cur r =
     (case r of
        Inl e \<Rightarrow> State_Monad.return (Inl e)
      | Inr None \<Rightarrow> State_Monad.return (Inr ())
      | Inr (Some d) \<Rightarrow> do { apply_decision env old cur d; State_Monad.return (Inr ()) })"

lemma wp_reconcileCHPA:
  "wp (reconcileCHPA env) Q c =
     wp (get_scale env) (\<lambda>now. wp (decide env (Status (c_chpa c)) (dep_Status_Replicas (c_deploy c)) now)
       (\<lambda>r. wp (carry_out env (Status (c_chpa c)) (dep_Status_Replicas (c_deploy c)) r) (\<lambda>r. Q (recovered r)))) c"
  unfolding reconcileCHPA_def reconcile_body_def get_scale_def carry_out_def Let_def wp_bind wp_get wp_return by (rule refl)

lemma wp_carry_out:
  fixes c :: "'w ctx"
  assumes "decided env chpa dep v err c3 res c" "c_chpa c3 = chpa\<lparr>Status := (Status chpa)\<lparr>Conditions := cs\<rparr>\<rparr>"
    "c_deploy c3 = dep" "cur = dep_Status_Replicas dep"
  shows "wp (carry_out env (Status chpa) cur res) (\<lambda>r c'. recovered r = err \<and>
     writes (c_actions c') = writes (c_actions c3) @ verdict_writes env chpa dep v (Conditions (Status (c_chpa c3))) (c_ext c3)) c"
proof -
  consider "v = Fails" | "v = Stops" | d where "err = None" "res = Inr (Some d)" "same_state c3 c"
    "v = (if d_rescale d then Scales (d_desiredReplicas d) (d_metricStatuses d) else Keeps (d_metricStatuses d))"
    using assms(1) by (cases v) (auto simp: decided_def)
  then show ?thesis
  proof cases
    case (3 d)
    have s: "c_chpa c = chpa\<lparr>Status := (Status chpa)\<lparr>Conditions := cs\<rparr>\<rparr>" "c_deploy c = dep"
      "c_ext c = c_ext c3" "writes (c_actions c) = writes (c_actions c3)"
      using 3(3) assms(2,3) by (simp_all add: same_state_def)
    show ?thesis unfolding 3(2) carry_out_def sum.case option.case wp_bind wp_return
      by (rule wp_mono [OF wp_apply_exact [OF s(1,2) assms(4) 3(4)]]) (simp add: recovered_def 3(1) s assms(2))
  qed (use assms(1) in \<open>auto simp: decided_def carry_out_def wp_return recovered_def verdict_writes_def status_writes_def\<close>)
qed

text \<open>The reference for the whole function: its result and its writes.\<close>

definition reference :: "'w env \<Rightarrow> 'w ctx \<Rightarrow> string option \<times> action list" where
  "reference env c =
     (let chpa = c_chpa c; dep = c_deploy c;
          c0 = reported env [got_scale] c;
          (now, w) = run_state (time_now env) (c_ext c0);
          c1 = c0\<lparr>c_ext := w\<rparr>;
          (r, c2) = run_state (computeReplicasForMetrics env (Metrics (Spec chpa))) c1;
          c3 = left_by env chpa dep now r c1 c2
      in (failure chpa dep r,
          verdict_writes env chpa dep (verdict chpa dep now r) (Conditions (Status (c_chpa c3))) (c_ext c3)))"

lemma run_get_scale:
  "run_state (get_scale env) c =
     (let c0 = reported env [got_scale] c; (now, w) = run_state (time_now env) (c_ext c0) in (now, c0\<lparr>c_ext := w\<rparr>))"
proof -
  have "wp (get_scale env) (\<lambda>a c'. (a, c') = (let c0 = reported env [got_scale] c; (now, w) = run_state (time_now env) (c_ext c0)
      in (now, c0\<lparr>c_ext := w\<rparr>))) c"
    unfolding get_scale_def wp_bind wp_setCondition_exact wp_on_ext got_scale_def [symmetric] by (simp add: wp_def Let_def split_beta)
  then show ?thesis by (simp add: wp_def)
qed

lemma reconcile_reference_at:
  fixes c :: "'w ctx"
  assumes scale: "run_state (get_scale env) c = (now, c1)"
    and metrics: "run_state (computeReplicasForMetrics env (Metrics (Spec (c_chpa c)))) c1 = (r, c2)"
    and c3: "c3 = left_by env (c_chpa c) (c_deploy c) now r c1 c2"
  shows "wp (reconcileCHPA env) (\<lambda>res c'. res = failure (c_chpa c) (c_deploy c) r \<and> writes (c_actions c') = writes (c_actions c) @
           verdict_writes env (c_chpa c) (c_deploy c) (verdict (c_chpa c) (c_deploy c) now r) (Conditions (Status (c_chpa c3))) (c_ext c3)) c"
proof -
  have q1: "quiet c c1" using framesD [OF quiet_get_scale, of c env] scale by simp
  have q2: "quiet c1 c2" using framesD [OF quiet_compute [of env "Metrics (Spec (c_chpa c))"], of c1] metrics by simp
  obtain cs1 cs2 where cs: "c_chpa c1 = (c_chpa c)\<lparr>Status := (Status (c_chpa c))\<lparr>Conditions := cs1\<rparr>\<rparr>"
    "c_chpa c2 = (c_chpa c)\<lparr>Status := (Status (c_chpa c))\<lparr>Conditions := cs2\<rparr>\<rparr>"
    using q1 quiet_trans [OF q1 q2] by (auto simp: quiet_def)
  have dep: "c_deploy c1 = c_deploy c" "c_deploy c3 = c_deploy c" "writes (c_actions c3) = writes (c_actions c)"
    using q1 quiet_trans [OF q1 q2] by (simp_all add: quietD c3 left_by_def)
  obtain cs3 where cs3: "c_chpa c3 = (c_chpa c)\<lparr>Status := (Status (c_chpa c))\<lparr>Conditions := cs3\<rparr>\<rparr>"
    using reported_conditions [OF cs(1)] reported_conditions [OF cs(2)] unfolding c3 left_by_def by (metis (full_types))
  have "run_state (computeReplicasForMetrics env (Metrics (Spec (c_chpa c1)))) c1 = (r, c2)" using metrics by (simp add: cs)
  from wp_decide_decided [OF this dep(1) refl cs(1)]
  have d: "wp (decide env (Status (c_chpa c)) (dep_Status_Replicas (c_deploy c)) now)
      (decided env (c_chpa c) (c_deploy c) (verdict (c_chpa c) (c_deploy c) now r) (failure (c_chpa c) (c_deploy c) r) c3) c1"
    by (simp add: c3)
  have run: "wp (get_scale env) K c = K now c1" for K by (simp add: wp_def scale)
  show ?thesis unfolding wp_reconcileCHPA run
    by (rule wp_mono [OF d], rule wp_mono [OF wp_carry_out [OF _ cs3 dep(2) refl]], assumption) (simp add: dep(3))
qed

lemma reconcile_reference:
  "run_state (reconcileCHPA env) c = (res, c') \<Longrightarrow>
   res = fst (reference env c) \<and> writes (c_actions c') = writes (c_actions c) @ snd (reference env c)"
  using reconcile_reference_at [of env c, OF surjective_pairing surjective_pairing refl]
  by (simp add: wp_def reference_def run_get_scale Let_def split_beta)

lemma reconcile_verdict:
  fixes c :: "'w ctx"
  assumes "run_state (get_scale env) c = (now, c1)"
    "run_state (computeReplicasForMetrics env (Metrics (Spec (c_chpa c)))) c1 = (r, c2)"
  shows "wp (reconcileCHPA env) (\<lambda>_ c'. \<exists>ws. writes (c_actions c') = writes (c_actions c) @ ws \<and>
           performed env (c_chpa c) (c_deploy c) (verdict (c_chpa c) (c_deploy c) now r) ws) c"
  by (rule wp_mono [OF reconcile_reference_at [OF assms refl]]) (auto simp: performed_def)

end
