(* ===== verification/ReconcileFacts.thy ===== *)
theory ReconcileFacts
  imports ReferenceDecision
begin

text \<open>
  What one reconcile may write.  \<open>permitted\<close> is the abstract specification of the sequence of writes
  of \<open>reconcileCHPA\<close>: at most one update of the Deployment, to a count the specification of the CHPA
  justifies, and after it at most one update of the CHPA, of its status only.  \<open>wp_reconcile_body\<close>
  is the refinement: every run of the code, whatever the API server, the clock and the metric
  sources answer, writes such a sequence.
\<close>

section \<open>The justified counts\<close>

text \<open>
  \<open>justified P chpa dep n\<close>: the Deployment may be set to \<open>n\<close>.  It is not disabled, and either it is
  outside the bounds and \<open>n\<close> is the corrective count, or \<open>n\<close> is the normalisation of some count
  and scaling to it is due at some time with the property \<open>P\<close>.
\<close>

definition justified :: "(gotime \<Rightarrow> bool) \<Rightarrow> CHPA \<Rightarrow> Deployment \<Rightarrow> int32 \<Rightarrow> bool" where
  "justified P chpa dep n \<longleftrightarrow>
     (\<exists>r. dep_Spec_Replicas dep = Some r \<and> r \<noteq> 0) \<and>
     (case corrective (Spec chpa) (dep_Status_Replicas dep) of
        Some m \<Rightarrow> n = m
      | None \<Rightarrow> \<exists>d timestamp. P timestamp \<and> n = normalized chpa (dep_Status_Replicas dep) d \<and>
                  shouldScale chpa (dep_Status_Replicas dep) n timestamp)"

text \<open>
  The CHPA as it is written: a new status, whose time of the last scale is new only when the
  Deployment was updated with success.
\<close>

definition status_of_run :: "'w env \<Rightarrow> CHPA \<Rightarrow> Deployment \<Rightarrow> action list \<Rightarrow> CHPA \<Rightarrow> bool" where
  "status_of_run env chpa dep us x \<longleftrightarrow>
     x = chpa\<lparr>Status := Status x\<rparr> \<and> Status x \<noteq> Status chpa \<and>
     CurrentReplicas (Status x) = dep_Status_Replicas dep \<and>
     (LastScaleTime (Status x) = LastScaleTime (Status chpa) \<or>
      (\<exists>n w cell. us = [UpdateDeployment (scaled_to dep n)] \<and>
         fst (run_state (update_deployment env (scaled_to dep n)) w) = (None, cell) \<and>
         DesiredReplicas (Status x) = cell))"

definition permitted :: "(gotime \<Rightarrow> bool) \<Rightarrow> 'w env \<Rightarrow> CHPA \<Rightarrow> Deployment \<Rightarrow> action list \<Rightarrow> bool" where
  "permitted P env chpa dep ws \<longleftrightarrow>
     (\<exists>us xs. ws = us @ xs \<and>
        (us = [] \<or> (\<exists>n. us = [UpdateDeployment (scaled_to dep n)] \<and> justified P chpa dep n)) \<and>
        (xs = [] \<or> (\<exists>x. xs = [UpdateCHPA x] \<and> status_of_run env chpa dep us x)))"

lemma justified_cong:
  "Spec chpa' = Spec chpa \<Longrightarrow> LastScaleTime (Status chpa') = LastScaleTime (Status chpa) \<Longrightarrow>
   justified P chpa' = justified P chpa"
  by (intro ext) (simp only: justified_def normalized_cong [of chpa' chpa] shouldScale_cong [of chpa' chpa])

section \<open>The decision\<close>

text \<open>What rules a panic out: sound calculations, valid metrics, a Deployment with a count.\<close>

definition metrics_safe :: "'w env \<Rightarrow> CHPA \<Rightarrow> bool" where
  "metrics_safe env chpa \<longleftrightarrow> calm_calculator (replicaCalc env) \<and> list_all metric_ok (Metrics (Spec chpa))"

lemma wp_compute:
  fixes c :: "'w ctx"
  assumes "dated_until C P env"
    "\<And>r c'. quiet c c' \<Longrightarrow> (metrics_safe env chpa \<Longrightarrow> calm r) \<Longrightarrow>
       (C (c_ext c') \<Longrightarrow> C (c_ext c) \<and> valued (\<lambda>m. mr_replicas m = 0 \<or> P (mr_timestamp m)) r) \<Longrightarrow> Q r c'"
  shows "wp (computeReplicasForMetrics env (Metrics (Spec chpa))) Q c"
proof -
  have "results (\<lambda>r. metrics_safe env chpa \<longrightarrow> calm r) (computeReplicasForMetrics env (Metrics (Spec chpa)))"
  proof (cases "metrics_safe env chpa")
    case True
    then show ?thesis using compute_calm unfolding metrics_safe_def by (auto intro: results_mono)
  qed (simp add: results_any)
  then show ?thesis
    using framesD [OF quiet_compute] resultsD compute_dated [OF assms(1), of "Metrics (Spec chpa)"]
    unfolding until_def wp_def by (intro assms(2)) fastforce+
qed

lemma wp_metrics_decision:
  fixes c :: "'w ctx"
  assumes dated: "dated_until C P env" and now: "C (c_ext c) \<Longrightarrow> P now"
    and panic: "\<And>p c'. quiet c c' \<Longrightarrow> \<not> metrics_safe env (c_chpa c) \<Longrightarrow> Q (Inl (Panic p)) c'"
    and stop: "\<And>x c'. with_current (c_chpa c) cur x \<Longrightarrow> wrote old c c' x \<Longrightarrow> Q (Inr None) c'"
    and go: "\<And>c' n d timestamp reason ms. quiet c c' \<Longrightarrow> (C (c_ext c') \<Longrightarrow> P timestamp) \<Longrightarrow>
       n = normalized (c_chpa c) cur d \<Longrightarrow>
       Q (Inr (Some \<lparr>d_desiredReplicas = n, d_rescaleReason = reason, d_metricStatuses = ms,
                     d_rescale = shouldScale (c_chpa c) cur n timestamp\<rparr>)) c'"
  shows "wp (metrics_decision env old cur now) Q c"
  unfolding metrics_decision_def wp_simps
proof (rule wp_compute [OF dated], goal_cases)
  case (1 r c1)
  note steps = dated_until_steps [OF dated]
  show ?case
  proof (cases r)
    case (Inl e)
    then show ?thesis
    proof (cases e)
      case (Err computeErr)
      have q: "with_current (c_chpa c) cur x" "wrote old c c' x" if "with_current (c_chpa c1) cur x" "wrote old c1 c' x"
        for x c'
        using that 1(1) by (auto simp: with_current_def wrote_def quiet_def)
      show ?thesis
        unfolding Inl Err sum.case fault.case
      proof (rule wp_fail_status [where Q = "Q (Inr None)"], goal_cases)
        case (1 a c')
        then show ?case
          by (cases a) (simp_all add: frames_wp [OF quiet_record_event] frames_wp [OF quiet_failed_update])
      qed (blast intro: stop q)
    next
      case (Panic p)
      then show ?thesis using Inl 1 panic by auto
    qed
  next
    case (Inr m)
    have s: "Spec (c_chpa c1) = Spec (c_chpa c)" using 1(1) by (simp add: quietD)
    obtain d ts nm where d: "metric_desire now m = (d, ts, nm)" by (cases "metric_desire now m") auto
    have ts: "P ts" if "C (c_ext c1)" using d 1(3) [OF that] Inr now by (auto simp: metric_desire_def split: if_splits)
    show ?thesis unfolding Inr sum.case d Let_def prod.case
    proof (rule wp_normalize [OF steps], rule frames_wp [OF frames_conj [OF quiet_backoff steps.step_backoff [OF steps]]], goal_cases)
      case (1 c2 u c3)
      have q: "quiet c c2" "quiet c c3" using 1 \<open>quiet c c1\<close> quiet_trans by blast+
      have "C (c_ext c3) \<Longrightarrow> P ts" using 1 ts by (simp add: backward_def)
      with q show ?case
        unfolding shouldScale_cong [OF quietD(2,4) [OF q(1)]] normalized_cong [OF s] by (intro go) simp_all
    qed
  qed
qed

lemma wp_decide:
  fixes c :: "'w ctx"
  assumes cur: "cur = dep_Status_Replicas (c_deploy c)" and dated: "dated_until C P env" and now: "C (c_ext c) \<Longrightarrow> P now"
    and panic: "\<And>p c'. quiet c c' \<Longrightarrow> \<not> metrics_safe env (c_chpa c) \<or> dep_Spec_Replicas (c_deploy c) = None \<Longrightarrow> Q (Inl (Panic p)) c'"
    and stop: "\<And>x c'. with_current (c_chpa c) cur x \<Longrightarrow> wrote old c c' x \<Longrightarrow> Q (Inr None) c'"
    and go: "\<And>c' d. quiet c c' \<Longrightarrow> (C (c_ext c') \<Longrightarrow> d_rescale d \<Longrightarrow> justified P (c_chpa c) (c_deploy c) (d_desiredReplicas d)) \<Longrightarrow>
       Q (Inr (Some d)) c'"
  shows "wp (decide env old cur now) Q c"
proof (cases "dep_Spec_Replicas (c_deploy c)")
  case None
  then show ?thesis by (simp add: decide_def wp_simps nil_dereference_def panic quiet_refl)
next
  case (Some r)
  have j: "justified P (c_chpa c) (c_deploy c) n" if "r \<noteq> 0" "corrective (Spec (c_chpa c)) cur = Some n" for n
    using that by (simp add: justified_def Some cur)
  show ?thesis
  proof (cases "r = 0 \<or> corrective (Spec (c_chpa c)) cur \<noteq> None")
    case True
    then show ?thesis
      unfolding decide_def wp_simps Some Let_def option.case
      by (auto simp: corrective_def split: option.splits if_splits
          intro!: go quiet_refl j frames_wp [OF quiet_setCondition])
  next
    case False
    have "wp (metrics_decision env old cur now) Q c"
    proof (rule wp_metrics_decision [OF dated], erule now, rule panic, assumption, erule disjI1,
        rule stop, assumption+, rule go, assumption, goal_cases)
      case (1 c' n d timestamp reason ms)
      then show ?case using False by (auto simp: justified_def Some cur)
    qed
    then show ?thesis
      using False unfolding decide_def wp_simps Some Let_def option.case
      by (auto simp: corrective_def split: option.splits if_splits)
  qed
qed

section \<open>Carrying it out\<close>

text \<open>The writes of a run that has made the updates \<open>us\<close> of the Deployment and then stores \<open>x\<close>.\<close>

lemma wrote_permitted:
  assumes "wrote (Status chpa) b c' x" "writes (c_actions b) = writes (c_actions c) @ us"
    "us = [] \<or> (\<exists>n. us = [UpdateDeployment (scaled_to dep n)] \<and> justified P chpa dep n)"
    "Status x \<noteq> Status chpa \<Longrightarrow> status_of_run env chpa dep us x"
  shows "\<exists>ws. writes (c_actions c') = writes (c_actions c) @ ws \<and> permitted P env chpa dep ws"
proof -
  let ?xs = "if Status x = Status chpa then [] else [UpdateCHPA x]"
  have "?xs = [] \<or> (\<exists>x. ?xs = [UpdateCHPA x] \<and> status_of_run env chpa dep us x)" using assms(4) by simp
  then have "permitted P env chpa dep (us @ ?xs)" using assms(3) unfolding permitted_def by blast
  then show ?thesis using assms(1,2) by (intro exI [of _ "us @ ?xs"]) (simp add: wrote_def)
qed

lemma status_of_run_current:
  assumes "with_current chpa (dep_Status_Replicas dep) x" "Status x \<noteq> Status chpa"
  shows "status_of_run env chpa dep us x"
  using assms by (auto simp: status_of_run_def with_current_def)

text \<open>What the reference performs for a justified count is permitted.\<close>

lemma performed_permitted:
  assumes "performed env chpa dep v ws" "\<And>n ms. v = Scales n ms \<Longrightarrow> justified P chpa dep n"
  shows "permitted P env chpa dep ws"
proof -
  obtain cs w where ws: "ws = deployment_writes dep v @ status_writes v chpa (final_status env v (Status chpa) dep cs w)"
    using assms(1) unfolding performed_def verdict_writes_def by blast
  let ?st = "final_status env v (Status chpa) dep cs w"
  have us: "deployment_writes dep v = [] \<or>
      (\<exists>n. deployment_writes dep v = [UpdateDeployment (scaled_to dep n)] \<and> justified P chpa dep n)"
    using assms(2) by (cases v) auto
  have "status_of_run env chpa dep (deployment_writes dep v) (chpa\<lparr>Status := ?st\<rparr>)" if "v \<noteq> Fails" "?st \<noteq> Status chpa"
  proof (cases v)
    case (Scales n ms)
    obtain e cell w' where e: "run_state (update_deployment env (scaled_to dep n)) w = ((e, cell), w')" by (metis surj_pair)
    then have "\<exists>w. fst (run_state (update_deployment env (scaled_to dep n)) w) = (e, cell)" by (metis fst_conv)
    then show ?thesis using that(2) e unfolding Scales
      by (cases e) (auto simp: status_of_run_def rebuilt_def split: prod.splits)
  qed (use that in \<open>auto simp: status_of_run_def rebuilt_def\<close>)
  then have "status_writes v chpa ?st = [] \<or>
      (\<exists>x. status_writes v chpa ?st = [UpdateCHPA x] \<and> status_of_run env chpa dep (deployment_writes dep v) x)"
    by (auto simp: status_writes_def)
  with us show ?thesis unfolding permitted_def ws by blast
qed

lemma wp_apply_decision:
  fixes c :: "'w ctx"
  assumes cur: "cur = dep_Status_Replicas (c_deploy c)"
    and j: "d_rescale d \<Longrightarrow> justified P chpa (c_deploy c) (d_desiredReplicas d)"
    and chpa: "c_chpa c = chpa\<lparr>Status := (Status chpa)\<lparr>Conditions := cs\<rparr>\<rparr>"
  shows "wp (apply_decision env (Status chpa) cur d)
           (\<lambda>_ c'. \<exists>ws. writes (c_actions c') = writes (c_actions c) @ ws \<and> permitted P env chpa (c_deploy c) ws) c"
proof (rule wp_mono [OF wp_apply_exact [OF chpa refl cur refl]], goal_cases)
  case (1 u c')
  let ?v = "if d_rescale d then Scales (d_desiredReplicas d) (d_metricStatuses d) else Keeps (d_metricStatuses d)"
  have "performed env chpa (c_deploy c) ?v (verdict_writes env chpa (c_deploy c) ?v cs (c_ext c))"
    by (auto simp only: performed_def)
  then have "permitted P env chpa (c_deploy c) (verdict_writes env chpa (c_deploy c) ?v cs (c_ext c))"
    by (rule performed_permitted) (use j in \<open>simp split: if_splits\<close>)
  with 1 show ?case by blast
qed

section \<open>The whole function\<close>

lemma wp_reconcile_body:
  fixes c :: "'w ctx"
  assumes "dated P env"
  shows "wp (reconcile_body env)
           (\<lambda>r c'. (\<exists>ws. writes (c_actions c') = writes (c_actions c) @ ws \<and> permitted P env (c_chpa c) (c_deploy c) ws) \<and>
              (r = Inr () \<or> (\<exists>p. r = Inl (Panic p)) \<and>
                 (\<not> metrics_safe env (c_chpa c) \<or> dep_Spec_Replicas (c_deploy c) = None))) c"
  unfolding reconcile_body_def wp_bind wp_get Let_def
proof (rule frames_wp [OF quiet_setCondition],
    rule frames_results_wp [OF quiet_on_ext results_on_ext [OF datedD [OF assms]]], goal_cases)
  case (1 _ c1 now c2)
  let ?ok = "\<lambda>c'. \<exists>ws. writes (c_actions c') = writes (c_actions c) @ ws \<and> permitted P env (c_chpa c) (c_deploy c) ws"
  have q: "quiet c c2" using 1(1,2) by (rule quiet_trans)
  then obtain cs where cs: "c_chpa c2 = (c_chpa c)\<lparr>Status := (Status (c_chpa c))\<lparr>Conditions := cs\<rparr>\<rparr>"
    by (auto simp: quiet_def)
  have dep: "c_deploy c2 = c_deploy c" and wr: "writes (c_actions c2) = writes (c_actions c)" using q by (simp_all add: quietD)
  show ?case
  proof (rule wp_decide [OF _ dated_until_True [OF assms] 1(3)], goal_cases)
    case 1
    show ?case by (simp add: dep)
  next
    case (2 p c')
    then have "?ok c'" by (intro exI [of _ "[]"]) (simp add: permitted_def quietD wr)
    with 2 show ?case by (simp add: wp_simps metrics_safe_def cs dep)
  next
    case (3 x c')
    then have "with_current (c_chpa c) (dep_Status_Replicas (c_deploy c)) x"
      unfolding cs with_current_conditions dep by simp
    then have "?ok c'"
      by (intro wrote_permitted [OF 3(2), where us = "[]"] status_of_run_current) (simp_all add: wr)
    then show ?case by (simp add: wp_simps)
  next
    case (4 c' d)
    have j: "d_rescale d \<Longrightarrow> justified P (c_chpa c) (c_deploy c') (d_desiredReplicas d)"
      using 4 justified_cong [of "c_chpa c2" "c_chpa c"] by (simp add: cs dep quietD)
    obtain cs' where "c_chpa c' = (c_chpa c)\<lparr>Status := (Status (c_chpa c))\<lparr>Conditions := cs'\<rparr>\<rparr>"
      using quiet_conditions [OF 4(1) cs] by blast
    from wp_apply_decision [OF _ j this, of "dep_Status_Replicas (c_deploy c)" env] show ?case
      unfolding wp_simps sum.case option.case using 4(1) by (simp add: quietD dep wr)
  qed
qed

section \<open>Outside the bounds\<close>

text \<open>A frame for what follows a write: the writes made so far stay, in place.\<close>

definition extends :: "'w ctx \<Rightarrow> 'w ctx \<Rightarrow> bool" where
  "extends c c' \<longleftrightarrow> (\<exists>ws. writes (c_actions c') = writes (c_actions c) @ ws)"

interpretation extends: frame extends
  by unfold_locales (auto simp: extends_def)

lemma quiet_extends: "frames quiet m \<Longrightarrow> frames extends m"
  by (erule frames_mono) (simp add: extends_def quietD)

lemma extends_steps:
  "frames extends (modify_status f)" "frames extends (act a)" "frames extends (updateStatusIfNeeded env old)"
  by (rule framesI; auto simp: wp_simps extends_def wp_updateStatusIfNeeded; simp add: wp_def)+

lemma extends_setStatus: "frames extends (setStatus env cur des ms b)"
  unfolding setStatus_def by (intro extends.intros extends_steps quiet_extends quiet_on_ext)

lemma extends_finish: "frames extends (finish_status env old cur des ms b)"
  unfolding finish_status_def by (intro extends.intros extends_steps extends_setStatus)

lemma extends_setCurrent: "frames extends (setCurrentReplicasInStatus env cur)"
  unfolding setCurrentReplicasInStatus_def by (intro extends.intros extends_setStatus)

lemma wp_rescale_deployment:
  "(\<And>r c'. writes (c_actions c') = writes (c_actions c) @ [UpdateDeployment (scaled_to (c_deploy c) n)] \<Longrightarrow>
      Q r c') \<Longrightarrow> wp (rescale_deployment env n) Q c"
  unfolding rescale_deployment_def wp_simps
  by (simp add: scaled_to_def wp_def)

lemma wp_apply_rescale:
  fixes c :: "'w ctx"
  assumes "d_rescale d"
  shows "wp (apply_decision env old cur d)
           (\<lambda>_ c'. \<exists>ws. writes (c_actions c') = writes (c_actions c) @ UpdateDeployment (scaled_to (c_deploy c) (d_desiredReplicas d)) # ws) c"
  unfolding apply_decision_def if_P [OF assms] wp_bind
proof (rule wp_rescale_deployment, goal_cases)
  case (1 r c1)
  obtain e cell where r: "r = (e, cell)" by (cases r)
  let ?tail = "case e of
      Some err \<Rightarrow> do {
        record_event ''Warning'' ''FailedRescale''
          (''New size: '' @ itoa (sint cell) @ ''; reason: '' @ d_rescaleReason d @ ''; error: '' @ err);
        setCondition env ''AbleToScale'' ''False'' ''FailedUpdateScale''
          (''the HPA controller was unable to update the target scale: '' @ err);
        setCurrentReplicasInStatus env cur;
        u \<leftarrow> updateStatusIfNeeded env old;
        (case u of Some err \<Rightarrow> failed_update_replicas env err | None \<Rightarrow> State_Monad.return ())
      }
    | None \<Rightarrow> do {
        setCondition env ''AbleToScale'' ''True'' ''SucceededRescale''
          (''the HPA controller was able to update the target scale to '' @ itoa (sint cell));
        record_event ''Normal'' ''SuccessfulRescale''
          (''New size: '' @ itoa (sint cell) @ ''; reason: '' @ d_rescaleReason d);
        finish_status env old cur cell (d_metricStatuses d) True
      }"
  have "frames extends ?tail"
    by (intro extends.intros extends_steps extends_setCurrent extends_finish quiet_extends
        quiet_record_event quiet_setCondition quiet_failed_update)
  then show ?case
    unfolding r prod.case by (rule frames_wp) (simp add: 1 extends_def)
qed

lemma wp_decide_corrective:
  assumes "dep_Spec_Replicas (c_deploy c) = Some r" "r \<noteq> 0" "corrective (Spec (c_chpa c)) cur = Some n"
    "\<And>d. d_desiredReplicas d = n \<Longrightarrow> d_rescale d \<Longrightarrow> Q (Inr (Some d)) c"
  shows "wp (decide env old cur now) Q c"
  unfolding decide_def wp_simps Let_def assms(1) option.case
  using assms(2-4) by (auto simp: corrective_def split: option.splits if_splits)

lemma reconcile_corrects:
  fixes c :: "'w ctx"
  assumes "dep_Spec_Replicas (c_deploy c) = Some r" "r \<noteq> 0"
    "corrective (Spec (c_chpa c)) (dep_Status_Replicas (c_deploy c)) = Some n"
  shows "wp (reconcile_body env) (\<lambda>_ c'. \<exists>ws. writes (c_actions c') =
           writes (c_actions c) @ UpdateDeployment (scaled_to (c_deploy c) n) # ws) c"
  unfolding reconcile_body_def wp_bind wp_get Let_def
proof (rule frames_wp [OF quiet_setCondition], rule frames_wp [OF quiet_on_ext], goal_cases)
  case (1 _ c1 now c2)
  have q: "quiet c c2" using 1 by (rule quiet_trans)
  show ?case
  proof (rule wp_decide_corrective [where r = r and n = n], goal_cases)
    case (4 d)
    have "wp (apply_decision env (Status (c_chpa c)) (dep_Status_Replicas (c_deploy c)) d)
      (\<lambda>_ c'. \<exists>ws. writes (c_actions c') = writes (c_actions c) @ UpdateDeployment (scaled_to (c_deploy c) n) # ws) c2"
      using wp_apply_rescale [OF 4(2), of env "Status (c_chpa c)" "dep_Status_Replicas (c_deploy c)" c2] 4(1) q
      by (simp add: quietD)
    then show ?case by (simp add: wp_simps)
  qed (use assms q in \<open>simp_all add: quietD\<close>)
qed

text \<open>The writes and the result of a whole reconcile.\<close>

lemma reconcileCHPA_writes:
  assumes "dated P env" "run_state (reconcileCHPA env) c = (r, c')"
  shows "\<exists>ws. writes (c_actions c') = writes (c_actions c) @ ws \<and> permitted P env (c_chpa c) (c_deploy c) ws"
  using wp_reconcile_body [OF assms(1), of c] assms(2)
  by (auto simp: reconcileCHPA_def wp_def split: prod.splits)

lemma reconcileCHPA_permitted:
  assumes "dated P env" "writes (c_actions c) = []" "run_state (reconcileCHPA env) c = (r, c')"
  shows "permitted P env (c_chpa c) (c_deploy c) (writes (c_actions c'))"
  using reconcileCHPA_writes [OF assms(1,3)] assms(2) by simp

lemma reconcileCHPA_result:
  assumes "run_state (reconcileCHPA env) c = (r, c')"
    "metrics_safe env (c_chpa c)" "dep_Spec_Replicas (c_deploy c) \<noteq> None"
  shows "r = None"
  using wp_reconcile_body [OF dated_any, of env c] assms
  by (auto simp: reconcileCHPA_def wp_def recovered_def split: prod.splits)

end
