(* ===== verification/Bounds.thy ===== *)
theory Bounds
  imports ReconcileFacts
begin

text \<open>
  What the abstract specification of a reconcile (\<open>permitted\<close> and \<open>justified\<close> of the theory
  ReconcileFacts) gives for the counts written: the bounds of the specification, the limit on
  scaling up, the forbidden windows.
\<close>

section \<open>Sensible specifications\<close>

text \<open>What the CRD validation and the documentation ask of the bounds.\<close>

definition sane_bounds :: "CHPASpec \<Rightarrow> bool" where
  "sane_bounds spec \<longleftrightarrow> 1 \<le> sint (MaxReplicas spec) \<and>
     (case MinReplicas spec of None \<Rightarrow> True | Some m \<Rightarrow> 0 \<le> sint m \<and> sint m \<le> sint (MaxReplicas spec))"

text \<open>A factor of at least one whose product with the count does not overflow.\<close>

definition sane_factor :: "CHPASpec \<Rightarrow> int32 \<Rightarrow> bool" where
  "sane_factor spec cur \<longleftrightarrow> f64_finite (ScaleUpLimitFactor spec) \<and> 1 \<le> f64_val (ScaleUpLimitFactor spec) \<and>
     f64_val (ScaleUpLimitFactor spec) \<le> 2 ^ 63 \<and>
     f64_val (ScaleUpLimitFactor spec) * of_int (sint cur) \<le> 2147483647"

definition lower_bound :: "CHPASpec \<Rightarrow> int" where
  "lower_bound spec = min_allowed (case MinReplicas spec of Some m \<Rightarrow> m | None \<Rightarrow> 0)"

lemma lower_bound_props:
  assumes "sane_bounds spec"
  shows "1 \<le> lower_bound spec" "lower_bound spec \<le> sint (MaxReplicas spec)"
    "MinReplicas spec = Some m \<Longrightarrow> sint m \<le> lower_bound spec"
proof -
  have "1 \<le> sint m" if "0 \<le> sint m" "m \<noteq> 0" for m :: int32
    using that sint_eq_iff [of m 0] by simp
  then show "1 \<le> lower_bound spec" "lower_bound spec \<le> sint (MaxReplicas spec)"
    "MinReplicas spec = Some m \<Longrightarrow> sint m \<le> lower_bound spec"
    using assms by (auto simp: lower_bound_def min_allowed_def sane_bounds_def split: option.splits)
qed

lemma normalized_cut:
  "sint (normalized chpa cur d) =
     (if sint d < lower_bound (Spec chpa) then lower_bound (Spec chpa)
      else if max_allowed chpa cur (MaxReplicas (Spec chpa)) < sint d
      then max_allowed chpa cur (MaxReplicas (Spec chpa)) else sint d)"
  unfolding normalized_def lower_bound_def by (rule limits.cut)

section \<open>Counts inside the bounds\<close>

lemma corrective_None:
  assumes "corrective spec cur = None" "sane_bounds spec" "0 \<le> sint cur"
  shows "lower_bound spec \<le> sint cur" "sint cur \<le> sint (MaxReplicas spec)"
proof -
  have c: "cur \<noteq> 0" "sint cur \<le> sint (MaxReplicas spec)" "\<And>m. MinReplicas spec = Some m \<Longrightarrow> sint m \<le> sint cur"
    using assms(1) by (auto simp: corrective_def split: if_splits option.splits)
  then have "1 \<le> sint cur" using assms(3) sint_eq_iff [of cur 0] by simp
  with c show "lower_bound spec \<le> sint cur" "sint cur \<le> sint (MaxReplicas spec)"
    by (auto simp: lower_bound_def min_allowed_def split: option.splits)
qed

lemma corrective_Some:
  assumes "corrective spec cur = Some n" "sane_bounds spec" "0 \<le> sint cur"
  shows "lower_bound spec \<le> sint n" "sint n \<le> sint (MaxReplicas spec)"
  using assms lower_bound_props [OF assms(2)]
  by (auto simp: corrective_def lower_bound_def min_allowed_def sane_bounds_def split: if_splits option.splits)

lemma justified_le_max:
  assumes "justified P chpa dep n" "sane_bounds (Spec chpa)" "0 \<le> sint (dep_Status_Replicas dep)"
  shows "sint n \<le> sint (MaxReplicas (Spec chpa))"
  using assms(1) corrective_Some(2) [OF _ assms(2,3)] lower_bound_props(2) [OF assms(2)]
  by (auto simp: justified_def normalized_cut max_allowed_def split: option.splits)

lemma justified_ge_min:
  assumes "justified P chpa dep n" "sane_bounds (Spec chpa)" "0 \<le> sint (dep_Status_Replicas dep)"
    "sane_factor (Spec chpa) (dep_Status_Replicas dep)"
  shows "lower_bound (Spec chpa) \<le> sint n"
proof (cases "corrective (Spec chpa) (dep_Status_Replicas dep)")
  case None
  have "sint (dep_Status_Replicas dep) \<le> sint (calculateScaleUpLimit chpa (dep_Status_Replicas dep))"
    using assms(3,4) by (intro calculateScaleUpLimit_ge) (auto simp: sane_factor_def)
  then have "lower_bound (Spec chpa) \<le> max_allowed chpa (dep_Status_Replicas dep) (MaxReplicas (Spec chpa))"
    using corrective_None [OF None assms(2,3)] by (simp add: max_allowed_def)
  then show ?thesis using assms(1) None by (auto simp: justified_def normalized_cut)
next
  case (Some m)
  then show ?thesis using assms(1) corrective_Some(1) [OF Some assms(2,3)] by (simp add: justified_def)
qed

text \<open>Inside the bounds a reconcile changes the count only when the window of that direction has passed.\<close>

definition window :: "CHPASpec \<Rightarrow> int32 \<Rightarrow> int32 \<Rightarrow> int" where
  "window spec cur n =
     sint (if sint n < sint cur then DownscaleForbiddenWindowSeconds spec else UpscaleForbiddenWindowSeconds spec)
     * 1000000000"

lemma justified_window:
  assumes "justified P chpa dep n" "corrective (Spec chpa) (dep_Status_Replicas dep) = None"
  shows "n \<noteq> dep_Status_Replicas dep"
    "LastScaleTime (Status chpa) = Some t \<Longrightarrow>
       \<exists>ts. P ts \<and> t + window (Spec chpa) (dep_Status_Replicas dep) n < ts"
  using assms by (auto simp: justified_def shouldScale_cases window_def)

text \<open>Inside the bounds a raise stays within the limit on scaling up.\<close>

lemma justified_limit:
  assumes "justified P chpa dep n" "corrective (Spec chpa) (dep_Status_Replicas dep) = None"
    "sane_bounds (Spec chpa)" "0 \<le> sint (dep_Status_Replicas dep)" "sint (dep_Status_Replicas dep) < sint n"
  shows "sint n \<le> sint (calculateScaleUpLimit chpa (dep_Status_Replicas dep))"
  using assms(1,2,5) corrective_None [OF assms(2-4)]
  by (auto simp: justified_def normalized_cut max_allowed_def split: if_splits)

section \<open>Reading permitted writes\<close>

lemma permitted_deployment:
  "permitted P env chpa dep ws \<Longrightarrow> UpdateDeployment d \<in> set ws \<Longrightarrow>
   \<exists>n. d = scaled_to dep n \<and> justified P chpa dep n"
  by (auto simp: permitted_def)

lemma permitted_chpa:
  "permitted P env chpa dep ws \<Longrightarrow> UpdateCHPA x \<in> set ws \<Longrightarrow>
   \<exists>us. ws = us @ [UpdateCHPA x] \<and> status_of_run env chpa dep us x"
  by (auto simp: permitted_def)

lemma permitted_length: "permitted P env chpa dep ws \<Longrightarrow> length ws \<le> 2"
  by (auto simp: permitted_def)

end
