(* ===== verification/EntryPoint.thy ===== *)
theory EntryPoint
  imports Bounds
begin

text \<open>
  What a call of \<open>Reconcile\<close> amounts to: which objects it fetched, what it may have written for them
  (a sequence the specification \<open>permitted\<close> allows), and which requeue it asks for.
\<close>

section \<open>The objects of a call\<close>

text \<open>
  \<open>fetched env ns name w chpa dep\<close>: from the world \<open>w\<close> the reads return a CHPA that passes the validity
  check and a Deployment that the CHPA can own; \<open>chpa\<close> has its defaults, \<open>dep\<close> its owner.
\<close>

definition fetched :: "'w env \<Rightarrow> string \<Rightarrow> string \<Rightarrow> 'w \<Rightarrow> CHPA \<Rightarrow> Deployment \<Rightarrow> bool" where
  "fetched env ns name w chpa dep \<longleftrightarrow>
     (\<exists>chpa0 w1 dep0 w2.
        run_state (get_chpa env ns name) w = (Inr chpa0, w1) \<and>
        chpa = setCHPADefaults chpa0 \<and>
        checkCHPAValidity (sprintf0 env) chpa = Inr () \<and>
        run_state (get_deployment env (chpa_Namespace chpa) (ref_Name (ScaleTargetRef (Spec chpa)))) w1 = (Inr dep0, w2) \<and>
        SetControllerReference (GVKForObject env) chpa dep0 = Inr dep)"

section \<open>One call\<close>

text \<open>The outcome of \<open>Reconcile\<close>, by what the reads return.\<close>

definition outcome :: "'w env \<Rightarrow> string \<Rightarrow> string \<Rightarrow> 'w \<Rightarrow> reconcile_Result \<Rightarrow> bool" where
  "outcome env ns name w res \<longleftrightarrow>
     (case fst (run_state (get_chpa env ns name) w) of
        Inl (NotFound _) \<Rightarrow> res = resStop
      | Inl (OtherError _) \<Rightarrow> res = resRepeat env
      | Inr chpa0 \<Rightarrow>
          if checkCHPAValidity (sprintf0 env) (setCHPADefaults chpa0) \<noteq> Inr () then res = resStop
          else if \<exists>dep. fetched env ns name w (setCHPADefaults chpa0) dep
               \<and> (\<not> calm_calculator (replicaCalc env) \<or> dep_Spec_Replicas dep = None)
               then res = resStop \<or> res = resRepeat env
               else res = resRepeat env)"

text \<open>What \<open>Reconcile\<close> does about the outcome of \<open>reconcileCHPA\<close>.\<close>

lemma wp_reconcile_outcome:
  fixes c1 :: "'w ctx"
  assumes dated: "dated P env" and c1: "c_chpa c1 = chpa" "c_deploy c1 = dep" "writes (c_actions c1) = us"
    and go: "\<And>res c' ws. writes (c_actions c') = us @ ws \<Longrightarrow> permitted P env chpa dep ws \<Longrightarrow>
      res = resRepeat env \<or> res = resStop \<and> (\<not> metrics_safe env chpa \<or> dep_Spec_Replicas dep = None) \<Longrightarrow> Q (res, None) c'"
  shows "wp (reconcileCHPA env) (\<lambda>e. wp (case e of None \<Rightarrow> State_Monad.return (resRepeat env, None)
     | Some err \<Rightarrow> do { record_event ''Warning'' ''FailedProcessCHPA'' err;
         setCondition env ''AbleToScale'' ''True'' ''FailedProcessCHPA'' ''Error happened while processing the CHPA'';
         State_Monad.return (resStop, None) }) Q) c1"
proof -
  obtain e c2 where e: "run_state (reconcileCHPA env) c1 = (e, c2)" by (metis surj_pair)
  obtain ws where ws: "writes (c_actions c2) = us @ ws" and p: "permitted P env chpa dep ws"
    using reconcileCHPA_writes [OF dated e] c1 by auto
  have run: "wp (reconcileCHPA env) K c1 = K e c2" for K by (simp add: wp_def e)
  show ?thesis
  proof (cases e)
    case None
    then show ?thesis unfolding run using go [OF ws p] by (simp add: wp_return)
  next
    case (Some err)
    have pf: "\<not> metrics_safe env chpa \<or> dep_Spec_Replicas dep = None"
      using reconcileCHPA_result [OF e] c1(1,2) Some by (metis option.distinct(1))
    show ?thesis unfolding run Some option.case wp_bind wp_return
    proof (rule frames_wp [OF quiet_record_event], rule frames_wp [OF quiet_setCondition], goal_cases)
      case (1 _ c3 _ c4)
      then have "writes (c_actions c4) = us @ ws" using ws by (simp add: quietD)
      then show ?case using go [OF _ p] pf by simp
    qed
  qed
qed

lemma wp_process_deployment:
  fixes c :: "'w ctx"
  assumes dated: "dated P env"
    and stop: "\<And>c'. writes (c_actions c') = writes (c_actions c) \<Longrightarrow> Q (resRepeat env, None) c'"
    and go: "\<And>dep0 w dep res c' ws.
      run_state (get_deployment env (chpa_Namespace (c_chpa c)) (ref_Name (ScaleTargetRef (Spec (c_chpa c))))) (c_ext c)
        = (Inr dep0, w) \<Longrightarrow>
      SetControllerReference (GVKForObject env) (c_chpa c) dep0 = Inr dep \<Longrightarrow>
      writes (c_actions c') = writes (c_actions c) @ ws \<Longrightarrow> permitted P env (c_chpa c) dep ws \<Longrightarrow>
      res = resRepeat env \<or> res = resStop \<and> (\<not> metrics_safe env (c_chpa c) \<or> dep_Spec_Replicas dep = None) \<Longrightarrow>
      Q (res, None) c'"
  shows "wp (process_deployment env) Q c"
proof -
  obtain r w where r: "run_state (get_deployment env (chpa_Namespace (c_chpa c)) (ref_Name (ScaleTargetRef (Spec (c_chpa c)))))
      (c_ext c) = (r, w)" by (metis surj_pair)
  have bind: "wp (on_ext (get_deployment env (chpa_Namespace (c_chpa c)) (ref_Name (ScaleTargetRef (Spec (c_chpa c)))))) K c
      = K r (c\<lparr>c_ext := w\<rparr>)" for K
    unfolding wp_on_ext by (simp add: wp_def r)
  show ?thesis
  proof (cases r)
    case (Inl e)
    then show ?thesis unfolding process_deployment_def wp_bind wp_get bind by (simp add: wp_simps stop)
  next
    case (Inr dep0)
    show ?thesis
    proof (cases "SetControllerReference (GVKForObject env) (c_chpa c) dep0")
      case (Inl e)
      with Inr show ?thesis unfolding process_deployment_def wp_bind wp_get bind by (simp add: wp_simps stop)
    next
      case scr: (Inr dep)
      show ?thesis
        unfolding process_deployment_def wp_bind [of State_Monad.get] wp_bind [of "on_ext m" for m] wp_get bind Inr sum.case scr
          wp_bind [of "State_Monad.update f" for f] wp_update wp_bind [of "reconcileCHPA env"]
        by (rule wp_reconcile_outcome [OF dated]) (auto intro: go [OF r [unfolded Inr] scr])
    qed
  qed
qed

lemma wp_Reconcile:
  fixes c :: "'w ctx"
  assumes dated: "dated P env"
  shows "wp (Reconcile env ns name) (\<lambda>(res, err) c'.
           err = None \<and> outcome env ns name (c_ext c) res \<and>
           (\<exists>ws. writes (c_actions c') = writes (c_actions c) @ ws \<and>
              (ws = [] \<or> (\<exists>chpa dep. fetched env ns name (c_ext c) chpa dep \<and> permitted P env chpa dep ws)))) c"
proof -
  obtain r w where r: "run_state (get_chpa env ns name) (c_ext c) = (r, w)" by (metis surj_pair)
  have bind: "wp (on_ext (get_chpa env ns name)) K c = K r (c\<lparr>c_ext := w\<rparr>)" for K
    unfolding wp_on_ext by (simp add: wp_def r)
  show ?thesis
  proof (cases r)
    case (Inl e)
    then show ?thesis unfolding Reconcile_def wp_bind bind
      by (cases e) (simp_all add: wp_simps outcome_def r)
  next
    case (Inr chpa0)
    let ?chpa = "setCHPADefaults chpa0"
    show ?thesis
    proof (cases "checkCHPAValidity (sprintf0 env) ?chpa")
      case (Inl err)
      then have o: "outcome env ns name (c_ext c) resStop" by (simp add: outcome_def r Inr)
      show ?thesis unfolding Reconcile_def wp_bind bind Inr sum.case wp_update Inl wp_return
      proof (rule frames_wp [OF quiet_record_event], rule frames_wp [OF quiet_setCondition], goal_cases)
        case (1 _ c1 _ c2)
        then show ?case using o by (simp add: quietD)
      qed
    next
      case valid: (Inr u)
      then have m: "list_all metric_ok (Metrics (Spec ?chpa))"
        using checkCHPAValidity_ok [of "sprintf0 env" ?chpa] by simp
      show ?thesis unfolding Reconcile_def wp_bind bind Inr sum.case wp_update valid
      proof (rule wp_process_deployment [OF dated], goal_cases)
        case (1 c')
        then show ?case using valid by (auto simp: outcome_def r Inr)
      next
        case (2 dep0 w' dep res c' ws)
        have f: "fetched env ns name (c_ext c) ?chpa dep"
          using 2(1,2) r Inr valid by (auto simp: fetched_def)
        have "outcome env ns name (c_ext c) res"
          using 2(5) f m valid by (auto simp: outcome_def r Inr metrics_safe_def)
        then show ?case using f 2(3,4) by auto
      qed
    qed
  qed
qed

end
