(* ===== verification/WorkQueue.thy ===== *)
theory WorkQueue
  imports Prelude
begin

text \<open>
  The work queue the controller runtime keeps the CHPAs in: \<open>Add\<close>, \<open>Get\<close> and \<open>Done\<close> of
  vendor/k8s.io/client-go/util/workqueue/queue.go, and \<open>insert\<close> of delaying_queue.go, the entries
  waiting for their time.  Locks and metrics are left out: each operation is one step.

  The locale \<open>work_queue\<close> is the contract the control loop relies on: which keys are due, which are
  in the hands of a worker, and that no due key is forgotten.
\<close>

section \<open>The operations\<close>

record 'k queue =
  wq_queue :: "'k list"
  wq_dirty :: "'k set"
  wq_processing :: "'k set"

definition wq_empty :: "'k queue" where
  "wq_empty = \<lparr>wq_queue = [], wq_dirty = {}, wq_processing = {}\<rparr>"

definition wq_Add :: "'k \<Rightarrow> 'k queue \<Rightarrow> 'k queue" where
  "wq_Add item q =
    (if item \<in> wq_dirty q then q
     else let q' = q\<lparr>wq_dirty := insert item (wq_dirty q)\<rparr> in
          if item \<in> wq_processing q' then q'
          else q'\<lparr>wq_queue := wq_queue q' @ [item]\<rparr>)"

text \<open>\<open>None\<close>: the call would block.\<close>

definition wq_Get :: "'k queue \<Rightarrow> ('k \<times> 'k queue) option" where
  "wq_Get q =
    (case wq_queue q of
       [] \<Rightarrow> None
     | item # rest \<Rightarrow> Some (item, q\<lparr>wq_queue := rest, wq_processing := insert item (wq_processing q),
                                    wq_dirty := wq_dirty q - {item}\<rparr>))"

definition wq_Done :: "'k \<Rightarrow> 'k queue \<Rightarrow> 'k queue" where
  "wq_Done item q =
    (let q' = q\<lparr>wq_processing := wq_processing q - {item}\<rparr> in
     if item \<in> wq_dirty q' then q'\<lparr>wq_queue := wq_queue q' @ [item]\<rparr> else q')"

text \<open>The entries that wait: a second entry for a key only brings its time forward.\<close>

definition wait_insert :: "'k \<Rightarrow> gotime \<Rightarrow> ('k \<rightharpoonup> gotime) \<Rightarrow> ('k \<rightharpoonup> gotime)" where
  "wait_insert item readyAt waiting =
    (case waiting item of
       Some existing \<Rightarrow> if existing > readyAt then waiting(item \<mapsto> readyAt) else waiting
     | None \<Rightarrow> waiting(item \<mapsto> readyAt))"

lemma dom_wait_insert [simp]: "dom (wait_insert k t m) = insert k (dom m)"
  by (auto simp: wait_insert_def split: option.splits)

lemma wait_insert_time: "wait_insert k t m k = Some (case m k of None \<Rightarrow> t | Some u \<Rightarrow> min u t)"
  by (auto simp: wait_insert_def min_def split: option.splits)

section \<open>The contract\<close>

locale work_queue =
  fixes add :: "'k \<Rightarrow> 'q \<Rightarrow> 'q" and get :: "'q \<Rightarrow> ('k \<times> 'q) option" and finish :: "'k \<Rightarrow> 'q \<Rightarrow> 'q"
    and inv :: "'q \<Rightarrow> bool" and due :: "'q \<Rightarrow> 'k set" and busy :: "'q \<Rightarrow> 'k set"
  assumes add_inv: "inv q \<Longrightarrow> inv (add k q)"
    and add_due: "inv q \<Longrightarrow> due (add k q) = insert k (due q)"
    and add_busy: "inv q \<Longrightarrow> busy (add k q) = busy q"
    and get_inv: "inv q \<Longrightarrow> get q = Some (k, q') \<Longrightarrow> inv q'"
    and get_due: "inv q \<Longrightarrow> get q = Some (k, q') \<Longrightarrow> k \<in> due q \<and> due q' = due q - {k}"
    and get_busy: "inv q \<Longrightarrow> get q = Some (k, q') \<Longrightarrow> k \<notin> busy q \<and> busy q' = insert k (busy q)"
    and get_None: "inv q \<Longrightarrow> get q = None \<Longrightarrow> due q \<subseteq> busy q"
    and finish_inv: "inv q \<Longrightarrow> k \<in> busy q \<Longrightarrow> inv (finish k q)"
    and finish_due: "inv q \<Longrightarrow> k \<in> busy q \<Longrightarrow> due (finish k q) = due q"
    and finish_busy: "inv q \<Longrightarrow> k \<in> busy q \<Longrightarrow> busy (finish k q) = busy q - {k}"
begin

text \<open>Adding a list of keys.\<close>

definition add_all :: "'k list \<Rightarrow> 'q \<Rightarrow> 'q" where
  "add_all ks q = fold add ks q"

lemma add_all_props:
  assumes "inv q"
  shows "inv (add_all ks q) \<and> due (add_all ks q) = set ks \<union> due q \<and> busy (add_all ks q) = busy q"
  using assms unfolding add_all_def
  by (induction ks arbitrary: q) (auto simp: add_inv add_due add_busy)

text \<open>A key that is due and not in the hands of a worker can be had: the queue does not block.\<close>

lemma due_not_blocked: "inv q \<Longrightarrow> k \<in> due q \<Longrightarrow> k \<notin> busy q \<Longrightarrow> get q \<noteq> None"
  using get_None by blast

text \<open>A key that becomes due while a worker has it is due when the worker is done, and can then be had.\<close>

lemma due_after_finish:
  assumes "inv q" "k \<in> busy q"
  shows "k \<in> due (finish k (add k q)) \<and> get (finish k (add k q)) \<noteq> None"
proof -
  have i: "inv (add k q)" "k \<in> busy (add k q)" using assms by (simp_all add: add_inv add_busy)
  have d: "k \<in> due (finish k (add k q))" using finish_due [OF i] add_due [OF assms(1)] by simp
  show ?thesis using due_not_blocked [OF finish_inv [OF i] d] finish_busy [OF i] d by simp
qed

end

section \<open>The queue keeps the contract\<close>

text \<open>The queue holds every due key that no worker has, once.\<close>

definition wq_ok :: "'k queue \<Rightarrow> bool" where
  "wq_ok q \<longleftrightarrow> distinct (wq_queue q) \<and> set (wq_queue q) = wq_dirty q - wq_processing q"

lemma wq_ok_empty [simp]: "wq_ok wq_empty"
  by (simp add: wq_ok_def wq_empty_def)

lemma wq_Add_ok: "wq_ok q \<Longrightarrow> wq_ok (wq_Add k q)"
  by (auto simp: wq_ok_def wq_Add_def Let_def)

lemma wq_Add_sets [simp]:
  "wq_dirty (wq_Add k q) = insert k (wq_dirty q)" "wq_processing (wq_Add k q) = wq_processing q"
  by (auto simp: wq_Add_def Let_def)

lemma wq_Get_Some:
  "wq_Get q = Some (k, q') \<longleftrightarrow>
     wq_queue q = k # wq_queue q' \<and> wq_processing q' = insert k (wq_processing q) \<and> wq_dirty q' = wq_dirty q - {k}"
  by (cases q; cases q') (auto simp: wq_Get_def split: list.splits)

lemma wq_Get_ok:
  assumes "wq_ok q" "wq_Get q = Some (k, q')"
  shows "wq_ok q'" "k \<in> wq_dirty q" "k \<notin> wq_processing q"
proof -
  have q: "wq_queue q = k # wq_queue q'" "wq_processing q' = insert k (wq_processing q)" "wq_dirty q' = wq_dirty q - {k}"
    using assms(2) by (simp_all add: wq_Get_Some)
  then have s: "distinct (k # wq_queue q')" "insert k (set (wq_queue q')) = wq_dirty q - wq_processing q"
    using assms(1) by (simp_all add: wq_ok_def)
  show "k \<in> wq_dirty q" "k \<notin> wq_processing q" using s(2) by blast+
  show "wq_ok q'" unfolding wq_ok_def q using s by auto
qed

lemma wq_Done_ok: "wq_ok q \<Longrightarrow> k \<in> wq_processing q \<Longrightarrow> wq_ok (wq_Done k q)"
  by (auto simp: wq_ok_def wq_Done_def Let_def)

lemma wq_Done_sets [simp]:
  "wq_dirty (wq_Done k q) = wq_dirty q" "wq_processing (wq_Done k q) = wq_processing q - {k}"
  by (auto simp: wq_Done_def Let_def)

interpretation wq: work_queue wq_Add wq_Get wq_Done wq_ok wq_dirty wq_processing
proof unfold_locales
  fix q :: "'k queue" assume "wq_ok q" "wq_Get q = None"
  then show "wq_dirty q \<subseteq> wq_processing q"
    by (auto simp: wq_ok_def wq_Get_def split: list.splits)
qed (simp_all add: wq_Add_ok wq_Get_ok wq_Done_ok, simp_all add: wq_Get_Some)

end
