(* ===== verification/ControlLoop.thy ===== *)
theory ControlLoop
  imports EntryPoint WorkQueue
begin

text \<open>
  The loop around \<open>Reconcile\<close>: the notifications of the informer cache, the event handler with the
  predicate \<open>add\<close> installs (pkg/controller/chpa/chpa_controller.go), the work queue and the worker
  (\<open>processNextWorkItem\<close> of the vendored controller runtime), as a step relation on the state
  \<open>loop\<close>.  What happens outside (other clients, time) is a step of its own and may come between
  any two others; a worker's call is three steps (take, run, report), so that notifications may
  arrive while it works.

  Proved: a CHPA that is valid is never lost.  In every reachable state it is due, in the hands of
  a worker, waiting for its time, or a notification that makes it due is on its way.
\<close>

type_synonym request = "string \<times> string"

definition request_of :: "CHPA \<Rightarrow> request" where
  "request_of chpa = (chpa_Namespace chpa, chpa_Name chpa)"

section \<open>Notifications\<close>

datatype notification = Added CHPA | Updated CHPA CHPA | Deleted CHPA

text \<open>The content of the cache, and how notifications change it.\<close>

type_synonym cache = "request \<rightharpoonup> CHPA"

fun fits :: "notification \<Rightarrow> cache \<Rightarrow> bool" where
  "fits (Added x) m = (m (request_of x) = None)"
| "fits (Updated x y) m = (m (request_of x) = Some x \<and> request_of y = request_of x)"
| "fits (Deleted x) m = (m (request_of x) = Some x)"

fun applied :: "notification \<Rightarrow> cache \<Rightarrow> cache" where
  "applied (Added x) m = m(request_of x \<mapsto> x)"
| "applied (Updated x y) m = m(request_of y \<mapsto> y)"
| "applied (Deleted x) m = m(request_of x := None)"

fun evolves :: "cache \<Rightarrow> notification list \<Rightarrow> cache \<Rightarrow> bool" where
  "evolves m [] m' = (m' = m)"
| "evolves m (e # es) m' = (fits e m \<and> evolves (applied e m) es m')"

text \<open>
  \<open>EventHandler.OnAdd\<close>, \<open>OnUpdate\<close>, \<open>OnDelete\<close> with the predicate \<open>Funcs{UpdateFunc: updatePredicate}\<close>
  and the handler \<open>EnqueueRequestForObject\<close>: only updates are filtered.
\<close>

fun handle :: "notification \<Rightarrow> request queue \<Rightarrow> request queue" where
  "handle (Added x) q = wq_Add (request_of x) q"
| "handle (Updated x y) q =
     (if updatePredicate \<lparr>ObjectOld = x, ObjectNew = y\<rparr>
      then wq_Add (request_of y) (wq_Add (request_of x) q) else q)"
| "handle (Deleted x) q = wq_Add (request_of x) q"

section \<open>The steps\<close>

record 'w loop =
  lp_world :: 'w
  lp_now :: gotime
  lp_workers :: nat
  lp_queue :: "request queue"
  lp_waiting :: "request \<rightharpoonup> gotime"
  lp_results :: "request \<rightharpoonup> reconcile_Result \<times> string option"
  lp_pending :: "notification list"
  lp_actions :: "action list"

text \<open>
  The end of \<open>processNextWorkItem\<close>: \<open>AddRateLimited\<close> after an error (with the limiter's \<open>delay\<close>),
  \<open>AddAfter\<close> or \<open>AddRateLimited\<close> when the result asks for it, nothing otherwise; then the deferred \<open>Done\<close>.
\<close>

definition add_after :: "request \<Rightarrow> int \<Rightarrow> 'w loop \<Rightarrow> 'w loop" where
  "add_after k d s =
    (if d \<le> 0 then s\<lparr>lp_queue := wq_Add k (lp_queue s)\<rparr>
     else s\<lparr>lp_waiting := wait_insert k (lp_now s + d) (lp_waiting s)\<rparr>)"

definition report_result :: "int \<Rightarrow> request \<Rightarrow> reconcile_Result \<times> string option \<Rightarrow> 'w loop \<Rightarrow> 'w loop" where
  "report_result delay k out s =
    (let s' = (case out of (res, err) \<Rightarrow>
           if err \<noteq> None then add_after k delay s
           else if sint (RequeueAfter res) > 0 then add_after k (sint (RequeueAfter res)) s
           else if Requeue res then add_after k delay s
           else s)
     in s'\<lparr>lp_queue := wq_Done k (lp_queue s'), lp_results := (lp_results s')(k := None)\<rparr>)"

inductive loop_step :: "'w env \<Rightarrow> ('w \<Rightarrow> cache) \<Rightarrow> 'w loop \<Rightarrow> 'w loop \<Rightarrow> bool"
  for env :: "'w env" and cached :: "'w \<Rightarrow> cache" where
  outside: "evolves (cached (lp_world s)) es (cached w) \<Longrightarrow> lp_now s \<le> t \<Longrightarrow>
     loop_step env cached s (s\<lparr>lp_world := w, lp_now := t, lp_pending := lp_pending s @ es\<rparr>)"
| deliver: "lp_pending s = e # es \<Longrightarrow>
     loop_step env cached s (s\<lparr>lp_pending := es, lp_queue := handle e (lp_queue s)\<rparr>)"
| wake: "lp_waiting s k = Some t \<Longrightarrow> t \<le> lp_now s \<Longrightarrow>
     loop_step env cached s (s\<lparr>lp_waiting := (lp_waiting s)(k := None), lp_queue := wq_Add k (lp_queue s)\<rparr>)"
| take: "card (wq_processing (lp_queue s)) < lp_workers s \<Longrightarrow> wq_Get (lp_queue s) = Some (k, q) \<Longrightarrow>
     loop_step env cached s (s\<lparr>lp_queue := q\<rparr>)"
| run: "k \<in> wq_processing (lp_queue s) \<Longrightarrow> lp_results s k = None \<Longrightarrow>
     c_ext c = lp_world s \<Longrightarrow> c_actions c = [] \<Longrightarrow>
     run_state (Reconcile env (fst k) (snd k)) c = (out, c') \<Longrightarrow>
     evolves (cached (lp_world s)) es (cached (c_ext c')) \<Longrightarrow>
     loop_step env cached s (s\<lparr>lp_world := c_ext c', lp_results := (lp_results s)(k \<mapsto> out),
       lp_pending := lp_pending s @ es, lp_actions := lp_actions s @ c_actions c'\<rparr>)"
| report: "lp_results s k = Some out \<Longrightarrow>
     loop_step env cached s (report_result delay k out s)"

text \<open>
  The start: an empty queue, a notification for every CHPA that is there, and the workers: \<open>New\<close> of
  controller-runtime makes one of the zero that \<open>add\<close> leaves in the options.
\<close>

definition worker_count :: "int \<Rightarrow> nat" where
  "worker_count MaxConcurrentReconciles = (if MaxConcurrentReconciles \<le> 0 then 1 else nat MaxConcurrentReconciles)"

definition loop_start :: "('w \<Rightarrow> cache) \<Rightarrow> 'w loop \<Rightarrow> bool" where
  "loop_start cached s \<longleftrightarrow>
     lp_workers s = worker_count 0 \<and> lp_queue s = wq_empty \<and> lp_waiting s = Map.empty \<and> lp_results s = Map.empty \<and> lp_actions s = [] \<and>
     evolves Map.empty (lp_pending s) (cached (lp_world s))"

inductive reachable :: "'w env \<Rightarrow> ('w \<Rightarrow> cache) \<Rightarrow> 'w loop \<Rightarrow> bool"
  for env :: "'w env" and cached :: "'w \<Rightarrow> cache" where
  start: "loop_start cached s \<Longrightarrow> reachable env cached s"
| step: "reachable env cached s \<Longrightarrow> loop_step env cached s s' \<Longrightarrow> reachable env cached s'"

inductive_cases loop_stepE: "loop_step env cached s s'"

section \<open>The queue along the steps\<close>

lemma handle_ok: "wq_ok q \<Longrightarrow> wq_ok (handle e q)"
  by (cases e) (simp_all add: wq_Add_ok)

lemma handle_processing [simp]: "wq_processing (handle e q) = wq_processing q"
  by (cases e) simp_all

text \<open>The requests a notification makes due.\<close>

definition enqueues :: "notification \<Rightarrow> request set" where
  "enqueues e = wq_dirty (handle e wq_empty)"

lemma handle_dirty [simp]: "wq_dirty (handle e q) = enqueues e \<union> wq_dirty q"
  by (cases e) (auto simp: enqueues_def wq_empty_def)

definition loop_ok :: "'w loop \<Rightarrow> bool" where
  "loop_ok s \<longleftrightarrow> wq_ok (lp_queue s) \<and> dom (lp_results s) \<subseteq> wq_processing (lp_queue s) \<and>
     finite (wq_processing (lp_queue s)) \<and> card (wq_processing (lp_queue s)) \<le> lp_workers s"

lemma loop_ok_start: "loop_start cached s \<Longrightarrow> loop_ok s"
  by (simp add: loop_ok_def loop_start_def) (simp add: wq_empty_def)

lemma add_after_queue [simp]:
  "wq_processing (lp_queue (add_after k d s)) = wq_processing (lp_queue s)"
  "lp_results (add_after k d s) = lp_results s" "lp_pending (add_after k d s) = lp_pending s"
  "lp_world (add_after k d s) = lp_world s" "lp_now (add_after k d s) = lp_now s"
  "lp_workers (add_after k d s) = lp_workers s"
  by (simp_all add: add_after_def)

lemma add_after_ok: "wq_ok (lp_queue s) \<Longrightarrow> wq_ok (lp_queue (add_after k d s))"
  by (simp add: add_after_def wq_Add_ok)

lemma loop_ok_report:
  assumes "loop_ok s" "lp_results s k = Some out"
  shows "loop_ok (report_result delay k out s)"
proof -
  obtain res err where out: "out = (res, err)" by (cases out)
  have "k \<in> wq_processing (lp_queue s)" using assms by (auto simp: loop_ok_def)
  then show ?thesis
    using assms(1)
    by (auto simp: loop_ok_def report_result_def Let_def out add_after_ok wq_Done_ok intro: order_trans [OF card_Diff1_le])
qed

lemma loop_ok_step: "loop_step env cached s s' \<Longrightarrow> loop_ok s \<Longrightarrow> loop_ok s'"
proof (induction rule: loop_step.induct)
  case (take s k q)
  then show ?case
    using wq.get_inv [of "lp_queue s" k q] wq.get_busy [of "lp_queue s" k q] by (auto simp: loop_ok_def)
next
  case (report s k out delay)
  then show ?case by (simp add: loop_ok_report)
qed (auto simp: loop_ok_def handle_ok wq_Add_ok)

lemma reachable_ok: "reachable env cached s \<Longrightarrow> loop_ok s"
  by (induction rule: reachable.induct) (auto intro: loop_ok_start loop_ok_step)

text \<open>There is one worker, so at most one CHPA is being worked on.\<close>

lemma report_workers [simp]: "lp_workers (report_result delay k out s) = lp_workers s"
  by (auto simp: report_result_def add_after_def Let_def split: prod.splits)

lemma loop_step_workers: "loop_step env cached s s' \<Longrightarrow> lp_workers s' = lp_workers s"
  by (induction rule: loop_step.induct) simp_all

lemma reachable_workers: "reachable env cached s \<Longrightarrow> lp_workers s = 1"
  by (induction rule: reachable.induct) (auto simp: loop_start_def worker_count_def dest: loop_step_workers)

lemma one_at_a_time:
  assumes "reachable env cached s" "j \<in> wq_processing (lp_queue s)"
  shows "wq_processing (lp_queue s) = {j}"
proof -
  have "finite (wq_processing (lp_queue s))" "card (wq_processing (lp_queue s)) \<le> 1"
    using reachable_ok [OF assms(1)] reachable_workers [OF assms(1)] by (auto simp: loop_ok_def)
  then show ?thesis using assms(2) by (auto simp: card_le_Suc0_iff_eq)
qed

section \<open>Valid objects are not lost\<close>

definition valid_chpa :: "'w env \<Rightarrow> CHPA \<Rightarrow> bool" where
  "valid_chpa env x \<longleftrightarrow> checkCHPAValidity (sprintf0 env) (setCHPADefaults x) = Inr ()"

lemma valid_chpa_iff:
  "valid_chpa env x \<longleftrightarrow> ref_Kind (ScaleTargetRef (Spec x)) = ''Deployment'' \<and> list_all metric_ok (Metrics (Spec x))"
  by (simp add: valid_chpa_def checkCHPAValidity_ok setCHPADefaults_def setSpecDefaults_def Let_def)

text \<open>An update the predicate drops does not change the validity.\<close>

lemma dropped_update_valid:
  "\<not> updatePredicate \<lparr>ObjectOld = x, ObjectNew = y\<rparr> \<Longrightarrow> valid_chpa env y = valid_chpa env x"
  by (auto simp: updatePredicate_def spec_DeepEqual_def valid_chpa_iff split: if_splits)

definition valid_at :: "'w env \<Rightarrow> cache \<Rightarrow> request \<Rightarrow> bool" where
  "valid_at env m k \<longleftrightarrow> (\<exists>x. m k = Some x \<and> valid_chpa env x)"

text \<open>An object that turns valid is announced by a notification that makes it due.\<close>

lemma evolves_valid:
  "evolves m es m' \<Longrightarrow> valid_at env m' k \<Longrightarrow> valid_at env m k \<or> (\<exists>e\<in>set es. k \<in> enqueues e)"
proof (induction es arbitrary: m)
  case (Cons e es)
  then have IH: "valid_at env (applied e m) k \<or> (\<exists>e\<in>set es. k \<in> enqueues e)" by auto
  have "valid_at env (applied e m) k \<Longrightarrow> valid_at env m k \<or> k \<in> enqueues e"
    using Cons.prems(1) dropped_update_valid
    by (cases e) (auto simp: valid_at_def enqueues_def wq_empty_def split: if_splits)
  then show ?case using IH by auto
qed auto

section \<open>The invariant\<close>

text \<open>
  What the loop needs of the world: \<open>get_chpa\<close> reads the cache, a Deployment has a count (the API
  server fills it in), the metric clients are sound, the sync period is positive.
\<close>

definition sound_env :: "'w env \<Rightarrow> ('w \<Rightarrow> cache) \<Rightarrow> bool" where
  "sound_env env cached \<longleftrightarrow>
     (\<forall>k w. case fst (run_state (get_chpa env (fst k) (snd k)) w) of
        Inr x \<Rightarrow> cached w k = Some x
      | Inl (NotFound _) \<Rightarrow> cached w k = None
      | Inl (OtherError _) \<Rightarrow> True) \<and>
     (\<forall>ns n. results (valued (\<lambda>d. dep_Spec_Replicas d \<noteq> None)) (get_deployment env ns n)) \<and>
     clients_ok (replicaCalc env) \<and> 0 < sint (syncPeriod env)"

text \<open>A call for a valid CHPA asks to be called again after the sync period.\<close>

lemma SetControllerReference_replicas:
  "SetControllerReference gvk x d = Inr d' \<Longrightarrow> dep_Spec_Replicas d' = dep_Spec_Replicas d"
  by (auto simp: SetControllerReference_def Let_def split: sum.splits option.splits)

lemma fetched_replicas:
  assumes "sound_env env cached" "fetched env ns n w chpa dep"
  shows "dep_Spec_Replicas dep \<noteq> None"
proof -
  obtain chpa0 w1 dep0 w2 where
    d: "run_state (get_deployment env (chpa_Namespace chpa) (ref_Name (ScaleTargetRef (Spec chpa)))) w1 = (Inr dep0, w2)"
      "SetControllerReference (GVKForObject env) chpa dep0 = Inr dep"
    using assms(2) by (auto simp: fetched_def)
  have "results (valued (\<lambda>d. dep_Spec_Replicas d \<noteq> None))
      (get_deployment env (chpa_Namespace chpa) (ref_Name (ScaleTargetRef (Spec chpa))))"
    using assms(1) by (simp add: sound_env_def)
  from resultsD [OF this, of w1] show ?thesis by (simp add: d(1) SetControllerReference_replicas [OF d(2)])
qed

lemma run_valid:
  assumes "sound_env env cached" "run_state (Reconcile env (fst k) (snd k)) c = (out, c')"
  shows "snd out = None"
    "valid_at env (cached (c_ext c)) k \<Longrightarrow> fst out = resRepeat env"
    "fst out = resStop \<or> fst out = resRepeat env"
proof -
  obtain res err where out: "out = (res, err)" by (cases out)
  have o: "err = None" "outcome env (fst k) (snd k) (c_ext c) res"
    using wp_Reconcile [OF dated_any, of env "fst k" "snd k" c] assms(2) by (simp_all add: wp_def out)
  show "snd out = None" by (simp add: out o)
  show "fst out = resStop \<or> fst out = resRepeat env"
    using o(2) unfolding out outcome_def
    by (auto split: sum.splits api_error.splits if_splits)
  show "fst out = resRepeat env" if "valid_at env (cached (c_ext c)) k"
  proof -
    have calm: "calm_calculator (replicaCalc env)" using assms(1) by (simp add: sound_env_def clients_ok_calm)
    let ?r = "fst (run_state (get_chpa env (fst k) (snd k)) (c_ext c))"
    have "case ?r of Inr x \<Rightarrow> cached (c_ext c) k = Some x | Inl (NotFound _) \<Rightarrow> cached (c_ext c) k = None | Inl (OtherError _) \<Rightarrow> True"
      using assms(1) unfolding sound_env_def by blast
    then have "res = resRepeat env"
      using o(2) that calm fetched_replicas [OF assms(1)]
      by (cases ?r) (auto simp: outcome_def valid_at_def valid_chpa_def split: api_error.splits if_splits)
    then show ?thesis by (simp add: out)
  qed
qed

text \<open>
  \<open>tracked env s k\<close>: the request is due or being worked on, or it waits for a time not further away
  than the sync period, or a notification that makes it due is on its way.
\<close>

definition tracked :: "'w env \<Rightarrow> 'w loop \<Rightarrow> request \<Rightarrow> bool" where
  "tracked env s k \<longleftrightarrow>
     k \<in> wq_dirty (lp_queue s) \<or>
     (k \<in> wq_processing (lp_queue s) \<and>
        (lp_results s k = None \<or> lp_results s k = Some (resRepeat env, None))) \<or>
     (\<exists>t. lp_waiting s k = Some t \<and> t \<le> lp_now s + sint (syncPeriod env)) \<or>
     (\<exists>e\<in>set (lp_pending s). k \<in> enqueues e)"

definition loop_inv :: "'w env \<Rightarrow> ('w \<Rightarrow> cache) \<Rightarrow> 'w loop \<Rightarrow> bool" where
  "loop_inv env cached s \<longleftrightarrow> loop_ok s \<and>
     (\<forall>k out. lp_results s k = Some out \<longrightarrow>
        snd out = None \<and> (fst out = resStop \<or> fst out = resRepeat env)) \<and>
     (\<forall>k t. lp_waiting s k = Some t \<longrightarrow> t \<le> lp_now s + sint (syncPeriod env)) \<and>
     (\<forall>k. valid_at env (cached (lp_world s)) k \<longrightarrow> tracked env s k)"

lemma loop_invD:
  assumes "loop_inv env cached s"
  shows "loop_ok s" "valid_at env (cached (lp_world s)) k \<Longrightarrow> tracked env s k"
    "lp_results s k = Some out \<Longrightarrow> snd out = None"
    "lp_results s k = Some out \<Longrightarrow> fst out = resStop \<or> fst out = resRepeat env"
    "lp_waiting s k = Some t \<Longrightarrow> t \<le> lp_now s + sint (syncPeriod env)"
  using assms unfolding loop_inv_def by blast+

lemma loop_invI:
  assumes "loop_ok s" "\<And>k. valid_at env (cached (lp_world s)) k \<Longrightarrow> tracked env s k"
    "\<And>k out. lp_results s k = Some out \<Longrightarrow>
       snd out = None \<and> (fst out = resStop \<or> fst out = resRepeat env)"
    "\<And>k t. lp_waiting s k = Some t \<Longrightarrow> t \<le> lp_now s + sint (syncPeriod env)"
  shows "loop_inv env cached s"
  using assms unfolding loop_inv_def by blast

lemma loop_inv_start:
  assumes "loop_start cached s"
  shows "loop_inv env cached s"
proof -
  have s: "lp_waiting s = Map.empty" "lp_results s = Map.empty" "evolves Map.empty (lp_pending s) (cached (lp_world s))"
    using assms by (simp_all add: loop_start_def)
  have "tracked env s k" if "valid_at env (cached (lp_world s)) k" for k
    using evolves_valid [OF s(3) that] by (auto simp: tracked_def valid_at_def)
  then show ?thesis using loop_ok_start [OF assms] s by (simp add: loop_inv_def)
qed

lemma tracked_outside:
  assumes "tracked env s k" "lp_now s \<le> t"
  shows "tracked env (s\<lparr>lp_world := w, lp_now := t, lp_pending := lp_pending s @ es\<rparr>) k"
proof -
  have "u \<le> lp_now s + p \<Longrightarrow> u \<le> t + p" for u p using assms(2) by simp
  then show ?thesis using assms(1) unfolding tracked_def by auto
qed

lemma loop_inv_outside:
  assumes "evolves (cached (lp_world s)) es (cached w)" "lp_now s \<le> t"
    "sound_env env cached" "loop_inv env cached s"
  shows "loop_inv env cached (s\<lparr>lp_world := w, lp_now := t, lp_pending := lp_pending s @ es\<rparr>)"
proof -
  let ?s = "s\<lparr>lp_world := w, lp_now := t, lp_pending := lp_pending s @ es\<rparr>"
  note inv = loop_invD [OF assms(4)]
  have le: "u \<le> t + p" if "u \<le> lp_now s + p" for u p using that assms(2) by simp
  show ?thesis
  proof (rule loop_invI)
    fix k assume v: "valid_at env (cached (lp_world ?s)) k"
    show "tracked env ?s k"
    proof (cases "\<exists>e\<in>set es. k \<in> enqueues e")
      case False
      then have "valid_at env (cached (lp_world s)) k" using evolves_valid [OF assms(1), of env k] v by simp
      then show ?thesis by (intro tracked_outside inv assms(2))
    qed (auto simp: tracked_def)
  qed (simp_all add: inv le loop_ok_step [OF loop_step.outside [OF assms(1,2)]])
qed

lemma loop_inv_deliver:
  assumes "lp_pending s = e # es" "sound_env env cached" "loop_inv env cached s"
  shows "loop_inv env cached (s\<lparr>lp_pending := es, lp_queue := handle e (lp_queue s)\<rparr>)"
proof -
  note inv = loop_invD [OF assms(3)]
  show ?thesis
  proof (rule loop_invI)
    fix k assume "valid_at env (cached (lp_world (s\<lparr>lp_pending := es, lp_queue := handle e (lp_queue s)\<rparr>))) k"
    then have "tracked env s k" by (intro inv) simp
    then show "tracked env (s\<lparr>lp_pending := es, lp_queue := handle e (lp_queue s)\<rparr>) k"
      using assms(1) by (auto simp: tracked_def)
  qed (simp_all add: inv loop_ok_step [OF loop_step.deliver [OF assms(1)]])
qed

lemma loop_inv_wake:
  assumes "lp_waiting s k = Some t" "t \<le> lp_now s" "sound_env env cached" "loop_inv env cached s"
  shows "loop_inv env cached (s\<lparr>lp_waiting := (lp_waiting s)(k := None), lp_queue := wq_Add k (lp_queue s)\<rparr>)"
proof -
  let ?s = "s\<lparr>lp_waiting := (lp_waiting s)(k := None), lp_queue := wq_Add k (lp_queue s)\<rparr>"
  note inv = loop_invD [OF assms(4)]
  show ?thesis
  proof (rule loop_invI)
    fix k' assume "valid_at env (cached (lp_world ?s)) k'"
    then have "tracked env s k'" by (intro inv) simp
    then show "tracked env ?s k'" by (auto simp: tracked_def)
  qed (simp_all add: inv loop_ok_step [OF loop_step.wake [OF assms(1,2)]] split: if_splits)
qed

lemma loop_inv_take:
  assumes "card (wq_processing (lp_queue s)) < lp_workers s" "wq_Get (lp_queue s) = Some (k, q)" "sound_env env cached" "loop_inv env cached s"
  shows "loop_inv env cached (s\<lparr>lp_queue := q\<rparr>)"
proof -
  note inv = loop_invD [OF assms(4)]
  have ok: "wq_ok (lp_queue s)" using inv(1) by (simp add: loop_ok_def)
  note g = wq.get_due [OF ok assms(2)] wq.get_busy [OF ok assms(2)]
  have free: "lp_results s k = None" using g(2) inv(1) by (auto simp: loop_ok_def)
  show ?thesis
  proof (rule loop_invI)
    fix k' assume "valid_at env (cached (lp_world (s\<lparr>lp_queue := q\<rparr>))) k'"
    then have "tracked env s k'" by (intro inv) simp
    then show "tracked env (s\<lparr>lp_queue := q\<rparr>) k'"
      using g free by (cases "k' = k") (auto simp: tracked_def)
  qed (simp_all add: inv loop_ok_step [OF loop_step.take [OF assms(1,2)]])
qed

lemma loop_inv_run:
  assumes "k \<in> wq_processing (lp_queue s)" "lp_results s k = None"
    "c_ext c = lp_world s" "c_actions c = []"
    "run_state (Reconcile env (fst k) (snd k)) c = (out, c')"
    "evolves (cached (lp_world s)) es (cached (c_ext c'))"
    "sound_env env cached" "loop_inv env cached s"
  shows "loop_inv env cached (s\<lparr>lp_world := c_ext c', lp_results := (lp_results s)(k \<mapsto> out),
       lp_pending := lp_pending s @ es, lp_actions := lp_actions s @ c_actions c'\<rparr>)"
proof -
  let ?s = "s\<lparr>lp_world := c_ext c', lp_results := (lp_results s)(k \<mapsto> out),
       lp_pending := lp_pending s @ es, lp_actions := lp_actions s @ c_actions c'\<rparr>"
  note r = run_valid [OF assms(7) assms(5)] and inv = loop_invD [OF assms(8)]
  show ?thesis
  proof (rule loop_invI)
    fix k' assume v: "valid_at env (cached (lp_world ?s)) k'"
    show "tracked env ?s k'"
    proof (cases "\<exists>e\<in>set es. k' \<in> enqueues e")
      case False
      then have v: "valid_at env (cached (lp_world s)) k'" using evolves_valid [OF assms(6), of env k'] v by simp
      have "out = (fst out, None) \<and> fst out = resRepeat env" if "k' = k"
        using r(1,2) v that assms(3) by (cases out) simp
      then show ?thesis using inv(2) [OF v] assms(1) by (cases "k' = k") (auto simp: tracked_def)
    qed (auto simp: tracked_def)
  next
    fix k' o' assume "lp_results ?s k' = Some o'"
    then show "snd o' = None \<and> (fst o' = resStop \<or> fst o' = resRepeat env)"
      using inv(3,4) r(1,3) by (cases "k' = k") simp_all
  qed (simp_all add: inv loop_ok_step [OF loop_step.run [OF assms(1-6)]])
qed

lemma loop_inv_report:
  assumes "lp_results s k = Some out" "sound_env env cached" "loop_inv env cached s"
  shows "loop_inv env cached (report_result delay k out s)"
proof -
  note inv = loop_invD [OF assms(3)]
  have pos: "0 < sint (syncPeriod env)" using assms(2) by (simp add: sound_env_def)
  obtain res where out: "out = (res, None)" using inv(3) [OF assms(1)] by (cases out) simp
  have res: "res = resStop \<or> res = resRepeat env" using inv(4) [OF assms(1)] by (simp add: out)
  let ?s = "report_result delay k out s"
  have f: "lp_now ?s = lp_now s" "lp_world ?s = lp_world s" "lp_results ?s = (lp_results s)(k := None)"
    "lp_pending ?s = lp_pending s" "wq_dirty (lp_queue ?s) = wq_dirty (lp_queue s)"
    "wq_processing (lp_queue ?s) = wq_processing (lp_queue s) - {k}"
    "lp_waiting ?s = (if res = resStop then lp_waiting s
       else wait_insert k (lp_now s + sint (syncPeriod env)) (lp_waiting s))"
    using pos res by (auto simp: report_result_def Let_def out add_after_def resStop_def resRepeat_def)
  have w: "t \<le> lp_now s + sint (syncPeriod env)" if "lp_waiting ?s k' = Some t" for k' t
    using that inv(5) unfolding f by (auto simp: wait_insert_def split: option.splits if_splits)
  show ?thesis
  proof (rule loop_invI)
    fix k' assume "valid_at env (cached (lp_world ?s)) k'"
    then have "tracked env s k'" by (intro inv) (simp add: f)
    moreover have "lp_waiting ?s k' \<noteq> None" if "lp_waiting s k' \<noteq> None \<or> (k' = k \<and> res \<noteq> resStop)"
      using that unfolding f by (auto simp: wait_insert_def split: option.splits)
    moreover have "resRepeat env \<noteq> resStop" using pos by (auto simp: resStop_def resRepeat_def)
    ultimately show "tracked env ?s k'"
      using w [of k'] assms(1) unfolding tracked_def f by (auto simp: out split: if_splits)
  next
    fix k' o' assume "lp_results ?s k' = Some o'"
    then have "lp_results s k' = Some o'" by (simp add: f split: if_splits)
    then show "snd o' = None \<and> (fst o' = resStop \<or> fst o' = resRepeat env)"
      using inv(3,4) by simp
  next
    fix k' t assume "lp_waiting ?s k' = Some t"
    from w [OF this] show "t \<le> lp_now ?s + sint (syncPeriod env)" by (simp add: f)
  qed (rule loop_ok_report [OF inv(1) assms(1)])
qed

lemma loop_inv_step:
  "loop_step env cached s s' \<Longrightarrow> sound_env env cached \<Longrightarrow> loop_inv env cached s \<Longrightarrow> loop_inv env cached s'"
  by (induction rule: loop_step.induct)
     (blast intro: loop_inv_outside loop_inv_deliver loop_inv_wake loop_inv_take loop_inv_run loop_inv_report)+

lemma reachable_inv:
  "reachable env cached s \<Longrightarrow> sound_env env cached \<Longrightarrow> loop_inv env cached s"
  by (induction rule: reachable.induct) (auto intro: loop_inv_start loop_inv_step)

section \<open>What the loop writes\<close>

text \<open>The writes of any number of calls, one after the other, are the permitted writes of each.\<close>

definition permitted_history :: "(gotime \<Rightarrow> bool) \<Rightarrow> 'w env \<Rightarrow> action list \<Rightarrow> bool" where
  "permitted_history P env ws \<longleftrightarrow>
     (\<exists>wss. ws = concat wss \<and>
        (\<forall>us\<in>set wss. us = [] \<or> (\<exists>ns n w chpa dep. fetched env ns n w chpa dep \<and> permitted P env chpa dep us)))"

lemma permitted_history_Nil: "permitted_history P env []"
  unfolding permitted_history_def by (rule exI [of _ "[]"]) simp

lemma permitted_history_append:
  assumes "permitted_history P env ws"
    "us = [] \<or> (\<exists>ns n w chpa dep. fetched env ns n w chpa dep \<and> permitted P env chpa dep us)"
  shows "permitted_history P env (ws @ us)"
proof -
  obtain wss where "ws = concat wss"
    "\<forall>us\<in>set wss. us = [] \<or> (\<exists>ns n w chpa dep. fetched env ns n w chpa dep \<and> permitted P env chpa dep us)"
    using assms(1) unfolding permitted_history_def by blast
  then show ?thesis
    using assms(2) unfolding permitted_history_def by (intro exI [of _ "wss @ [us]"]) auto
qed

lemma report_actions [simp]: "lp_actions (report_result delay k out s) = lp_actions s"
  by (auto simp: report_result_def add_after_def Let_def split: prod.splits)

lemma loop_step_history:
  assumes "loop_step env cached s s'" "dated P env" "permitted_history P env (writes (lp_actions s))"
  shows "permitted_history P env (writes (lp_actions s'))"
  using assms
proof (induction rule: loop_step.induct)
  case (run k s c out c' es)
  have "writes (c_actions c') = [] \<or>
      (\<exists>ns n w chpa dep. fetched env ns n w chpa dep \<and> permitted P env chpa dep (writes (c_actions c')))"
    using wp_Reconcile [OF run.prems(1), of "fst k" "snd k" c] run(4,5) unfolding wp_def split_beta
    by (simp only: fst_conv snd_conv writes_simps append_Nil) blast
  from permitted_history_append [OF run.prems(2) this] show ?case by simp
qed simp_all

lemma reachable_history:
  "reachable env cached s \<Longrightarrow> dated P env \<Longrightarrow> permitted_history P env (writes (lp_actions s))"
  by (induction rule: reachable.induct)
     (auto simp: loop_start_def permitted_history_Nil intro: loop_step_history)

text \<open>So every count the loop ever writes is justified by a CHPA it read and found valid.\<close>

lemma history_deployment:
  assumes "permitted_history P env ws" "UpdateDeployment d \<in> set ws"
  shows "\<exists>ns name w chpa dep n. fetched env ns name w chpa dep \<and> d = scaled_to dep n \<and> justified P chpa dep n"
proof -
  obtain wss where w: "ws = concat wss"
    "\<forall>us\<in>set wss. us = [] \<or> (\<exists>ns n w chpa dep. fetched env ns n w chpa dep \<and> permitted P env chpa dep us)"
    using assms(1) unfolding permitted_history_def by blast
  then obtain us where us: "us \<in> set wss" "UpdateDeployment d \<in> set us" using assms(2) by auto
  then obtain ns name w chpa dep where "fetched env ns name w chpa dep" "permitted P env chpa dep us"
    using w(2) by fastforce
  then show ?thesis using permitted_deployment [OF _ us(2)] by blast
qed

end
