(* ===== verification/Progress.thy ===== *)
theory Progress
  imports ControlLoop
begin

text \<open>
  That the control loop gets on.  The queue is fair: whatever happens, a CHPA in the queue is handed out before
  any that came after it.  Nothing is stuck: from every reachable state there are steps of the loop alone, with time
  passing for at most one sync period, after which the worker holds a given valid CHPA and is about to call
  \<open>Reconcile\<close> for it.
\<close>

section \<open>What a step does to the queue\<close>

definition handed_out :: "'w loop \<Rightarrow> 'w loop \<Rightarrow> request set" where
  "handed_out s s' = wq_processing (lp_queue s') - wq_processing (lp_queue s)"

lemma wq_Add_queue: "\<exists>js. wq_queue (wq_Add k q) = wq_queue q @ js"
  by (auto simp: wq_Add_def Let_def)

lemma wq_Done_queue: "\<exists>js. wq_queue (wq_Done k q) = wq_queue q @ js"
  by (auto simp: wq_Done_def Let_def)

lemma handle_queue: "\<exists>js. wq_queue (handle e q) = wq_queue q @ js"
proof (cases e)
  case (Updated x y)
  then show ?thesis
    using wq_Add_queue [of "request_of x" q] wq_Add_queue [of "request_of y" "wq_Add (request_of x) q"] by auto
qed (simp_all add: wq_Add_queue)

lemma report_queue: "\<exists>js. wq_queue (lp_queue (report_result delay k out s)) = wq_queue (lp_queue s) @ js"
proof -
  have "\<exists>js. wq_queue (lp_queue (add_after k d s)) = wq_queue (lp_queue s) @ js" for d
    by (simp add: add_after_def wq_Add_queue)
  then have "\<exists>js. wq_queue (wq_Done k (lp_queue (add_after k d s))) = wq_queue (lp_queue s) @ js" for d
    using wq_Done_queue [of k "lp_queue (add_after k d s)"] by (metis append.assoc)
  then show ?thesis by (simp add: report_result_def Let_def wq_Done_queue split: prod.splits)
qed

text \<open>A step hands out the head of the queue, or it hands out nothing and lets the queue grow at its end.\<close>

lemma loop_step_queue:
  assumes "loop_step env cached s s'" "loop_ok s"
  shows "(\<exists>js. handed_out s s' = {} \<and> wq_queue (lp_queue s') = wq_queue (lp_queue s) @ js) \<or>
     (\<exists>j. handed_out s s' = {j} \<and> wq_queue (lp_queue s) = j # wq_queue (lp_queue s'))"
  using assms
proof (induction rule: loop_step.induct)
  case (take s k q)
  then have "wq_ok (lp_queue s)" by (simp add: loop_ok_def)
  with wq.get_busy [OF this take(2)] take(2)
  have "handed_out s (s\<lparr>lp_queue := q\<rparr>) = {k}" "wq_queue (lp_queue s) = k # wq_queue q"
    by (auto simp: handed_out_def wq_Get_Some)
  then show ?case by simp
next
  case (report s k out delay)
  have "handed_out s (report_result delay k out s) = {}"
    by (auto simp: handed_out_def report_result_def Let_def split: prod.splits)
  then show ?case using report_queue by blast
qed (simp_all add: handed_out_def handle_queue wq_Add_queue)

section \<open>The queue is fair\<close>

definition ahead :: "request \<Rightarrow> 'w loop \<Rightarrow> request list" where
  "ahead k s = takeWhile (\<lambda>j. j \<noteq> k) (wq_queue (lp_queue s))"

text \<open>\<open>passed env cached k n s s'\<close>: steps lead from \<open>s\<close> to \<open>s'\<close> that hand out other keys than \<open>k\<close>, \<open>n\<close> times.\<close>

inductive passed :: "'w env \<Rightarrow> ('w \<Rightarrow> cache) \<Rightarrow> request \<Rightarrow> nat \<Rightarrow> 'w loop \<Rightarrow> 'w loop \<Rightarrow> bool"
  for env :: "'w env" and cached :: "'w \<Rightarrow> cache" and k :: request where
  passed_none: "passed env cached k 0 s s"
| passed_step: "passed env cached k n s s' \<Longrightarrow> loop_step env cached s' s'' \<Longrightarrow> k \<notin> handed_out s' s'' \<Longrightarrow>
     passed env cached k (n + card (handed_out s' s'')) s s''"

lemma ahead_grows:
  "k \<in> set (wq_queue (lp_queue s)) \<Longrightarrow> wq_queue (lp_queue s') = wq_queue (lp_queue s) @ js \<Longrightarrow> ahead k s' = ahead k s"
  by (simp add: ahead_def takeWhile_append1)

lemma passed_ahead:
  assumes "passed env cached k n s s'" "reachable env cached s" "k \<in> set (wq_queue (lp_queue s))"
  shows "reachable env cached s' \<and> k \<in> set (wq_queue (lp_queue s')) \<and> length (ahead k s') + n = length (ahead k s)"
  using assms
proof (induction rule: passed.induct)
  case (passed_step n s s' s'')
  then have IH: "reachable env cached s'" "k \<in> set (wq_queue (lp_queue s'))" "length (ahead k s') + n = length (ahead k s)"
    by blast+
  consider js where "handed_out s' s'' = {}" "wq_queue (lp_queue s'') = wq_queue (lp_queue s') @ js"
    | j where "handed_out s' s'' = {j}" "wq_queue (lp_queue s') = j # wq_queue (lp_queue s'')"
    using loop_step_queue [OF passed_step.hyps(2) reachable_ok [OF IH(1)]] by blast
  then have "k \<in> set (wq_queue (lp_queue s'')) \<and> length (ahead k s'') + card (handed_out s' s'') = length (ahead k s')"
  proof cases
    case 1
    then show ?thesis using IH(2) ahead_grows [OF IH(2) 1(2)] by auto
  next
    case 2
    then show ?thesis using IH(2) passed_step.hyps(3) by (auto simp: ahead_def)
  qed
  then show ?case using IH reachable.step [OF IH(1) passed_step.hyps(2)] by simp
qed simp
section \<open>Nothing is stuck\<close>

text \<open>The cache learns what a reconcile changes: there are notifications for it.\<close>

definition announced :: "'w env \<Rightarrow> ('w \<Rightarrow> cache) \<Rightarrow> bool" where
  "announced env cached \<longleftrightarrow>
     (\<forall>k c. \<exists>es. evolves (cached (c_ext c)) es (cached (c_ext (snd (run_state (Reconcile env (fst k) (snd k)) c)))))"

abbreviation leads_to :: "'w env \<Rightarrow> ('w \<Rightarrow> cache) \<Rightarrow> 'w loop \<Rightarrow> 'w loop \<Rightarrow> bool" where
  "leads_to env cached \<equiv> rtranclp (loop_step env cached)"

lemma reachable_leads: "leads_to env cached s s' \<Longrightarrow> reachable env cached s \<Longrightarrow> reachable env cached s'"
  by (induction rule: rtranclp_induct) (auto intro: reachable.step)

lemma deliver_all:
  "e \<in> set (lp_pending s) \<Longrightarrow> k \<in> enqueues e \<Longrightarrow>
   \<exists>s'. leads_to env cached s s' \<and> k \<in> wq_dirty (lp_queue s') \<and> lp_now s' = lp_now s"
proof (induction "lp_pending s" arbitrary: s)
  case (Cons e' es)
  let ?s = "s\<lparr>lp_pending := es, lp_queue := handle e' (lp_queue s)\<rparr>"
  have step: "loop_step env cached s ?s" by (rule loop_step.deliver) (simp add: Cons.hyps(2))
  show ?case
  proof (cases "k \<in> enqueues e'")
    case True
    then show ?thesis using step by (intro exI [of _ ?s]) auto
  next
    case False
    then have "e \<in> set (lp_pending ?s)" using Cons.prems by (auto simp flip: Cons.hyps(2))
    with Cons.hyps(1) [of ?s] Cons.prems(2) obtain s' where
      "leads_to env cached ?s s'" "k \<in> wq_dirty (lp_queue s')" "lp_now s' = lp_now s" by auto
    then show ?thesis using converse_rtranclp_into_rtranclp [of "loop_step env cached", OF step] by blast
  qed
qed simp

lemma wait_over:
  assumes "lp_waiting s k = Some t" "t \<le> lp_now s + p" "0 \<le> p"
  shows "\<exists>s'. leads_to env cached s s' \<and> k \<in> wq_dirty (lp_queue s') \<and> lp_now s' \<le> lp_now s + p"
proof -
  let ?t = "max (lp_now s) t"
  let ?s = "s\<lparr>lp_world := lp_world s, lp_now := ?t, lp_pending := lp_pending s @ []\<rparr>"
  let ?s' = "?s\<lparr>lp_waiting := (lp_waiting ?s)(k := None), lp_queue := wq_Add k (lp_queue ?s)\<rparr>"
  have "loop_step env cached s ?s" by (rule loop_step.outside) simp_all
  moreover have "loop_step env cached ?s ?s'" by (rule loop_step.wake [of _ _ t]) (simp_all add: assms(1))
  ultimately have "leads_to env cached s ?s'" by (meson rtranclp.rtrancl_refl rtranclp.rtrancl_into_rtrancl)
  then show ?thesis using assms(2,3) by (intro exI [of _ ?s']) simp
qed

text \<open>A worker that has a key can finish with it: it runs, and reports.\<close>

lemma report_now [simp]: "lp_now (report_result delay k out s) = lp_now s"
  by (auto simp: report_result_def add_after_def Let_def split: prod.splits)

lemma report_processing [simp]:
  "wq_processing (lp_queue (report_result delay k out s)) = wq_processing (lp_queue s) - {k}"
  by (auto simp: report_result_def Let_def split: prod.splits)

lemma worker_finishes:
  assumes "announced env cached" "j \<in> wq_processing (lp_queue s)"
  shows "\<exists>s' js. leads_to env cached s s' \<and> wq_processing (lp_queue s') = wq_processing (lp_queue s) - {j} \<and>
     wq_queue (lp_queue s') = wq_queue (lp_queue s) @ js \<and> lp_now s' = lp_now s"
proof -
  obtain s1 out where s1: "leads_to env cached s s1" "lp_results s1 j = Some out" "lp_queue s1 = lp_queue s" "lp_now s1 = lp_now s"
  proof (cases "lp_results s j")
    case None
    fix chpa dep
    let ?c = "\<lparr>c_chpa = chpa, c_deploy = dep, c_actions = [], c_ext = lp_world s\<rparr>"
    obtain out c' where r: "run_state (Reconcile env (fst j) (snd j)) ?c = (out, c')" by (metis surj_pair)
    obtain es where "evolves (cached (lp_world s)) es (cached (c_ext c'))"
      using assms(1) [unfolded announced_def, rule_format, of ?c j] r by auto
    from loop_step.run [OF assms(2) None _ _ r this]
    show ?thesis by (intro that [of "s\<lparr>lp_world := c_ext c', lp_results := (lp_results s)(j \<mapsto> out),
        lp_pending := lp_pending s @ es, lp_actions := lp_actions s @ c_actions c'\<rparr>" out]) simp_all
  qed (use that in blast)
  have "loop_step env cached s1 (report_result 0 j out s1)" by (rule loop_step.report [OF s1(2)])
  then show ?thesis
    using s1 report_queue [of 0 j out s1] by (metis report_now report_processing rtranclp.rtrancl_into_rtrancl)
qed

lemma worker_is_free:
  assumes "announced env cached" "reachable env cached s"
  shows "\<exists>s' js. leads_to env cached s s' \<and> wq_processing (lp_queue s') = {} \<and>
     wq_queue (lp_queue s') = wq_queue (lp_queue s) @ js \<and> lp_now s' = lp_now s"
proof (cases "wq_processing (lp_queue s) = {}")
  case False
  then obtain j where "j \<in> wq_processing (lp_queue s)" by blast
  from worker_finishes [OF assms(1) this] one_at_a_time [OF assms(2) this] show ?thesis by simp
qed auto

lemma worker_takes:
  assumes "reachable env cached s" "wq_processing (lp_queue s) = {}" "wq_queue (lp_queue s) = j # js"
  shows "\<exists>s'. loop_step env cached s s' \<and> wq_processing (lp_queue s') = {j} \<and> lp_results s' j = None \<and>
     wq_queue (lp_queue s') = js \<and> lp_now s' = lp_now s"
proof -
  obtain q where q: "wq_Get (lp_queue s) = Some (j, q)" "wq_queue q = js" "wq_processing q = {j}"
    using assms(2,3) by (simp add: wq_Get_def)
  have "card (wq_processing (lp_queue s)) < lp_workers s" "lp_results s j = None"
    using assms(2) reachable_workers [OF assms(1)] reachable_ok [OF assms(1)] by (auto simp: loop_ok_def)
  with loop_step.take [OF this(1) q(1)] q show ?thesis by (intro exI [of _ "s\<lparr>lp_queue := q\<rparr>"]) simp
qed

definition about_to_run :: "request \<Rightarrow> 'w loop \<Rightarrow> bool" where
  "about_to_run k s \<longleftrightarrow> k \<in> wq_processing (lp_queue s) \<and> lp_results s k = None"

lemma queued_runs:
  assumes "announced env cached" "reachable env cached s" "k \<in> set (wq_queue (lp_queue s))"
  shows "\<exists>s'. leads_to env cached s s' \<and> about_to_run k s' \<and> lp_now s' = lp_now s"
  using assms(2,3)
proof (induction "length (ahead k s)" arbitrary: s rule: less_induct)
  case less
  obtain s1 js where s1: "leads_to env cached s s1" "wq_processing (lp_queue s1) = {}"
      "wq_queue (lp_queue s1) = wq_queue (lp_queue s) @ js" "lp_now s1 = lp_now s"
    using worker_is_free [OF assms(1) less.prems(1)] by blast
  have r1: "reachable env cached s1" by (rule reachable_leads [OF s1(1) less.prems(1)])
  obtain j rest where q: "wq_queue (lp_queue s1) = j # rest" using s1(3) less.prems(2) by (metis append_is_Nil_conv empty_iff empty_set neq_Nil_conv)
  obtain s2 where s2: "loop_step env cached s1 s2" "wq_processing (lp_queue s2) = {j}" "lp_results s2 j = None"
      "wq_queue (lp_queue s2) = rest" "lp_now s2 = lp_now s1"
    using worker_takes [OF r1 s1(2) q] by blast
  have l2: "leads_to env cached s s2" using s1(1) s2(1) by simp
  show ?case
  proof (cases "j = k")
    case True
    then show ?thesis using l2 s2 s1(4) by (auto simp: about_to_run_def)
  next
    case False
    have "length (ahead k s2) < length (ahead k s1)" using False q s2(4) by (simp add: ahead_def)
    moreover have "ahead k s1 = ahead k s" by (rule ahead_grows [OF less.prems(2) s1(3)])
    moreover have "k \<in> set (wq_queue (lp_queue s2))" using False q s2(4) s1(3) less.prems(2) by (metis UnI1 set_ConsD set_append)
    ultimately obtain s' where "leads_to env cached s2 s'" "about_to_run k s'" "lp_now s' = lp_now s2"
      using less.hyps [of s2] reachable_leads [OF l2 less.prems(1)] by auto
    then show ?thesis using l2 s2(5) s1(4) by (auto intro: rtranclp_trans)
  qed
qed

lemma due_runs:
  assumes "announced env cached" "reachable env cached s" "k \<in> wq_dirty (lp_queue s)"
  shows "\<exists>s'. leads_to env cached s s' \<and> about_to_run k s' \<and> lp_now s' = lp_now s"
proof -
  have ok: "wq_ok (lp_queue s)" using reachable_ok [OF assms(2)] by (simp add: loop_ok_def)
  show ?thesis
  proof (cases "k \<in> wq_processing (lp_queue s)")
    case False
    then have "k \<in> set (wq_queue (lp_queue s))" using ok assms(3) by (simp add: wq_ok_def)
    then show ?thesis by (rule queued_runs [OF assms(1,2)])
  next
    case True
    show ?thesis
    proof (cases "lp_results s k")
      case None
      then show ?thesis using True by (auto simp: about_to_run_def)
    next
      case (Some out)
      let ?s = "report_result 0 k out s"
      have step: "loop_step env cached s ?s" by (rule loop_step.report [OF Some])
      have r: "reachable env cached ?s" by (rule reachable.step [OF assms(2) step])
      have "k \<in> wq_dirty (lp_queue ?s)" using assms(3) by (auto simp: report_result_def add_after_def Let_def split: prod.splits)
      then have "k \<in> set (wq_queue (lp_queue ?s))" using reachable_ok [OF r] by (simp add: loop_ok_def wq_ok_def)
      from queued_runs [OF assms(1) r this] show ?thesis
        using converse_rtranclp_into_rtranclp [of "loop_step env cached", OF step] by auto
    qed
  qed
qed

lemma tracked_runs:
  assumes "announced env cached" "reachable env cached s" "sound_env env cached" "tracked env s k"
  shows "\<exists>s'. leads_to env cached s s' \<and> about_to_run k s' \<and> lp_now s' \<le> lp_now s + sint (syncPeriod env)"
proof -
  have pos: "0 < sint (syncPeriod env)" using assms(3) by (simp add: sound_env_def)
  have go: ?thesis if "leads_to env cached s s1" "k \<in> wq_dirty (lp_queue s1)" "lp_now s1 \<le> lp_now s + sint (syncPeriod env)" for s1
    using due_runs [OF assms(1) reachable_leads [OF that(1) assms(2)] that(2)] that(1,3) by (metis rtranclp_trans)
  consider "k \<in> wq_dirty (lp_queue s)" | "about_to_run k s" | "lp_results s k = Some (resRepeat env, None)"
    | t where "lp_waiting s k = Some t" "t \<le> lp_now s + sint (syncPeriod env)"
    | e where "e \<in> set (lp_pending s)" "k \<in> enqueues e"
    using assms(4) by (auto simp: tracked_def about_to_run_def)
  then show ?thesis
  proof cases
    case 1
    then show ?thesis using pos by (intro go [of s]) simp_all
  next
    case 2
    then show ?thesis using pos by (intro exI [of _ s]) simp
  next
    case 3
    let ?s = "report_result 0 k (resRepeat env, None) s"
    have step: "loop_step env cached s ?s" by (rule loop_step.report [OF 3])
    have w: "lp_waiting ?s k \<noteq> None" using pos
      by (auto simp: report_result_def add_after_def Let_def resRepeat_def wait_insert_time)
    then obtain t where t: "lp_waiting ?s k = Some t" by blast
    then have "t \<le> lp_now ?s + sint (syncPeriod env)"
      by (rule loop_invD(5) [OF reachable_inv [OF reachable.step [OF assms(2) step] assms(3)]])
    from wait_over [OF t this] pos show ?thesis
      using go converse_rtranclp_into_rtranclp [of "loop_step env cached", OF step] by (metis less_imp_le report_now)
  next
    case 4
    from wait_over [OF this] pos show ?thesis using go by (meson less_imp_le)
  next
    case 5
    from deliver_all [OF this, of env cached] pos show ?thesis using go by (metis add_increasing2 less_imp_le order_refl)
  qed
qed

end
