(* ===== verification/Settling.thy ===== *)
theory Settling
  imports Progress
begin

text \<open>
  That the controller does not drive itself.  Writing a CHPA back makes the informer announce an update; were that
  enough to queue the CHPA again, the loop would never come to rest.  The predicate drops the announcement when
  the specification is the same, and the specification changes at most once, when the defaults are stored.

  Proved: with the clock standing still and nobody else acting, the loop comes to rest after a number of steps
  that is bounded by the work it has at hand; a state in which it rests has no work left.
\<close>

section \<open>What a reconcile stores\<close>

text \<open>
  What is asked of the API server: only updates of a CHPA change the CHPAs stored; an update stores the object
  under its name, with the specification it was given, or fails and stores nothing.
\<close>

definition storing :: "'w env \<Rightarrow> ('w \<Rightarrow> cache) \<Rightarrow> bool" where
  "storing env cached \<longleftrightarrow>
     reads_keep (\<lambda>w w'. cached w' = cached w) env \<and>
     (\<forall>ns n. frames (\<lambda>w w'. cached w' = cached w) (get_chpa env ns n)) \<and>
     (\<forall>ns n. frames (\<lambda>w w'. cached w' = cached w) (get_deployment env ns n)) \<and>
     (\<forall>d. frames (\<lambda>w w'. cached w' = cached w) (update_deployment env d)) \<and>
     (\<forall>x w. wp (update_chpa env x) (\<lambda>(_, y) w'. request_of y = request_of x \<and> Spec y = Spec x \<and>
        (cached w' = cached w \<or> cached w' = (cached w)(request_of x \<mapsto> y))) w) \<and>
     (\<forall>w k x. cached w k = Some x \<longrightarrow> request_of x = k)"

lemma storing_key: "storing env cached \<Longrightarrow> cached w k = Some x \<Longrightarrow> request_of x = k"
  unfolding storing_def by blast

definition stored :: "('w \<Rightarrow> cache) \<Rightarrow> 'w ctx \<Rightarrow> 'w ctx \<Rightarrow> bool" where
  "stored cached c c' \<longleftrightarrow>
     request_of (c_chpa c') = request_of (c_chpa c) \<and> Spec (c_chpa c') = Spec (c_chpa c) \<and>
     (cached (c_ext c') = cached (c_ext c) \<or>
      (\<exists>y. request_of y = request_of (c_chpa c) \<and> Spec y = Spec (c_chpa c) \<and>
           cached (c_ext c') = (cached (c_ext c))(request_of y \<mapsto> y)))"

lemma stored_refl: "stored cached c c"
  by (simp add: stored_def)

lemma stored_trans: "stored cached c c' \<Longrightarrow> stored cached c' c'' \<Longrightarrow> stored cached c c''"
  by (auto simp: stored_def)

lemma stored_same:
  "c_chpa c' = c_chpa c \<Longrightarrow> cached (c_ext c') = cached (c_ext c) \<Longrightarrow> stored cached c c'"
  by (simp add: stored_def)

lemma stored_status:
  "stored cached c (c\<lparr>c_chpa := (c_chpa c)\<lparr>Status := s\<rparr>\<rparr>)"
  by (simp add: stored_def request_of_def)

lemma stored_steps:
  assumes "storing env cached"
  shows "steps (\<lambda>w w'. cached w' = cached w) (stored cached) env"
proof (rule plain_steps.steps, unfold_locales)
  fix c c' c'' :: "'a ctx" and w :: 'a
  show "stored cached c c" by (rule stored_refl)
  show "stored cached c c' \<Longrightarrow> stored cached c' c'' \<Longrightarrow> stored cached c c''" by (rule stored_trans)
  show "cached w = cached (c_ext c) \<Longrightarrow> stored cached c (c\<lparr>c_ext := w\<rparr>)" by (rule stored_same) simp_all
  show "stored cached c (c\<lparr>c_actions := c_actions c @ [Event t r m]\<rparr>)" for t r m by (rule stored_same) simp_all
qed (use assms in \<open>simp_all add: storing_def stored_status\<close>)

lemma stored_update:
  assumes "storing env cached"
  shows "frames (stored cached) (updateStatusIfNeeded env old)"
proof (rule framesI)
  fix c :: "'a ctx"
  have "wp (update_chpa env (c_chpa c)) (\<lambda>(_, y) w'. request_of y = request_of (c_chpa c) \<and> Spec y = Spec (c_chpa c) \<and>
      (cached w' = cached (c_ext c) \<or> cached w' = (cached (c_ext c))(request_of (c_chpa c) \<mapsto> y))) (c_ext c)"
    using assms by (simp add: storing_def)
  then have "wp (update_chpa env (c_chpa c)) (\<lambda>r w. stored cached c
      (c\<lparr>c_actions := c_actions c @ [UpdateCHPA (c_chpa c)], c_ext := w, c_chpa := snd r\<rparr>)) (c_ext c)"
    by (rule wp_mono) (auto simp: stored_def)
  then show "wp (updateStatusIfNeeded env old) (\<lambda>_. stored cached c) c"
    unfolding wp_updateStatusIfNeeded by (simp add: stored_refl)
qed

lemma stored_setStatus:
  assumes "storing env cached"
  shows "frames (stored cached) (setStatus env cur des ms b)"
proof -
  note steps = stored_steps [OF assms]
  have "frames (stored cached) (modify_status f)" for f :: "CHPAStatus \<Rightarrow> CHPAStatus"
    by (rule framesI) (simp add: wp_simps stored_status)
  then show ?thesis
    unfolding setStatus_def by (intro steps.step_intros [OF steps] steps.step_clock [OF steps])
qed

lemma stored_setCurrent: "storing env cached \<Longrightarrow> frames (stored cached) (setCurrentReplicasInStatus env cur)"
  unfolding setCurrentReplicasInStatus_def
  by (intro steps.step_intros [OF stored_steps] stored_setStatus)

lemma stored_rescale:
  assumes "storing env cached"
  shows "frames (stored cached) (rescale_deployment env n)"
proof -
  note steps = stored_steps [OF assms]
  have "frames (stored cached) (act a)" "frames (stored cached) (set_deploy_replicas n)" for a
    by (rule framesI, simp add: wp_simps stored_same)+
  moreover have "frames (\<lambda>w w'. cached w' = cached w) (update_deployment env d)" for d
    using assms by (simp add: storing_def)
  ultimately show ?thesis
    unfolding rescale_deployment_def by (intro steps.step_intros [OF steps] steps.step_on_ext [OF steps])
qed

lemma stored_body:
  assumes "storing env cached"
  shows "frames (stored cached) (reconcileCHPA env)"
proof -
  note steps = stored_steps [OF assms]
  note s = steps.step_intros [OF steps] steps.step_clock [OF steps] steps.step_compute [OF steps] steps.step_normalize [OF steps]
    steps.step_backoff [OF steps] steps.step_failed_update [OF steps] stored_update [OF assms] stored_setStatus [OF assms]
    stored_setCurrent [OF assms] stored_rescale [OF assms]
  show ?thesis
    unfolding reconcileCHPA_def reconcile_body_def decide_def metrics_decision_def apply_decision_def finish_status_def Let_def
    by (intro s)
qed

lemma stored_process:
  assumes "storing env cached"
  shows "frames (stored cached) (process_deployment env)"
proof -
  note steps = stored_steps [OF assms]
  have "frames (stored cached) (State_Monad.update (\<lambda>c. c\<lparr>c_deploy := d\<rparr>))" for d
    by (rule framesI) (simp add: wp_simps stored_same)
  moreover have "frames (\<lambda>w w'. cached w' = cached w) (get_deployment env ns n)" for ns n
    using assms by (simp add: storing_def)
  ultimately show ?thesis
    unfolding process_deployment_def
    by (intro steps.step_intros [OF steps] steps.step_on_ext [OF steps] stored_body [OF assms])
qed

text \<open>A call stores nothing, or the CHPA it was called for with its defaults.\<close>

lemma Reconcile_stores:
  assumes s: "storing env cached" and e: "sound_env env cached"
    and run: "run_state (Reconcile env (fst k) (snd k)) c = (out, c')"
  shows "cached (c_ext c') = cached (c_ext c) \<or>
     (\<exists>x y. cached (c_ext c) k = Some x \<and> request_of x = k \<and> request_of y = k \<and> Spec y = Spec (setCHPADefaults x) \<and>
            cached (c_ext c') = (cached (c_ext c))(k \<mapsto> y))"
proof -
  obtain r w where r: "run_state (get_chpa env (fst k) (snd k)) (c_ext c) = (r, w)" by (metis surj_pair)
  have "frames (\<lambda>w w'. cached w' = cached w) (get_chpa env (fst k) (snd k))" using s by (simp add: storing_def)
  from framesD [OF this, of "c_ext c"] have w: "cached w = cached (c_ext c)" by (simp add: r)
  have bind: "wp (on_ext (get_chpa env (fst k) (snd k))) K c = K r (c\<lparr>c_ext := w\<rparr>)" for K
    unfolding wp_on_ext by (simp add: wp_def r)
  let ?goal = "\<lambda>_ (c' :: 'a ctx). cached (c_ext c') = cached (c_ext c) \<or>
     (\<exists>x y. cached (c_ext c) k = Some x \<and> request_of x = k \<and> request_of y = k \<and> Spec y = Spec (setCHPADefaults x) \<and>
            cached (c_ext c') = (cached (c_ext c))(k \<mapsto> y))"
  have "wp (Reconcile env (fst k) (snd k)) ?goal c"
  proof (cases r)
    case (Inl err)
    then show ?thesis unfolding Reconcile_def wp_bind bind by (cases err) (simp_all add: wp_simps w)
  next
    case (Inr x)
    let ?c1 = "c\<lparr>c_ext := w, c_chpa := setCHPADefaults x\<rparr>"
    have "case r of Inr x \<Rightarrow> cached (c_ext c) k = Some x | Inl (NotFound _) \<Rightarrow> cached (c_ext c) k = None | Inl (OtherError _) \<Rightarrow> True"
      using e r unfolding sound_env_def by (metis fst_conv)
    then have x: "cached (c_ext c) k = Some x" by (simp add: Inr)
    have xk: "request_of x = k" by (rule storing_key [OF s x])
    then have k: "request_of (setCHPADefaults x) = k" by (simp add: request_of_def setCHPADefaults_def)
    note steps = stored_steps [OF s]
    have "frames (stored cached) (case checkCHPAValidity (sprintf0 env) (setCHPADefaults x) of
         Inl err \<Rightarrow> do {
           record_event ''Warning'' ''FailedSpecCheck'' err;
           setCondition env ''AbleToScale'' ''False'' ''FailedSpecCheck'' (''Invalid CHPA specification: '' @ err);
           State_Monad.return (resStop, None)
         }
       | Inr _ \<Rightarrow> process_deployment env)"
      by (intro steps.step_intros [OF steps] stored_process [OF s])
    then show ?thesis
      unfolding Reconcile_def wp_bind bind Inr sum.case wp_update
      by (rule frames_wp) (use x xk k w in \<open>auto simp: stored_def\<close>)
  qed
  then show ?thesis by (simp add: wp_def run)
qed

section \<open>The steps of the loop alone\<close>

text \<open>What the cache is told of a call: the one CHPA that may have changed.\<close>

definition changes :: "request \<Rightarrow> cache \<Rightarrow> cache \<Rightarrow> notification list" where
  "changes k m m' = (case (m k, m' k) of (Some x, Some y) \<Rightarrow> if x = y then [] else [Updated x y] | _ \<Rightarrow> [])"

lemma evolves_changes:
  assumes "m' = m \<or> (\<exists>x y. m k = Some x \<and> request_of x = k \<and> request_of y = k \<and> m' = m(k \<mapsto> y))"
  shows "evolves m (changes k m m') m'"
  using assms by (auto simp: changes_def split: option.splits)

text \<open>The steps of \<open>loop_step\<close> but for those of others and of the clock.\<close>

inductive own_step :: "'w env \<Rightarrow> ('w \<Rightarrow> cache) \<Rightarrow> 'w loop \<Rightarrow> 'w loop \<Rightarrow> bool"
  for env :: "'w env" and cached :: "'w \<Rightarrow> cache" where
  own_deliver: "lp_pending s = e # es \<Longrightarrow>
     own_step env cached s (s\<lparr>lp_pending := es, lp_queue := handle e (lp_queue s)\<rparr>)"
| own_wake: "lp_waiting s k = Some t \<Longrightarrow> t \<le> lp_now s \<Longrightarrow>
     own_step env cached s (s\<lparr>lp_waiting := (lp_waiting s)(k := None), lp_queue := wq_Add k (lp_queue s)\<rparr>)"
| own_take: "card (wq_processing (lp_queue s)) < lp_workers s \<Longrightarrow> wq_Get (lp_queue s) = Some (k, q) \<Longrightarrow>
     own_step env cached s (s\<lparr>lp_queue := q\<rparr>)"
| own_run: "k \<in> wq_processing (lp_queue s) \<Longrightarrow> lp_results s k = None \<Longrightarrow>
     c_ext c = lp_world s \<Longrightarrow> c_actions c = [] \<Longrightarrow>
     run_state (Reconcile env (fst k) (snd k)) c = (out, c') \<Longrightarrow>
     own_step env cached s (s\<lparr>lp_world := c_ext c', lp_results := (lp_results s)(k \<mapsto> out),
       lp_pending := lp_pending s @ changes k (cached (lp_world s)) (cached (c_ext c')),
       lp_actions := lp_actions s @ c_actions c'\<rparr>)"
| own_report: "lp_results s k = Some out \<Longrightarrow>
     own_step env cached s (report_result delay k out s)"

lemma own_step_loop_step:
  assumes "own_step env cached s s'" "storing env cached" "sound_env env cached"
  shows "loop_step env cached s s'"
  using assms
proof (induction rule: own_step.induct)
  case (own_run k s c out c')
  from Reconcile_stores [OF own_run.prems own_run.hyps(5)]
  have "evolves (cached (lp_world s)) (changes k (cached (lp_world s)) (cached (c_ext c'))) (cached (c_ext c'))"
    unfolding own_run.hyps(3) by (intro evolves_changes) blast
  then show ?case by (rule loop_step.run [OF own_run.hyps])
qed (blast intro: loop_step.intros)+

section \<open>The work at hand\<close>

text \<open>A CHPA whose defaults are stored: written back it is the same, as the predicate compares specifications.\<close>

definition settled_spec :: "CHPA \<Rightarrow> bool" where
  "settled_spec x \<longleftrightarrow> spec_DeepEqual (Spec (setCHPADefaults x)) (Spec x)"

definition unsettled :: "cache \<Rightarrow> request set" where
  "unsettled m = {k. \<exists>x. m k = Some x \<and> \<not> settled_spec x}"

definition overdue :: "'w loop \<Rightarrow> request set" where
  "overdue s = {k. \<exists>t. lp_waiting s k = Some t \<and> t \<le> lp_now s}"

definition notice_work :: "notification \<Rightarrow> nat" where
  "notice_work e = 1 + 4 * card (enqueues e)"

definition hand_work :: "'w loop \<Rightarrow> request \<Rightarrow> nat" where
  "hand_work s k = (if lp_results s k = None then 3 else 1)"

definition work :: "('w \<Rightarrow> cache) \<Rightarrow> 'w loop \<Rightarrow> nat" where
  "work cached s = 4 * card (unsettled (cached (lp_world s))) + sum_list (map notice_work (lp_pending s)) +
     5 * card (overdue s) + 4 * card (wq_dirty (lp_queue s)) + sum (hand_work s) (wq_processing (lp_queue s))"

text \<open>The two floats of a specification are numbers: decoded from JSON they cannot be otherwise.\<close>

definition numeric :: "CHPA \<Rightarrow> bool" where
  "numeric x \<longleftrightarrow> ScaleUpLimitFactor (Spec x) \<noteq> F_NaN \<and> Tolerance (Spec x) \<noteq> F_NaN"

definition bounded :: "('w \<Rightarrow> cache) \<Rightarrow> 'w loop \<Rightarrow> bool" where
  "bounded cached s \<longleftrightarrow> finite (dom (cached (lp_world s))) \<and> finite (dom (lp_waiting s)) \<and>
     finite (wq_dirty (lp_queue s)) \<and> finite (wq_processing (lp_queue s))"

lemma finite_enqueues: "finite (enqueues e)"
  by (cases e) (simp_all add: enqueues_def wq_empty_def)

lemma finite_evolves: "evolves m es m' \<Longrightarrow> finite (dom m) \<Longrightarrow> finite (dom m')"
proof (induction es arbitrary: m)
  case (Cons e es)
  then have "finite (dom (applied e m))" by (cases e) simp_all
  then show ?case using Cons by auto
qed simp

lemma finite_add_after:
  "finite (wq_dirty (lp_queue (add_after k d s))) = finite (wq_dirty (lp_queue s))"
  "finite (dom (lp_waiting (add_after k d s))) = finite (dom (lp_waiting s))"
  by (simp_all add: add_after_def)

lemma bounded_step: "loop_step env cached s s' \<Longrightarrow> bounded cached s \<Longrightarrow> bounded cached s'"
proof (induction rule: loop_step.induct)
  case (take s k q)
  then show ?case by (simp add: bounded_def wq_Get_Some)
next
  case (report s k out delay)
  then show ?case
    by (auto simp: bounded_def report_result_def Let_def finite_add_after split: prod.splits)
qed (auto simp: bounded_def finite_enqueues intro: finite_evolves)

lemma reachable_bounded: "reachable env cached s \<Longrightarrow> bounded cached s"
proof (induction rule: reachable.induct)
  case (start s)
  then have "evolves Map.empty (lp_pending s) (cached (lp_world s))" "lp_waiting s = Map.empty" "lp_queue s = wq_empty"
    by (simp_all add: loop_start_def)
  then show ?case using finite_evolves by (auto simp: bounded_def wq_empty_def)
qed (rule bounded_step)

section \<open>Every step does some of the work\<close>

lemma card_enqueues_Updated:
  "request_of y = request_of x \<Longrightarrow> card (enqueues (Updated x y)) \<le> 1"
  by (simp add: enqueues_def wq_empty_def)

lemma settled_spec_stored: "numeric y \<Longrightarrow> Spec y = Spec (setCHPADefaults x) \<Longrightarrow> settled_spec y"
  by (simp add: settled_spec_def numeric_def setCHPADefaults_def spec_DeepEqual_refl)

lemma numeric_defaults: "numeric x \<Longrightarrow> numeric (setCHPADefaults x)"
  by (auto simp: numeric_def setCHPADefaults_def defaultScaleUpLimitFactor_def f64_of_int_exact defaultTolerance_eq)

lemma settled_not_announced:
  "settled_spec x \<Longrightarrow> Spec y = Spec (setCHPADefaults x) \<Longrightarrow> enqueues (Updated x y) = {}"
  by (simp add: settled_spec_def enqueues_def updatePredicate_def wq_empty_def)

text \<open>A CHPA that is stored with its defaults is settled; it was announced only if it was not before.\<close>

lemma stored_work:
  assumes m': "m' = m \<or> (\<exists>x y. m k = Some x \<and> request_of x = k \<and> request_of y = k \<and> Spec y = Spec (setCHPADefaults x) \<and> m' = m(k \<mapsto> y))"
    and f: "finite (dom m)" and n: "\<And>x. m k = Some x \<Longrightarrow> numeric x"
  shows "4 * card (unsettled m') + sum_list (map notice_work (changes k m m')) \<le> 4 * card (unsettled m) + 1"
  using m'
proof (elim disjE exE conjE)
  assume "m' = m"
  then show ?thesis by (simp add: changes_def split: option.splits)
next
  fix x y assume x: "m k = Some x" "request_of x = k" "request_of y = k" "Spec y = Spec (setCHPADefaults x)" "m' = m(k \<mapsto> y)"
  have "numeric y" using numeric_defaults [OF n [OF x(1)]] x(4) by (simp add: numeric_def)
  then have y: "settled_spec y" using x(4) by (rule settled_spec_stored)
  have u: "unsettled m' = unsettled m - {k}" using y x(5) by (auto simp: unsettled_def)
  have fu: "finite (unsettled m)" by (rule finite_subset [OF _ f]) (auto simp: unsettled_def)
  show ?thesis
  proof (cases "settled_spec x")
    case True
    then have "enqueues (Updated x y) = {}" by (rule settled_not_announced [OF _ x(4)])
    then have "sum_list (map notice_work (changes k m m')) \<le> 1" by (simp add: changes_def x notice_work_def)
    moreover have "card (unsettled m') \<le> card (unsettled m)" unfolding u by (rule card_mono) (use fu in auto)
    ultimately show ?thesis by linarith
  next
    case False
    then have "k \<in> unsettled m" using x(1) by (auto simp: unsettled_def)
    then have "card (unsettled m) = Suc (card (unsettled m'))" unfolding u by (rule card.remove [OF fu])
    moreover have "sum_list (map notice_work (changes k m m')) \<le> 5"
      using card_enqueues_Updated [of y x] x by (simp add: changes_def notice_work_def)
    ultimately show ?thesis by linarith
  qed
qed

lemma hand_work_cong: "lp_results s' = lp_results s \<Longrightarrow> hand_work s' = hand_work s"
  by (simp add: hand_work_def fun_eq_iff)

lemma overdue_cong: "lp_waiting s' = lp_waiting s \<Longrightarrow> lp_now s' = lp_now s \<Longrightarrow> overdue s' = overdue s"
  by (simp add: overdue_def)

lemma sum_hand_take:
  "finite P \<Longrightarrow> k \<notin> P \<Longrightarrow> sum (hand_work s) (insert k P) \<le> 3 + sum (hand_work s) P"
  by (simp add: hand_work_def)

lemma sum_hand_run:
  assumes "finite P" "k \<in> P" "lp_results s k = None" "lp_results s' = (lp_results s)(k \<mapsto> out)"
  shows "sum (hand_work s) P = 2 + sum (hand_work s') P"
proof -
  have "sum (hand_work s') (P - {k}) = sum (hand_work s) (P - {k})"
    by (rule sum.cong) (simp_all add: hand_work_def assms(4))
  then show ?thesis using sum.remove [OF assms(1,2), of "hand_work s"] sum.remove [OF assms(1,2), of "hand_work s'"] assms(3,4)
    by (simp add: hand_work_def)
qed

lemma run_works:
  assumes "k \<in> wq_processing (lp_queue s)" "lp_results s k = None" "c_ext c = lp_world s"
    "run_state (Reconcile env (fst k) (snd k)) c = (out, c')" "storing env cached" "sound_env env cached" "bounded cached s"
    "\<And>k x. cached (lp_world s) k = Some x \<Longrightarrow> numeric x"
  shows "work cached (s\<lparr>lp_world := c_ext c', lp_results := (lp_results s)(k \<mapsto> out),
       lp_pending := lp_pending s @ changes k (cached (lp_world s)) (cached (c_ext c')),
       lp_actions := lp_actions s @ c_actions c'\<rparr>) < work cached s"
proof -
  let ?m = "cached (lp_world s)" and ?m' = "cached (c_ext c')"
  let ?s = "s\<lparr>lp_world := c_ext c', lp_results := (lp_results s)(k \<mapsto> out),
       lp_pending := lp_pending s @ changes k ?m ?m', lp_actions := lp_actions s @ c_actions c'\<rparr>"
  have "4 * card (unsettled ?m') + sum_list (map notice_work (changes k ?m ?m')) \<le> 4 * card (unsettled ?m) + 1"
  proof (rule stored_work)
    show "?m' = ?m \<or> (\<exists>x y. ?m k = Some x \<and> request_of x = k \<and> request_of y = k \<and> Spec y = Spec (setCHPADefaults x) \<and> ?m' = ?m(k \<mapsto> y))"
      using Reconcile_stores [OF assms(5,6,4)] unfolding assms(3) .
    show "finite (dom ?m)" using assms(7) by (simp add: bounded_def)
  qed (rule assms(8))
  moreover have "finite (wq_processing (lp_queue s))" using assms(7) by (simp add: bounded_def)
  then have "sum (hand_work s) (wq_processing (lp_queue s)) = 2 + sum (hand_work ?s) (wq_processing (lp_queue s))"
    by (rule sum_hand_run) (use assms(1,2) in simp_all)
  moreover have "overdue ?s = overdue s" by (rule overdue_cong) simp_all
  ultimately show ?thesis by (simp add: work_def)
qed

lemma report_works:
  assumes "lp_results s k = Some out" "sound_env env cached" "loop_inv env cached s"
  shows "work cached (report_result delay k out s) < work cached s"
proof -
  let ?s = "report_result delay k out s"
  note inv = loop_invD [OF assms(3)]
  have pos: "0 < sint (syncPeriod env)" using assms(2) by (simp add: sound_env_def)
  have "out = (resStop, None) \<or> out = (resRepeat env, None)"
    using inv(3,4) [OF assms(1)] by (cases out) simp
  then have d: "wq_dirty (lp_queue ?s) = wq_dirty (lp_queue s)" "lp_pending ?s = lp_pending s" "lp_world ?s = lp_world s"
    and w: "lp_waiting ?s = lp_waiting s \<or> lp_waiting ?s = wait_insert k (lp_now s + sint (syncPeriod env)) (lp_waiting s)"
    using pos by (auto simp: report_result_def Let_def add_after_def resStop_def resRepeat_def)
  have o: "overdue ?s = overdue s"
    using w pos by (elim disjE) (auto simp: overdue_def wait_insert_def split: option.splits if_splits)
  have f: "finite (wq_processing (lp_queue s))" and k: "k \<in> wq_processing (lp_queue s)"
    using inv(1) assms(1) by (auto simp: loop_ok_def)
  have "sum (hand_work ?s) (wq_processing (lp_queue s) - {k}) = sum (hand_work s) (wq_processing (lp_queue s) - {k})"
    by (rule sum.cong) (auto simp: hand_work_def report_result_def Let_def split: prod.splits)
  then have "sum (hand_work s) (wq_processing (lp_queue s)) = 1 + sum (hand_work ?s) (wq_processing (lp_queue ?s))"
    using sum.remove [OF f k, of "hand_work s"] assms(1) by (simp add: hand_work_def)
  then show ?thesis by (simp add: work_def d o)
qed

lemma own_step_works:
  assumes "own_step env cached s s'" "storing env cached" "sound_env env cached" "loop_inv env cached s" "bounded cached s"
    "\<And>k x. cached (lp_world s) k = Some x \<Longrightarrow> numeric x"
  shows "work cached s' < work cached s"
  using assms
proof (induction rule: own_step.induct)
  case (own_deliver s e es)
  let ?s = "s\<lparr>lp_pending := es, lp_queue := handle e (lp_queue s)\<rparr>"
  have "hand_work ?s = hand_work s" by (rule hand_work_cong) simp
  moreover have "overdue ?s = overdue s" by (rule overdue_cong) simp_all
  moreover have "card (enqueues e \<union> wq_dirty (lp_queue s)) \<le> card (enqueues e) + card (wq_dirty (lp_queue s))" by (rule card_Un_le)
  ultimately show ?case by (simp add: work_def own_deliver.hyps notice_work_def)
next
  case (own_wake s k t)
  let ?s = "s\<lparr>lp_waiting := (lp_waiting s)(k := None), lp_queue := wq_Add k (lp_queue s)\<rparr>"
  have o: "overdue ?s = overdue s - {k}" "k \<in> overdue s" using own_wake.hyps by (auto simp: overdue_def)
  have "finite (overdue s)"
    by (rule finite_subset [of _ "dom (lp_waiting s)"]) (use own_wake.prems(4) in \<open>auto simp: overdue_def bounded_def\<close>)
  then have "card (overdue s) = Suc (card (overdue ?s))" unfolding o(1) using o(2) by (rule card.remove)
  moreover have "card (insert k (wq_dirty (lp_queue s))) \<le> Suc (card (wq_dirty (lp_queue s)))" by (rule card_insert_le_m1) simp_all
  moreover have "hand_work ?s = hand_work s" by (rule hand_work_cong) simp
  ultimately show ?case by (simp add: work_def)
next
  case (own_take s k q)
  let ?s = "s\<lparr>lp_queue := q\<rparr>"
  have ok: "wq_ok (lp_queue s)" using loop_invD(1) [OF own_take.prems(3)] by (simp add: loop_ok_def)
  note g = wq.get_due [OF ok own_take.hyps(2)] wq.get_busy [OF ok own_take.hyps(2)]
  have f: "finite (wq_dirty (lp_queue s))" "finite (wq_processing (lp_queue s))" using own_take.prems(4) by (simp_all add: bounded_def)
  have "card (wq_dirty (lp_queue s)) = Suc (card (wq_dirty q))" using g card.remove [OF f(1), of k] by simp
  moreover have "sum (hand_work s) (wq_processing q) \<le> 3 + sum (hand_work s) (wq_processing (lp_queue s))"
    using sum_hand_take [OF f(2), of k s] g by simp
  moreover have "hand_work ?s = hand_work s" by (rule hand_work_cong) simp
  moreover have "overdue ?s = overdue s" by (rule overdue_cong) simp_all
  ultimately show ?case by (simp add: work_def)
next
  case (own_run k s c out c')
  show ?case by (rule run_works [OF own_run.hyps(1-3,5) own_run.prems(1,2,4,5)])
next
  case (own_report s k out delay)
  show ?case by (rule report_works [OF own_report.hyps own_report.prems(2,3)])
qed

lemma numeric_step:
  assumes "own_step env cached s s'" "storing env cached" "sound_env env cached"
    "\<And>k x. cached (lp_world s) k = Some x \<Longrightarrow> numeric x" "cached (lp_world s') k = Some x"
  shows "numeric x"
  using assms
proof (induction rule: own_step.induct)
  case (own_run k' s c out c')
  from Reconcile_stores [OF own_run.prems(1,2) own_run.hyps(5)] show ?case
    using own_run.prems(3,4) numeric_defaults unfolding own_run.hyps(3)
    by (elim disjE exE conjE) (auto simp: numeric_def split: if_splits)
next
  case (own_report s k' out delay)
  then show ?case by (simp add: report_result_def Let_def split: prod.splits if_splits)
qed simp_all

text \<open>So the length of a run is bounded by the work.\<close>

lemma own_steps_bounded:
  assumes "(own_step env cached ^^ n) s s'" "reachable env cached s" "storing env cached" "sound_env env cached"
    "\<And>k x. cached (lp_world s) k = Some x \<Longrightarrow> numeric x"
  shows "n + work cached s' \<le> work cached s \<and> reachable env cached s' \<and> (\<forall>k x. cached (lp_world s') k = Some x \<longrightarrow> numeric x)"
  using assms(1)
proof (induction n arbitrary: s')
  case 0
  then show ?case using assms by auto
next
  case (Suc n)
  then obtain t where t: "(own_step env cached ^^ n) s t" "own_step env cached t s'" by auto
  with Suc.IH have IH: "n + work cached t \<le> work cached s" "reachable env cached t" "\<And>k x. cached (lp_world t) k = Some x \<Longrightarrow> numeric x"
    by blast+
  have "work cached s' < work cached t"
    by (rule own_step_works [OF t(2) assms(3,4) reachable_inv [OF IH(2) assms(4)] reachable_bounded [OF IH(2)] IH(3)])
  moreover have "reachable env cached s'"
    by (rule reachable.step [OF IH(2) own_step_loop_step [OF t(2) assms(3,4)]])
  moreover have "numeric x" if "cached (lp_world s') k = Some x" for k x
    by (rule numeric_step [OF t(2) assms(3,4) IH(3) that])
  ultimately show ?case using IH(1) by auto
qed

section \<open>At rest\<close>

definition at_rest :: "'w loop \<Rightarrow> bool" where
  "at_rest s \<longleftrightarrow> lp_pending s = [] \<and> overdue s = {} \<and> wq_dirty (lp_queue s) = {} \<and> wq_processing (lp_queue s) = {}"

text \<open>While there is work there is a step.\<close>

lemma not_at_rest_steps:
  assumes "reachable env cached s" "\<not> at_rest s"
  shows "\<exists>s'. own_step env cached s s'"
proof -
  consider e es where "lp_pending s = e # es" | k t where "lp_waiting s k = Some t" "t \<le> lp_now s"
    | k where "k \<in> wq_processing (lp_queue s)" | "wq_processing (lp_queue s) = {}" "wq_dirty (lp_queue s) \<noteq> {}"
    using assms(2) unfolding at_rest_def overdue_def by (cases "lp_pending s") blast+
  then show ?thesis
  proof cases
    case 1
    from own_deliver [OF this] show ?thesis by blast
  next
    case 2
    from own_wake [OF this] show ?thesis by blast
  next
    case (3 k)
    show ?thesis
    proof (cases "lp_results s k")
      case None
      fix chpa dep
      let ?c = "\<lparr>c_chpa = chpa, c_deploy = dep, c_actions = [], c_ext = lp_world s\<rparr>"
      obtain out c' where "run_state (Reconcile env (fst k) (snd k)) ?c = (out, c')" by (metis surj_pair)
      from own_run [OF 3 None _ _ this] show ?thesis by auto
    qed (use own_report in blast)
  next
    case 4
    have ok: "wq_ok (lp_queue s)" using reachable_ok [OF assms(1)] by (simp add: loop_ok_def)
    have "wq_Get (lp_queue s) \<noteq> None" using wq.get_None [OF ok] 4 by blast
    then obtain k q where "wq_Get (lp_queue s) = Some (k, q)" by auto
    moreover have "card (wq_processing (lp_queue s)) < lp_workers s" using 4(1) reachable_workers [OF assms(1)] by simp
    ultimately show ?thesis using own_take by blast
  qed
qed

text \<open>Therefore it comes to rest.\<close>

lemma comes_to_rest:
  assumes "reachable env cached s" "storing env cached" "sound_env env cached"
    "\<And>k x. cached (lp_world s) k = Some x \<Longrightarrow> numeric x"
  shows "\<exists>n s'. (own_step env cached ^^ n) s s' \<and> at_rest s'"
proof (rule ccontr)
  assume n: "\<not> ?thesis"
  have "\<exists>s'. (own_step env cached ^^ n) s s'" for n
  proof (induction n)
    case (Suc n)
    then obtain t where t: "(own_step env cached ^^ n) s t" by blast
    then have "\<not> at_rest t" using n by blast
    moreover have "reachable env cached t" using own_steps_bounded [OF t assms(1-3)] assms(4) by blast
    ultimately obtain s' where "own_step env cached t s'" using not_at_rest_steps by blast
    then show ?case using t by auto
  qed auto
  then obtain s' where "(own_step env cached ^^ Suc (work cached s)) s s'" by blast
  from own_steps_bounded [OF this assms(1-3)] assms(4) show False by fastforce
qed

end
