(* ===== verification/ForbiddenWindows.thy ===== *)
theory ForbiddenWindows
  imports EntryPoint
begin

text \<open>
  The forbidden windows across reconciles.  A single reconcile compares the time of the metrics with the
  time of the last scale it reads; that two updates of the Deployment are apart follows only with an
  API server that hands back what was written, and with a clock.  The predicate \<open>faithful\<close> states what is
  asked of them; times are stored in whole seconds, as metav1.Time is serialised.

  Proved: along any sequence of reconciles of one CHPA, with anything happening in between that leaves its
  time of the last scale alone, an update of the Deployment inside its bounds comes later than the
  window after every earlier update.
\<close>

section \<open>The server\<close>

text \<open>What is observed of the world: its clock, the stored time of the last scale of the CHPA, and the updates of
  Deployments the controller made for it, with the times at which they happened.\<close>

record 'w server =
  sv_now :: "'w \<Rightarrow> gotime"
  sv_last :: "'w \<Rightarrow> gotime option"
  sv_log :: "'w \<Rightarrow> (gotime \<times> Deployment) list"

definition secs :: "gotime \<Rightarrow> gotime" where
  "secs t = t div 1000000000 * 1000000000"

lemma secs_mono: "s \<le> t \<Longrightarrow> secs s \<le> secs t"
  by (simp add: secs_def zdiv_mono1)

lemma secs_secs [simp]: "secs (secs t) = secs t"
  by (simp add: secs_def)

lemma map_secs_secs [simp]: "map_option secs (map_option secs t) = map_option secs t"
  by (simp add: option.map_comp comp_def)

definition still :: "'w server \<Rightarrow> 'w \<Rightarrow> 'w \<Rightarrow> bool" where
  "still sv w w' \<longleftrightarrow> sv_now sv w \<le> sv_now sv w' \<and> sv_last sv w' = sv_last sv w \<and> sv_log sv w' = sv_log sv w"

definition named :: "string \<Rightarrow> string \<Rightarrow> CHPA \<Rightarrow> bool" where
  "named ns name x \<longleftrightarrow> chpa_Namespace x = ns \<and> chpa_Name x = name"

text \<open>
  The API server, the clock and the metric sources as the code relies on them: reads change nothing but the
  time, no time returned is later than the clock, the clock does not run backwards; the CHPA read has the
  stored time of the last scale; its updates succeed, store that time in seconds and return what is
  stored; an update of a Deployment that succeeds happens at some moment of the call.
\<close>

definition faithful :: "'w server \<Rightarrow> 'w env \<Rightarrow> string \<Rightarrow> string \<Rightarrow> bool" where
  "faithful sv env ns name \<longleftrightarrow>
     reads_keep (still sv) env \<and>
     (\<forall>T. dated_until (\<lambda>w. sv_now sv w \<le> T) (\<lambda>t. t \<le> T) env) \<and>
     (\<forall>w. wp (time_now env) (\<lambda>t _. sv_now sv w \<le> t) w) \<and>
     (\<forall>ns' name'. frames (still sv) (get_deployment env ns' name')) \<and>
     frames (still sv) (get_chpa env ns name) \<and>
     (\<forall>w. wp (get_chpa env ns name)
            (\<lambda>r w'. \<forall>x. r = Inr x \<longrightarrow> named ns name x \<and> LastScaleTime (Status x) = sv_last sv w') w) \<and>
     (\<forall>x w. named ns name x \<longrightarrow> wp (update_chpa env x) (\<lambda>(e, y) w'.
        e = None \<and> named ns name y \<and> sv_now sv w \<le> sv_now sv w' \<and> sv_log sv w' = sv_log sv w \<and>
        sv_last sv w' = map_option secs (LastScaleTime (Status x)) \<and> LastScaleTime (Status y) = sv_last sv w') w) \<and>
     (\<forall>d w. wp (update_deployment env d) (\<lambda>(e, n) w'.
        sv_last sv w' = sv_last sv w \<and>
        (\<exists>t. sv_now sv w \<le> t \<and> t \<le> sv_now sv w' \<and>
             sv_log sv w' = (if e = None then sv_log sv w @ [(t, d)] else sv_log sv w))) w)"

section \<open>What leaves the log alone\<close>

definition settled :: "'w server \<Rightarrow> string \<Rightarrow> string \<Rightarrow> 'w ctx \<Rightarrow> 'w ctx \<Rightarrow> bool" where
  "settled sv ns name c c' \<longleftrightarrow>
     (named ns name (c_chpa c) \<longrightarrow> named ns name (c_chpa c') \<and>
        sv_now sv (c_ext c) \<le> sv_now sv (c_ext c') \<and> sv_log sv (c_ext c') = sv_log sv (c_ext c) \<and>
        (let l = LastScaleTime (Status (c_chpa c)) in
          LastScaleTime (Status (c_chpa c')) \<in> {l, map_option secs l} \<and>
          sv_last sv (c_ext c') \<in> {sv_last sv (c_ext c), map_option secs l}))"

lemma settled_refl: "settled sv ns name c c"
  by (simp add: settled_def Let_def)

lemma settled_trans: "settled sv ns name c c' \<Longrightarrow> settled sv ns name c' c'' \<Longrightarrow> settled sv ns name c c''"
  by (auto simp: settled_def Let_def)

lemma still_refl: "still sv w w"
  by (simp add: still_def)

lemma still_trans: "still sv w w' \<Longrightarrow> still sv w' w'' \<Longrightarrow> still sv w w''"
  by (simp add: still_def)

lemma settled_steps:
  assumes "reads_keep (still sv) env"
  shows "plain_steps (still sv) (settled sv ns name) env"
proof unfold_locales
  fix c c' c'' :: "'a ctx" and w :: 'a
  show "settled sv ns name c c" by (rule settled_refl)
  show "settled sv ns name c c' \<Longrightarrow> settled sv ns name c' c'' \<Longrightarrow> settled sv ns name c c''" by (rule settled_trans)
  show "still sv (c_ext c) w \<Longrightarrow> settled sv ns name c (c\<lparr>c_ext := w\<rparr>)" by (auto simp: settled_def still_def Let_def)
qed (use assms in \<open>auto intro: still_refl still_trans simp: settled_def named_def Let_def\<close>)

lemma faithful_plain: "faithful sv env ns name \<Longrightarrow> plain_steps (still sv) (settled sv ns name) env"
  by (rule settled_steps) (simp add: faithful_def)

lemmas faithful_steps = plain_steps.steps [OF faithful_plain]

lemma settled_update:
  assumes "faithful sv env ns name"
  shows "frames (settled sv ns name) (updateStatusIfNeeded env old)"
proof (rule framesI)
  fix c :: "'a ctx"
  show "wp (updateStatusIfNeeded env old) (\<lambda>_. settled sv ns name c) c"
  proof (cases "named ns name (c_chpa c)")
    case True
    then have "wp (update_chpa env (c_chpa c)) (\<lambda>(e, y) w'. e = None \<and> named ns name y \<and>
        sv_now sv (c_ext c) \<le> sv_now sv w' \<and> sv_log sv w' = sv_log sv (c_ext c) \<and>
        sv_last sv w' = map_option secs (LastScaleTime (Status (c_chpa c))) \<and> LastScaleTime (Status y) = sv_last sv w') (c_ext c)"
      using assms by (simp add: faithful_def)
    then have "wp (update_chpa env (c_chpa c)) (\<lambda>r w. settled sv ns name c
        (c\<lparr>c_actions := c_actions c @ [UpdateCHPA (c_chpa c)], c_ext := w, c_chpa := snd r\<rparr>)) (c_ext c)"
      by (rule wp_mono) (auto simp: settled_def Let_def)
    then show ?thesis
      unfolding wp_updateStatusIfNeeded by (simp add: settled_refl)
  qed (simp add: wp_def settled_def)
qed

lemma settled_setStatus: "frames (settled sv ns name) (setStatus env cur des ms False)"
  by (rule framesI) (simp add: wp_setStatus_False settled_def named_def Let_def)

lemma settled_setCurrent: "frames (settled sv ns name) (setCurrentReplicasInStatus env cur)"
  by (rule framesI) (simp add: setCurrentReplicasInStatus_def wp_simps wp_setStatus_False settled_def named_def Let_def)

lemma settled_decide:
  assumes "faithful sv env ns name"
  shows "frames (settled sv ns name) (decide env old cur now)"
proof -
  note steps = faithful_steps [OF assms]
  note s = steps.step_intros [OF steps] steps.step_compute [OF steps] steps.step_normalize [OF steps]
    steps.step_backoff [OF steps] steps.step_failed_update [OF steps]
  show ?thesis
    unfolding decide_def metrics_decision_def Let_def
    by (intro s settled_update [OF assms] settled_setCurrent)
qed

section \<open>What a reconcile does to the log\<close>

abbreviation now_at :: "'w server \<Rightarrow> 'w ctx \<Rightarrow> gotime" where "now_at sv c \<equiv> sv_now sv (c_ext c)"
abbreviation log_at :: "'w server \<Rightarrow> 'w ctx \<Rightarrow> (gotime \<times> Deployment) list" where "log_at sv c \<equiv> sv_log sv (c_ext c)"
abbreviation last_at :: "'w server \<Rightarrow> 'w ctx \<Rightarrow> gotime option" where "last_at sv c \<equiv> sv_last sv (c_ext c)"

lemma wp_clock:
  assumes "faithful sv env ns name"
    "\<And>t w'. still sv w w' \<Longrightarrow> sv_now sv w \<le> t \<Longrightarrow> t \<le> sv_now sv w' \<Longrightarrow> Q t w'"
  shows "wp (time_now env) Q w"
proof -
  have u: "until (\<lambda>w. sv_now sv w \<le> T) (\<lambda>t. t \<le> T) (time_now env)" for T
    using assms(1) by (simp add: faithful_def dated_until_def)
  have "frames (still sv) (time_now env)" "wp (time_now env) (\<lambda>t _. sv_now sv w \<le> t) w"
    using assms(1) by (simp_all add: faithful_def reads_keep_def)
  then show ?thesis
    using u [of "sv_now sv (snd (run_state (time_now env) w))"]
    by (auto simp: wp_def frames_def until_def intro!: assms(2))
qed

lemma wp_finish_time:
  assumes f: "faithful sv env ns name" and n: "named ns name (c_chpa c)"
  shows "wp (finish_status env old cur des ms True) (\<lambda>_ c'. \<exists>t. now_at sv c \<le> t \<and> t \<le> now_at sv c' \<and>
     log_at sv c' = log_at sv c \<and>
     (last_at sv c' = Some (secs t) \<or> LastScaleTime old = Some t \<and> last_at sv c' = last_at sv c)) c"
  unfolding finish_status_def setStatus_def wp_simps if_True
proof (rule wp_clock [OF f], goal_cases)
  case (1 t w)
  let ?st = "\<lparr>ObservedGeneration = None, LastScaleTime = Some t, CurrentReplicas = cur, DesiredReplicas = des,
    CurrentMetrics = ms, Conditions = Conditions (Status (c_chpa c))\<rparr>"
  let ?x = "(c_chpa c)\<lparr>Status := ?st\<rparr>"
  have "named ns name ?x" using n by (simp add: named_def)
  then have "wp (update_chpa env ?x) (\<lambda>(e, y) w'. e = None \<and> named ns name y \<and> sv_now sv w \<le> sv_now sv w' \<and>
      sv_log sv w' = sv_log sv w \<and> sv_last sv w' = map_option secs (LastScaleTime (Status ?x)) \<and>
      LastScaleTime (Status y) = sv_last sv w') w"
    using f unfolding faithful_def by blast
  then have "wp (update_chpa env ?x) (\<lambda>_ w'. \<exists>t. now_at sv c \<le> t \<and> t \<le> sv_now sv w' \<and> sv_log sv w' = log_at sv c \<and>
      (sv_last sv w' = Some (secs t) \<or> LastScaleTime old = Some t \<and> sv_last sv w' = last_at sv c)) w"
    by (rule wp_mono) (use 1 in \<open>auto simp: still_def intro!: exI [of _ t]\<close>)
  then show ?case
    using 1 by (auto simp: wp_updateStatusIfNeeded still_def intro!: exI [of _ t])
qed

lemma settledD:
  assumes "settled sv ns name c c'" "named ns name (c_chpa c)"
  shows "named ns name (c_chpa c')" "now_at sv c \<le> now_at sv c'" "log_at sv c' = log_at sv c"
    "last_at sv c' = last_at sv c \<or> last_at sv c' = map_option secs (LastScaleTime (Status (c_chpa c)))"
    "LastScaleTime (Status (c_chpa c')) = LastScaleTime (Status (c_chpa c)) \<or>
     LastScaleTime (Status (c_chpa c')) = map_option secs (LastScaleTime (Status (c_chpa c)))"
  using assms by (auto simp: settled_def Let_def)

text \<open>What \<open>apply_decision\<close> adds: at most one update, at a time that is covered by the new time of the last scale.\<close>

definition applied_at :: "'w server \<Rightarrow> CHPAStatus \<Rightarrow> decision \<Rightarrow> 'w ctx \<Rightarrow> 'w ctx \<Rightarrow> bool" where
  "applied_at sv old d c c' \<longleftrightarrow> now_at sv c \<le> now_at sv c' \<and>
     (log_at sv c' = log_at sv c \<and> last_at sv c' \<in> {last_at sv c, map_option secs (LastScaleTime (Status (c_chpa c)))} \<or>
      d_rescale d \<and> (\<exists>u t. now_at sv c \<le> u \<and> u \<le> t \<and> t \<le> now_at sv c' \<and>
        log_at sv c' = log_at sv c @ [(u, scaled_to (c_deploy c) (d_desiredReplicas d))] \<and>
        (last_at sv c' = Some (secs t) \<or>
         LastScaleTime old = Some t \<and> last_at sv c' \<in> {last_at sv c, map_option secs (LastScaleTime (Status (c_chpa c)))})))"

text \<open>The update of the Deployment enters the log exactly when the server accepts it.\<close>

lemma wp_rescale_time:
  fixes c :: "'w ctx"
  assumes f: "faithful sv env ns name"
    and go: "\<And>e cell c1 t. c_chpa c1 = c_chpa c \<Longrightarrow> last_at sv c1 = last_at sv c \<Longrightarrow> now_at sv c \<le> t \<Longrightarrow> t \<le> now_at sv c1 \<Longrightarrow>
      log_at sv c1 = (if e = None then log_at sv c @ [(t, scaled_to (c_deploy c) k)] else log_at sv c) \<Longrightarrow> Q (e, cell) c1"
  shows "wp (rescale_deployment env k) Q c"
proof -
  let ?d = "scaled_to (c_deploy c) k"
  have "wp (update_deployment env ?d) (\<lambda>(e, n) w'. sv_last sv w' = last_at sv c \<and>
        (\<exists>t. now_at sv c \<le> t \<and> t \<le> sv_now sv w' \<and>
             sv_log sv w' = (if e = None then log_at sv c @ [(t, ?d)] else log_at sv c))) (c_ext c)"
    using f by (simp add: faithful_def)
  then show ?thesis
    unfolding rescale_deployment_def set_deploy_replicas_def act_def wp_bind wp_get wp_update wp_on_ext
    by (simp flip: scaled_to_def) (erule wp_mono, auto intro!: go)
qed

text \<open>Behind an accepted update the status is written with a time no earlier than the update.\<close>

lemma applied_accepted:
  assumes s: "settled sv ns name c1 c3" "named ns name (c_chpa c1)" and d: "d_rescale d"
    and c1: "c_chpa c1 = c_chpa c" "last_at sv c1 = last_at sv c" "now_at sv c \<le> t" "t \<le> now_at sv c1"
      "log_at sv c1 = log_at sv c @ [(t, scaled_to (c_deploy c) (d_desiredReplicas d))]"
    and r: "now_at sv c3 \<le> r" "r \<le> now_at sv c4" "log_at sv c4 = log_at sv c3"
      "last_at sv c4 = Some (secs r) \<or> LastScaleTime old = Some r \<and> last_at sv c4 = last_at sv c3"
  shows "applied_at sv old d c c4"
proof -
  note s = settledD [OF s]
  have "last_at sv c3 \<in> {last_at sv c, map_option secs (LastScaleTime (Status (c_chpa c)))}"
    using s(4) c1(1,2) by simp
  with r(4) have "last_at sv c4 = Some (secs r) \<or>
      LastScaleTime old = Some r \<and> last_at sv c4 \<in> {last_at sv c, map_option secs (LastScaleTime (Status (c_chpa c)))}"
    by auto
  moreover have "log_at sv c4 = log_at sv c @ [(t, scaled_to (c_deploy c) (d_desiredReplicas d))]" using r(3) s(3) c1(5) by simp
  moreover have "t \<le> r" "now_at sv c \<le> now_at sv c4" using r(1,2) s(2) c1(3,4) by simp_all
  ultimately show ?thesis unfolding applied_at_def using d r(2) c1(3) by blast
qed

lemma wp_apply_time:
  fixes c :: "'w ctx"
  assumes f: "faithful sv env ns name" and n: "named ns name (c_chpa c)"
  shows "wp (apply_decision env old cur d) (\<lambda>_. applied_at sv old d c) c"
proof (cases "d_rescale d")
  case False
  have "frames (settled sv ns name) (finish_status env old cur cur (d_metricStatuses d) False)"
    using steps.step_intros [OF faithful_steps [OF f]] unfolding finish_status_def
    by (intro steps.step_intros [OF faithful_steps [OF f]] settled_setStatus settled_update [OF f])
  then show ?thesis
    unfolding apply_decision_def if_not_P [OF False]
    by (rule frames_wp) (use n in \<open>auto simp: applied_at_def dest: settledD\<close>)
next
  case True
  note steps = faithful_steps [OF f]
  show ?thesis unfolding apply_decision_def if_P [OF True] wp_bind [of "rescale_deployment env (d_desiredReplicas d)"]
  proof (rule wp_rescale_time [OF f], unfold prod.case, goal_cases)
    case c1: (1 e cell c1 t)
    have n1: "named ns name (c_chpa c1)" using n c1(1) by simp
    show ?case
    proof (cases e)
      case (Some err)
      have "applied_at sv old d c c'" if "settled sv ns name c1 c'" for c'
        using settledD [OF that n1] c1 Some by (auto simp: applied_at_def)
      moreover have "frames (settled sv ns name) (do {
          record_event ''Warning'' ''FailedRescale'' m1;
          setCondition env ''AbleToScale'' ''False'' ''FailedUpdateScale'' m2;
          setCurrentReplicasInStatus env cur;
          u \<leftarrow> updateStatusIfNeeded env old;
          (case u of Some err \<Rightarrow> failed_update_replicas env err | None \<Rightarrow> State_Monad.return ())
        })" for m1 m2
        by (intro steps.step_intros [OF steps] steps.step_failed_update [OF steps] settled_update [OF f] settled_setCurrent)
      ultimately show ?thesis unfolding Some option.case by (rule frames_wp [rotated])
    next
      case None
      have log: "log_at sv c1 = log_at sv c @ [(t, scaled_to (c_deploy c) (d_desiredReplicas d))]" using c1(5) None by simp
      show ?thesis unfolding None option.case wp_bind
      proof (rule frames_wp [OF plain_steps.plain_setCondition [OF faithful_plain [OF f]]], rule frames_wp [OF steps.step_event [OF steps]],
          rule wp_mono [OF wp_finish_time [OF f]], goal_cases)
        case (1 _ c2 _ c3)
        then have "settled sv ns name c1 c3" by (blast intro: settled_trans)
        then show ?case by (rule settledD [OF _ n1])
      next
        case (2 _ c2 _ c3 _ c4)
        then have "settled sv ns name c1 c3" by (blast intro: settled_trans)
        with 2(3) show ?case using applied_accepted [OF _ n1 True c1(1-4) log] by blast
      qed
    qed
  qed
qed

lemma justified_mono: "justified P chpa dep n \<Longrightarrow> (\<And>t. P t \<Longrightarrow> P' t) \<Longrightarrow> justified P' chpa dep n"
  unfolding justified_def by (auto split: option.splits)

lemma wp_decide_time:
  fixes c :: "'w ctx"
  assumes f: "faithful sv env ns name" and now: "now \<le> now_at sv c" and cur: "cur = dep_Status_Replicas (c_deploy c)"
  shows "wp (decide env old cur now) (\<lambda>r c'. settled sv ns name c c' \<and> (\<forall>d. r = Inr (Some d) \<longrightarrow> quiet c c' \<and>
     (d_rescale d \<longrightarrow> justified (\<lambda>v. v \<le> now_at sv c') (c_chpa c) (c_deploy c) (d_desiredReplicas d)))) c"
proof -
  obtain r c' where r: "run_state (decide env old cur now) c = (r, c')" by (metis surj_pair)
  have "dated_until (\<lambda>w. sv_now sv w \<le> now_at sv c') (\<lambda>t. t \<le> now_at sv c') env" using f by (simp add: faithful_def)
  then have "wp (decide env old cur now) (\<lambda>r b. \<forall>d. r = Inr (Some d) \<longrightarrow> quiet c b \<and> (sv_now sv (c_ext b) \<le> now_at sv c' \<longrightarrow>
      d_rescale d \<longrightarrow> justified (\<lambda>v. v \<le> now_at sv c') (c_chpa c) (c_deploy c) (d_desiredReplicas d))) c"
    by (rule wp_decide [OF cur]) (use now in auto)
  then show ?thesis
    using framesD [OF settled_decide [OF f, of old cur now], of c] by (simp add: wp_def r)
qed

definition reconciled :: "'w server \<Rightarrow> CHPA \<Rightarrow> Deployment \<Rightarrow> 'w \<Rightarrow> 'w \<Rightarrow> bool" where
  "reconciled sv chpa dep w w' \<longleftrightarrow>
     (\<exists>u t n. sv_now sv w \<le> u \<and> u \<le> t \<and> t \<le> sv_now sv w' \<and> sv_log sv w' = sv_log sv w @ [(u, scaled_to dep n)] \<and>
        sv_last sv w' \<in> {Some t, Some (secs t)} \<and> justified (\<lambda>v. v \<le> u) chpa dep n)"

definition untouched :: "'w server \<Rightarrow> 'w \<Rightarrow> 'w \<Rightarrow> bool" where
  "untouched sv w w' \<longleftrightarrow> sv_now sv w \<le> sv_now sv w' \<and> sv_log sv w' = sv_log sv w \<and>
     sv_last sv w' \<in> {sv_last sv w, map_option secs (sv_last sv w)}"

lemma settled_untouched:
  "settled sv ns name c c' \<Longrightarrow> named ns name (c_chpa c) \<Longrightarrow> LastScaleTime (Status (c_chpa c)) = last_at sv c \<Longrightarrow>
   untouched sv (c_ext c) (c_ext c')"
  by (auto simp: settled_def untouched_def Let_def)

text \<open>From the decision to the end of the call.\<close>

lemma applied_reconciled:
  assumes a: "applied_at sv (Status chpa) d c3 c4" and u: "untouched sv w (c_ext c3)"
    and l: "LastScaleTime (Status chpa) = sv_last sv w" "LastScaleTime (Status (c_chpa c3)) = sv_last sv w"
    and j: "d_rescale d \<Longrightarrow> justified (\<lambda>v. v \<le> now_at sv c3) chpa (c_deploy c3) (d_desiredReplicas d)"
  shows "untouched sv w (c_ext c4) \<or> reconciled sv chpa (c_deploy c3) w (c_ext c4)"
proof (cases "log_at sv c4 = log_at sv c3")
  case True
  then show ?thesis using a u l(2) by (auto simp: applied_at_def untouched_def)
next
  case False
  then obtain v t where v: "d_rescale d" "now_at sv c3 \<le> v" "v \<le> t" "t \<le> now_at sv c4"
    "log_at sv c4 = log_at sv c3 @ [(v, scaled_to (c_deploy c3) (d_desiredReplicas d))]"
    "last_at sv c4 = Some (secs t) \<or>
     LastScaleTime (Status chpa) = Some t \<and> last_at sv c4 \<in> {last_at sv c3, map_option secs (sv_last sv w)}"
    using a l(2) unfolding applied_at_def by auto
  have "justified (\<lambda>x. x \<le> v) chpa (c_deploy c3) (d_desiredReplicas d)"
    by (rule justified_mono [OF j [OF v(1)]]) (use v(2) in simp)
  moreover have "last_at sv c4 \<in> {Some t, Some (secs t)}"
    using v(6) u l(1) by (auto simp: untouched_def)
  moreover have "sv_now sv w \<le> v" "log_at sv c3 = sv_log sv w" using u v(2) by (auto simp: untouched_def)
  ultimately show ?thesis using v(3-5) unfolding reconciled_def by auto
qed

lemma wp_body_time:
  fixes c :: "'w ctx"
  assumes f: "faithful sv env ns name" and n: "named ns name (c_chpa c)" and l: "LastScaleTime (Status (c_chpa c)) = last_at sv c"
  shows "wp (reconcile_body env)
     (\<lambda>_ c'. untouched sv (c_ext c) (c_ext c') \<or> reconciled sv (c_chpa c) (c_deploy c) (c_ext c) (c_ext c')) c"
  unfolding reconcile_body_def wp_bind wp_get Let_def
proof (rule frames_wp [OF frames_conj [OF quiet_setCondition plain_steps.plain_setCondition [OF faithful_plain [OF f]]]],
    unfold wp_on_ext, rule wp_clock [OF f], rule wp_mono [OF wp_decide_time [OF f]], goal_cases)
  case (1 _ c1 now w)
  then show ?case by simp
next
  case (2 _ c1 now w)
  then have "quiet c c1" by simp
  then show ?case by (simp add: quietD)
next
  case (3 _ c1 now w r c3)
  let ?c2 = "c1\<lparr>c_ext := w\<rparr>"
  have "settled sv ns name c ?c2"
    using 3(1,2) by (auto simp: settled_def still_def Let_def)
  then have s3: "settled sv ns name c c3" using 3(5) by (blast intro: settled_trans)
  have u: "untouched sv (c_ext c) (c_ext c3)" by (rule settled_untouched [OF s3 n l])
  show ?case
  proof (cases "\<exists>d. r = Inr (Some d)")
    case False
    then show ?thesis using u by (auto simp: wp_return split: sum.splits option.splits)
  next
    case True
    then obtain d where d: "r = Inr (Some d)" by blast
    have "quiet c1 ?c2" by (rule quiet_same) simp_all
    then have q2: "quiet c ?c2" using 3(1) quiet_trans by blast
    have "justified P (c_chpa c1) = justified P (c_chpa c)" for P
      using justified_cong [of "c_chpa ?c2" "c_chpa c"] quietD(2,4) [OF q2] by simp
    then have j: "d_rescale d \<Longrightarrow> justified (\<lambda>v. v \<le> now_at sv c3) (c_chpa c) (c_deploy c) (d_desiredReplicas d)"
      and q3: "quiet ?c2 c3"
      using 3(5) d q2 by (auto simp: quietD)
    have dep: "c_deploy c3 = c_deploy c" and l3: "LastScaleTime (Status (c_chpa c3)) = last_at sv c"
      using quiet_trans [OF q2 q3] l by (simp_all add: quietD)
    have "wp (apply_decision env (Status (c_chpa c)) (dep_Status_Replicas (c_deploy c)) d)
        (\<lambda>_. applied_at sv (Status (c_chpa c)) d c3) c3"
      by (rule wp_apply_time [OF f settledD(1) [OF s3 n]])
    then show ?thesis
      unfolding d sum.case option.case wp_bind wp_return
      by (rule wp_mono) (use applied_reconciled [OF _ u l l3] j in \<open>simp add: dep\<close>)
  qed
qed

text \<open>A whole call: the log is left alone, or extended by the update of the objects that were fetched.\<close>

definition served :: "'w server \<Rightarrow> 'w env \<Rightarrow> string \<Rightarrow> string \<Rightarrow> 'w \<Rightarrow> 'w \<Rightarrow> bool" where
  "served sv env ns name w w' \<longleftrightarrow> untouched sv w w' \<or>
     (\<exists>chpa dep. fetched env ns name w chpa dep \<and> LastScaleTime (Status chpa) = sv_last sv w \<and> reconciled sv chpa dep w w')"

lemma still_untouched: "still sv w w' \<Longrightarrow> untouched sv w w'"
  by (simp add: still_def untouched_def)

lemma untouched_trans: "still sv w w' \<Longrightarrow> untouched sv w' w'' \<Longrightarrow> untouched sv w w''"
  by (auto simp: still_def untouched_def)

lemma reconciled_still: "still sv w w' \<Longrightarrow> reconciled sv chpa dep w' w'' \<Longrightarrow> reconciled sv chpa dep w w''"
  unfolding reconciled_def still_def by (metis order_trans)

lemma setCHPADefaults_keeps [simp]:
  "Status (setCHPADefaults x) = Status x" "named ns name (setCHPADefaults x) = named ns name x"
  by (simp_all add: setCHPADefaults_def named_def)

lemma untouched_end: "untouched sv w w' \<Longrightarrow> still sv w' w'' \<Longrightarrow> untouched sv w w''"
  by (auto simp: still_def untouched_def)

lemma reconciled_end: "reconciled sv chpa dep w w' \<Longrightarrow> still sv w' w'' \<Longrightarrow> reconciled sv chpa dep w w''"
  unfolding reconciled_def still_def by (metis order_trans)

lemma served_untouched: "untouched sv w w' \<Longrightarrow> served sv env ns name w w'"
  by (simp add: served_def)

lemma served_reconciled:
  "fetched env ns name w chpa dep \<Longrightarrow> LastScaleTime (Status chpa) = sv_last sv w \<Longrightarrow> reconciled sv chpa dep w w' \<Longrightarrow>
   served sv env ns name w w'"
  unfolding served_def by blast

lemma served_end:
  assumes "served sv env ns name w w'" "still sv w' w''"
  shows "served sv env ns name w w''"
proof (cases "untouched sv w w'")
  case True
  then show ?thesis using untouched_end [OF _ assms(2)] by (intro served_untouched)
next
  case False
  then obtain chpa dep where "fetched env ns name w chpa dep" "LastScaleTime (Status chpa) = sv_last sv w"
    "reconciled sv chpa dep w w'"
    using assms(1) unfolding served_def by blast
  then show ?thesis using reconciled_end [OF _ assms(2)] by (intro served_reconciled)
qed

lemma faithful_still: "faithful sv env ns name \<Longrightarrow> plain_steps (still sv) (\<lambda>c c'. still sv (c_ext c) (c_ext c')) env"
  by unfold_locales (auto simp: faithful_def intro: still_refl still_trans)

text \<open>Events and conditions at the end of a call.\<close>

lemma wp_served_end:
  assumes "faithful sv env ns name" "served sv env ns name w (c_ext c)"
  shows "wp (do { record_event ty re m1; setCondition env t st re' m2; State_Monad.return v })
     (\<lambda>_ c'. served sv env ns name w (c_ext c')) c"
proof -
  note steps = faithful_still [OF assms(1)]
  have "frames (\<lambda>c c'. still sv (c_ext c) (c_ext c'))
      (do { record_event ty re m1; setCondition env t st re' m2; State_Monad.return v })"
    by (intro plain_steps.plain_intros [OF steps])
  then show ?thesis by (rule frames_wp) (rule served_end [OF assms(2)])
qed

lemma wp_process_time:
  fixes c :: "'w ctx"
  assumes f: "faithful sv env ns name" and n: "named ns name (c_chpa c)" and l: "LastScaleTime (Status (c_chpa c)) = last_at sv c"
    and w: "still sv w (c_ext c)"
    and fetch: "\<And>dep0 dep w2. run_state (get_deployment env (chpa_Namespace (c_chpa c)) (ref_Name (ScaleTargetRef (Spec (c_chpa c)))))
      (c_ext c) = (Inr dep0, w2) \<Longrightarrow> SetControllerReference (GVKForObject env) (c_chpa c) dep0 = Inr dep \<Longrightarrow>
      fetched env ns name w (c_chpa c) dep"
  shows "wp (process_deployment env) (\<lambda>_ c'. served sv env ns name w (c_ext c')) c"
proof -
  obtain r w2 where r: "run_state (get_deployment env (chpa_Namespace (c_chpa c)) (ref_Name (ScaleTargetRef (Spec (c_chpa c)))))
      (c_ext c) = (r, w2)" by (metis surj_pair)
  have bind: "wp (on_ext (get_deployment env (chpa_Namespace (c_chpa c)) (ref_Name (ScaleTargetRef (Spec (c_chpa c)))))) K c
      = K r (c\<lparr>c_ext := w2\<rparr>)" for K
    unfolding wp_on_ext by (simp add: wp_def r)
  have "frames (still sv) (get_deployment env ns' n')" for ns' n' using f by (simp add: faithful_def)
  from framesD [OF this, of "c_ext c" "chpa_Namespace (c_chpa c)" "ref_Name (ScaleTargetRef (Spec (c_chpa c)))"]
  have w12: "still sv (c_ext c) w2" by (simp add: r)
  have w2: "still sv w w2" by (rule still_trans [OF w w12])
  have stop: "served sv env ns name w w2" using still_untouched [OF w2] by (simp add: served_def)
  show ?thesis
  proof (cases r)
    case (Inl e)
    then show ?thesis unfolding process_deployment_def wp_bind wp_get bind using stop by (simp add: wp_simps)
  next
    case (Inr dep0)
    show ?thesis
    proof (cases "SetControllerReference (GVKForObject env) (c_chpa c) dep0")
      case (Inl e)
      with Inr show ?thesis unfolding process_deployment_def wp_bind wp_get bind using stop by (simp add: wp_simps)
    next
      case scr: (Inr dep)
      let ?c1 = "c\<lparr>c_ext := w2, c_deploy := dep\<rparr>"
      have fetched: "fetched env ns name w (c_chpa c) dep" using fetch r Inr scr by blast
      have l2: "LastScaleTime (Status (c_chpa c)) = sv_last sv w" using l w by (simp add: still_def)
      have "wp (reconcile_body env)
         (\<lambda>_ c'. untouched sv w2 (c_ext c') \<or> reconciled sv (c_chpa c) dep w2 (c_ext c')) ?c1"
        using wp_body_time [OF f, of ?c1] n l w12 by (simp add: still_def)
      then have "wp (reconcileCHPA env) (\<lambda>_ c'. served sv env ns name w (c_ext c')) ?c1"
        unfolding reconcileCHPA_def wp_bind wp_return
        by (rule wp_mono) (blast intro: served_untouched untouched_trans [OF w2] served_reconciled [OF fetched l2] reconciled_still [OF w2])
      then have "wp (reconcileCHPA env) (\<lambda>e c'. wp (case e of
            None \<Rightarrow> State_Monad.return (resRepeat env, None)
          | Some err \<Rightarrow> do { record_event ''Warning'' ''FailedProcessCHPA'' err;
              setCondition env ''AbleToScale'' ''True'' ''FailedProcessCHPA'' ''Error happened while processing the CHPA'';
              State_Monad.return (resStop, None) }) (\<lambda>_ c'. served sv env ns name w (c_ext c')) c') ?c1"
        by (rule wp_mono) (auto simp: wp_return split: option.split intro: wp_served_end [OF f])
      then show ?thesis
        unfolding process_deployment_def wp_bind wp_get bind Inr by (simp add: scr wp_bind wp_update)
    qed
  qed
qed

lemma wp_Reconcile_time:
  fixes c :: "'w ctx"
  assumes f: "faithful sv env ns name"
  shows "wp (Reconcile env ns name) (\<lambda>_ c'. served sv env ns name (c_ext c) (c_ext c')) c"
proof -
  obtain r w where r: "run_state (get_chpa env ns name) (c_ext c) = (r, w)" by (metis surj_pair)
  have laws: "frames (still sv) (get_chpa env ns name)" "wp (get_chpa env ns name)
      (\<lambda>r w'. \<forall>x. r = Inr x \<longrightarrow> named ns name x \<and> LastScaleTime (Status x) = sv_last sv w') (c_ext c)"
    using f by (simp_all add: faithful_def)
  have w: "still sv (c_ext c) w" using framesD [OF laws(1), of "c_ext c"] by (simp add: r)
  have chpa: "named ns name x" "LastScaleTime (Status x) = sv_last sv w" if "r = Inr x" for x
    using laws(2) that by (simp_all add: wp_def r)
  have bind: "wp (on_ext (get_chpa env ns name)) K c = K r (c\<lparr>c_ext := w\<rparr>)" for K
    unfolding wp_on_ext by (simp add: wp_def r)
  have stop: "served sv env ns name (c_ext c) w" using still_untouched [OF w] by (simp add: served_def)
  show ?thesis
  proof (cases r)
    case (Inl e)
    then show ?thesis unfolding Reconcile_def wp_bind bind using stop by (cases e) (simp_all add: wp_simps)
  next
    case (Inr chpa0)
    let ?chpa = "setCHPADefaults chpa0"
    show ?thesis
    proof (cases "checkCHPAValidity (sprintf0 env) ?chpa")
      case (Inl err)
      show ?thesis
        unfolding Reconcile_def wp_bind [of "on_ext (get_chpa env ns name)"] bind Inr sum.case
          wp_bind [of "State_Monad.update f" for f] wp_update Inl
        by (rule wp_served_end [OF f]) (use stop in simp)
    next
      case valid: (Inr u)
      show ?thesis unfolding Reconcile_def wp_bind bind Inr sum.case wp_update valid
      proof (rule wp_process_time [OF f], goal_cases)
        case (4 dep0 dep w2)
        then show ?case using r Inr valid by (auto simp: fetched_def)
      qed (use chpa [OF Inr] w in simp_all)
    qed
  qed
qed

section \<open>Along a history\<close>

text \<open>Reconciles of the CHPA, and whatever happens in between.\<close>

inductive history :: "'w server \<Rightarrow> 'w env \<Rightarrow> string \<Rightarrow> string \<Rightarrow> 'w \<Rightarrow> bool"
  for sv :: "'w server" and env :: "'w env" and ns name :: string where
  start: "sv_log sv w = [] \<Longrightarrow> history sv env ns name w"
| meanwhile: "history sv env ns name w \<Longrightarrow> still sv w w' \<Longrightarrow> history sv env ns name w'"
| reconcile: "history sv env ns name (c_ext c) \<Longrightarrow> run_state (Reconcile env ns name) c = (out, c') \<Longrightarrow>
     history sv env ns name (c_ext c')"

text \<open>Every update in the log is covered by the stored time of the last scale, up to the second.\<close>

definition covered :: "'w server \<Rightarrow> 'w \<Rightarrow> bool" where
  "covered sv w \<longleftrightarrow>
     (\<forall>(u, d)\<in>set (sv_log sv w). u \<le> sv_now sv w \<and> (\<exists>t. sv_last sv w = Some t \<and> secs u \<le> t))"

lemma coveredD: "covered sv w \<Longrightarrow> (u, d) \<in> set (sv_log sv w) \<Longrightarrow> u \<le> sv_now sv w \<and> (\<exists>t. sv_last sv w = Some t \<and> secs u \<le> t)"
  by (auto simp: covered_def)

lemma covered_untouched:
  assumes c: "covered sv w" and u: "untouched sv w w'"
  shows "covered sv w'"
  unfolding covered_def
proof (clarify, intro conjI)
  fix u' d assume "(u', d) \<in> set (sv_log sv w')"
  then have m: "(u', d) \<in> set (sv_log sv w)" using u by (simp add: untouched_def)
  show "u' \<le> sv_now sv w'" using coveredD [OF c m] u by (auto simp: untouched_def)
  obtain t where t: "sv_last sv w = Some t" "secs u' \<le> t" using coveredD [OF c m] by blast
  have "secs u' \<le> secs t" using secs_mono [OF t(2)] by simp
  then show "\<exists>t. sv_last sv w' = Some t \<and> secs u' \<le> t" using t u by (auto simp: untouched_def)
qed

lemma covered_reconciled:
  assumes c: "covered sv w" and r: "reconciled sv chpa dep w w'"
  shows "covered sv w'"
proof -
  obtain u t n where u: "sv_now sv w \<le> u" "u \<le> t" "t \<le> sv_now sv w'" "sv_log sv w' = sv_log sv w @ [(u, scaled_to dep n)]"
    "sv_last sv w' \<in> {Some t, Some (secs t)}"
    using r unfolding reconciled_def by blast
  have "secs t \<le> t" by (simp add: secs_def)
  then obtain l where l: "sv_last sv w' = Some l" "secs t \<le> l" using u(5) by auto
  have le: "u' \<le> t" if m: "(u', d) \<in> set (sv_log sv w')" for u' d
    using m u(1,2,4) coveredD [OF c, of u' d] by auto
  have "u' \<le> sv_now sv w' \<and> (\<exists>t. sv_last sv w' = Some t \<and> secs u' \<le> t)" if m: "(u', d) \<in> set (sv_log sv w')" for u' d
    using le [OF m] secs_mono [OF le [OF m]] l u(3) by auto
  then show ?thesis by (auto simp: covered_def)
qed

lemma covered_served:
  assumes "covered sv w" "served sv env ns name w w'"
  shows "covered sv w'"
proof (cases "untouched sv w w'")
  case False
  then obtain chpa dep where "reconciled sv chpa dep w w'" using assms(2) by (auto simp: served_def)
  then show ?thesis by (rule covered_reconciled [OF assms(1)])
qed (rule covered_untouched [OF assms(1)])

lemma history_covered: "history sv env ns name w \<Longrightarrow> faithful sv env ns name \<Longrightarrow> covered sv w"
proof (induction rule: history.induct)
  case (start w)
  then show ?case by (simp add: covered_def)
next
  case (meanwhile w w')
  show ?case
    by (rule covered_untouched [OF meanwhile.IH [OF meanwhile.prems] still_untouched [OF meanwhile.hyps(2)]])
next
  case (reconcile c out c')
  have "served sv env ns name (c_ext c) (c_ext c')"
    using wp_Reconcile_time [OF reconcile.prems, of c] reconcile.hyps(2) by (simp add: wp_def)
  then show ?case by (rule covered_served [OF reconcile.IH [OF reconcile.prems]])
qed

text \<open>An update inside the bounds comes after the window of every update before it.\<close>

lemma update_after_windows:
  assumes "covered sv w" "served sv env ns name w w'" "sv_log sv w' = sv_log sv w @ [(u, d)]"
  shows "\<exists>chpa dep n. fetched env ns name w chpa dep \<and> d = scaled_to dep n \<and>
     (corrective (Spec chpa) (dep_Status_Replicas dep) = Some n \<or>
      (\<forall>(u', d')\<in>set (sv_log sv w). secs u' + window (Spec chpa) (dep_Status_Replicas dep) n < u))"
proof -
  obtain chpa dep where f: "fetched env ns name w chpa dep" "LastScaleTime (Status chpa) = sv_last sv w"
    and r: "reconciled sv chpa dep w w'"
    using assms(2,3) by (auto simp: served_def untouched_def)
  obtain n where n: "d = scaled_to dep n" "justified (\<lambda>v. v \<le> u) chpa dep n"
    using r assms(3) by (auto simp: reconciled_def)
  show ?thesis
  proof (cases "corrective (Spec chpa) (dep_Status_Replicas dep)")
    case None
    have "secs u' + window (Spec chpa) (dep_Status_Replicas dep) n < u" if m: "(u', d') \<in> set (sv_log sv w)" for u' d'
    proof -
      obtain t where t: "sv_last sv w = Some t" "secs u' \<le> t" using coveredD [OF assms(1) m] by blast
      obtain ts where "ts \<le> u" "t + window (Spec chpa) (dep_Status_Replicas dep) n < ts"
        using justified_window(2) [OF n(2) None] f(2) t(1) by auto
      with t(2) show ?thesis by simp
    qed
    then show ?thesis using f(1) n(1) by blast
  next
    case (Some m)
    then have "m = n" using n(2) by (simp add: justified_def)
    then show ?thesis using f(1) n(1) Some by blast
  qed
qed

end
