(* ===== verification/Approach.thy ===== *)
theory Approach
  imports Bounds
begin

text \<open>
  Whether the controller gets where the metrics ask it to go.  The limit on scaling up lets a Deployment grow by a
  factor at most in one reconcile, so that a large demand is met in several.

  Proved: while the demand stays the same, the count approaches it from every side without passing it, grows
  by the factor in each round until it is there, and stays; the number of rounds is logarithmic.
\<close>

section \<open>One round\<close>

text \<open>The factor is a whole number of at least two, as the default is, and no product overflows.\<close>

definition growth :: "CHPASpec \<Rightarrow> int \<Rightarrow> bool" where
  "growth spec k \<longleftrightarrow> ScaleUpLimitFactor spec = f64_of_int k \<and> 2 \<le> k \<and> k \<le> 2 ^ 21 \<and> k * sint (MaxReplicas spec) < 2147483648"

definition within_bounds :: "CHPASpec \<Rightarrow> int32 \<Rightarrow> bool" where
  "within_bounds spec n \<longleftrightarrow> lower_bound spec \<le> sint n \<and> sint n \<le> sint (MaxReplicas spec)"

text \<open>Where a demand leads, once no limit on the speed is left.\<close>

definition destination :: "CHPASpec \<Rightarrow> int32 \<Rightarrow> int" where
  "destination spec demand = max (lower_bound spec) (min (sint (MaxReplicas spec)) (sint demand))"

lemma normalized_growth:
  assumes "sane_bounds (Spec chpa)" "growth (Spec chpa) k" "within_bounds (Spec chpa) cur"
  shows "sint (normalized chpa cur d) = max (lower_bound (Spec chpa))
     (min (min (sint (MaxReplicas (Spec chpa))) (max (k * sint cur) (sint (ScaleUpLimitMinimum (Spec chpa))))) (sint d))"
proof -
  have pos: "1 \<le> lower_bound (Spec chpa)" by (rule lower_bound_props(1) [OF assms(1)])
  with assms(3) have cur: "1 \<le> sint cur" "sint cur \<le> sint (MaxReplicas (Spec chpa))" by (auto simp: within_bounds_def)
  have "k * sint cur \<le> k * sint (MaxReplicas (Spec chpa))" using cur(2) assms(2) by (simp add: growth_def)
  then have "k * sint cur < 2147483648" using assms(2) unfolding growth_def by linarith
  then have limit: "sint (calculateScaleUpLimit chpa cur) = max (k * sint cur) (sint (ScaleUpLimitMinimum (Spec chpa)))"
    using assms(2) cur by (intro calculateScaleUpLimit_integral) (auto simp: growth_def)
  have "1 * sint cur \<le> k * sint cur" using assms(2) cur by (intro mult_right_mono) (simp_all add: growth_def)
  then have "lower_bound (Spec chpa) \<le> max_allowed chpa cur (MaxReplicas (Spec chpa))"
    using assms(3) lower_bound_props(2) [OF assms(1)] unfolding max_allowed_def limit within_bounds_def by linarith
  then show ?thesis unfolding normalized_cut max_allowed_def limit by (auto simp: min_def max_def)
qed

lemma normalized_approaches:
  assumes "sane_bounds (Spec chpa)" "growth (Spec chpa) k" "within_bounds (Spec chpa) cur"
  shows "within_bounds (Spec chpa) (normalized chpa cur d)" "sint (normalized chpa cur d) \<le> destination (Spec chpa) d"
    "min (destination (Spec chpa) d) (k * sint cur) \<le> sint (normalized chpa cur d)"
  using lower_bound_props(2) [OF assms(1)] by (simp_all add: normalized_growth [OF assms] within_bounds_def destination_def)

section \<open>Rounds of the reconciler\<close>

text \<open>The count a Deployment is left with by the writes of a reconcile.\<close>

fun count_after :: "int32 \<Rightarrow> action list \<Rightarrow> int32" where
  "count_after n [] = n"
| "count_after n (UpdateDeployment d # as) = count_after (case dep_Spec_Replicas d of None \<Rightarrow> n | Some k \<Rightarrow> k) as"
| "count_after n (a # as) = count_after n as"

definition windows_over :: "CHPA \<Rightarrow> gotime \<Rightarrow> bool" where
  "windows_over chpa timestamp \<longleftrightarrow>
     \<not> in_window chpa (DownscaleForbiddenWindowSeconds (Spec chpa)) timestamp \<and>
     \<not> in_window chpa (UpscaleForbiddenWindowSeconds (Spec chpa)) timestamp"

lemma windows_over_scale: "windows_over chpa ts \<Longrightarrow> shouldScale chpa cur n ts \<longleftrightarrow> n \<noteq> cur"
  by (auto simp: windows_over_def in_window_def shouldScale_cases split: option.splits)

text \<open>
  \<open>scaling_round env spec demand n n'\<close>: a reconcile of a CHPA with the specification \<open>spec\<close> and of a Deployment that asks for \<open>n\<close>
  replicas and has them; the metrics ask for \<open>demand\<close>, at a time behind both windows; it leaves the
  Deployment with \<open>n'\<close>.  Status, world and events are arbitrary.
\<close>

definition scaling_round :: "'w env \<Rightarrow> CHPASpec \<Rightarrow> int32 \<Rightarrow> int32 \<Rightarrow> int32 \<Rightarrow> bool" where
  "scaling_round env spec demand n n' \<longleftrightarrow>
     (\<exists>c res c' now c1 m c2 timestamp name.
        Spec (c_chpa c) = spec \<and> dep_Spec_Replicas (c_deploy c) = Some n \<and> dep_Status_Replicas (c_deploy c) = n \<and>
        writes (c_actions c) = [] \<and> run_state (reconcileCHPA env) c = (res, c') \<and>
        run_state (get_scale env) c = (now, c1) \<and>
        run_state (computeReplicasForMetrics env (Metrics spec)) c1 = (Inr m, c2) \<and>
        metric_desire now m = (demand, timestamp, name) \<and> windows_over (c_chpa c) timestamp \<and>
        n' = count_after n (writes (c_actions c')))"

lemma count_after_performed:
  assumes "performed env chpa dep v ws"
  shows "count_after n ws = (case v of Scales k _ \<Rightarrow> k | _ \<Rightarrow> n)"
  using assms by (cases v) (auto simp: performed_def verdict_writes_def status_writes_def scaled_to_def)

text \<open>Such a reconcile leaves the normalised demand.\<close>

lemma reconcile_count:
  assumes "dep_Spec_Replicas (c_deploy c) = Some n" "dep_Status_Replicas (c_deploy c) = n" "writes (c_actions c) = []"
    "run_state (reconcileCHPA env) c = (res, c')" "run_state (get_scale env) c = (now, c1)"
    "run_state (computeReplicasForMetrics env (Metrics (Spec (c_chpa c)))) c1 = (Inr m, c2)"
    "metric_desire now m = (demand, timestamp, name)" "windows_over (c_chpa c) timestamp"
    "sane_bounds (Spec (c_chpa c))" "within_bounds (Spec (c_chpa c)) n"
  shows "count_after n (writes (c_actions c')) = normalized (c_chpa c) n demand"
proof -
  let ?v = "verdict (c_chpa c) (c_deploy c) now (Inr m)" and ?k = "normalized (c_chpa c) n demand"
  have "1 \<le> lower_bound (Spec (c_chpa c))" by (rule lower_bound_props(1) [OF assms(9)])
  with assms(10) have "n \<noteq> 0" "corrective (Spec (c_chpa c)) n = None"
    using lower_bound_props(3) [OF assms(9)] by (fastforce simp: within_bounds_def corrective_def split: option.splits)+
  then have "?v = (if ?k \<noteq> n then Scales ?k (mr_statuses m) else Keeps (mr_statuses m))"
    by (simp add: verdict_def metrics_verdict_def assms(1,2) wanted_desire [OF assms(7)] due_eq windows_over_scale [OF assms(8)])
  moreover have p: "performed env (c_chpa c) (c_deploy c) ?v (writes (c_actions c'))"
    using reconcile_verdict [OF assms(5,6)] assms(3,4) by (auto simp: wp_def)
  ultimately show ?thesis using count_after_performed [OF p, of n] by simp
qed

lemma scaling_round_normalized:
  assumes "scaling_round env spec demand n n'" "sane_bounds spec" "within_bounds spec n"
  shows "\<exists>chpa. Spec chpa = spec \<and> n' = normalized chpa n demand"
  using assms(1) unfolding scaling_round_def
  by (elim exE conjE) (metis assms(2,3) reconcile_count)

lemma rounds_approach:
  assumes "(scaling_round env spec demand ^^ r) n n'" "sane_bounds spec" "growth spec k" "within_bounds spec n"
  shows "within_bounds spec n' \<and> min (destination spec demand) (k ^ r * sint n) \<le> sint n' \<and>
     (0 < r \<longrightarrow> sint n' \<le> destination spec demand)"
  using assms(1)
proof (induction r arbitrary: n')
  case 0
  then show ?case using assms(4) by simp
next
  case (Suc r)
  then obtain n1 where n1: "(scaling_round env spec demand ^^ r) n n1" "scaling_round env spec demand n1 n'" by auto
  note IH = Suc.IH [OF n1(1)]
  obtain chpa where chpa: "Spec chpa = spec" "n' = normalized chpa n1 demand"
    using scaling_round_normalized [OF n1(2) assms(2)] IH by blast
  note a = normalized_approaches [of chpa k n1 demand, unfolded chpa(1), OF assms(2,3) conjunct1 [OF IH], folded chpa(2)]
  have k: "2 \<le> k" using assms(3) by (simp add: growth_def)
  have "0 \<le> destination spec demand" using lower_bound_props(1) [OF assms(2)] by (simp add: destination_def)
  then have "destination spec demand \<le> k * destination spec demand" using k by (intro mult_le_cancel_right1 [THEN iffD2]) simp
  then have "min (destination spec demand) (k ^ Suc r * sint n) \<le> k * min (destination spec demand) (k ^ r * sint n)"
    using k by (simp add: min_mult_distrib_left min_le_iff_disj mult.assoc)
  also have "\<dots> \<le> k * sint n1" using IH k by (intro mult_left_mono) auto
  finally show ?case using a by simp
qed

text \<open>A count at its destination stays there.\<close>

lemma destination_stays:
  assumes "scaling_round env spec demand n n'" "sane_bounds spec" "growth spec k" "within_bounds spec n" "sint n = destination spec demand"
  shows "n' = n"
proof -
  obtain chpa where chpa: "Spec chpa = spec" "n' = normalized chpa n demand"
    using scaling_round_normalized [OF assms(1,2,4)] by blast
  note a = normalized_approaches [of chpa k n demand, unfolded chpa(1), OF assms(2-4), folded chpa(2)]
  have "1 \<le> sint n" using lower_bound_props(1) [OF assms(2)] assms(4) by (simp add: within_bounds_def)
  then have "sint n \<le> k * sint n" using assms(3) by (simp add: growth_def)
  then have "sint n' = sint n" using a(2,3) assms(5) by simp
  then show ?thesis by (simp add: sint_eq_iff)
qed

end
