(* ===== verification/LostStatus.thy ===== *)
theory LostStatus
  imports ControlLoop
begin

text \<open>
  The updates of the status whose errors the code does not look at.  The reference of the theory ReferenceDecision is extended to
  a whole call of \<open>Reconcile\<close>; it never asks for the answer of \<open>update_chpa\<close>.

  Proved: no answer to a status update has any influence on the result of a call or on what it writes; and with a server that
  refuses these updates, the next call decides as if nothing had been scaled.
\<close>

section \<open>A reference for a whole call\<close>

text \<open>The state in which \<open>Reconcile\<close> calls \<open>reconcileCHPA\<close>, or the result it returns before.\<close>

definition prepare :: "'w env \<Rightarrow> string \<Rightarrow> string \<Rightarrow> 'w ctx \<Rightarrow> reconcile_Result + 'w ctx" where
  "prepare env ns name c =
     (case run_state (get_chpa env ns name) (c_ext c) of
        (Inl (NotFound _), _) \<Rightarrow> Inl resStop
      | (Inl (OtherError _), _) \<Rightarrow> Inl (resRepeat env)
      | (Inr x, w) \<Rightarrow>
          (let chpa = setCHPADefaults x in
           if checkCHPAValidity (sprintf0 env) chpa \<noteq> Inr () then Inl resStop
           else (case run_state (get_deployment env (chpa_Namespace chpa) (ref_Name (ScaleTargetRef (Spec chpa)))) w of
                   (Inl _, _) \<Rightarrow> Inl (resRepeat env)
                 | (Inr deploy, w') \<Rightarrow>
                     (case SetControllerReference (GVKForObject env) chpa deploy of
                        Inl _ \<Rightarrow> Inl (resRepeat env)
                      | Inr deploy' \<Rightarrow> Inr (c\<lparr>c_chpa := chpa, c_ext := w', c_deploy := deploy'\<rparr>)))))"

definition call_reference :: "'w env \<Rightarrow> string \<Rightarrow> string \<Rightarrow> 'w ctx \<Rightarrow> reconcile_Result \<times> action list" where
  "call_reference env ns name c =
     (case prepare env ns name c of
        Inl res \<Rightarrow> (res, [])
      | Inr e \<Rightarrow> (if fst (reference env e) = None then resRepeat env else resStop, snd (reference env e)))"

lemma wp_reconcile_reference:
  fixes c :: "'w ctx"
  assumes "\<And>c'. fst (reference env c) = None \<Longrightarrow> writes (c_actions c') = writes (c_actions c) @ snd (reference env c) \<Longrightarrow> Q None c'"
    "\<And>e c'. fst (reference env c) = Some e \<Longrightarrow> writes (c_actions c') = writes (c_actions c) @ snd (reference env c) \<Longrightarrow> Q (Some e) c'"
  shows "wp (reconcileCHPA env) Q c"
  using reconcile_reference [OF surjective_pairing [of "run_state (reconcileCHPA env) c"]] assms
  unfolding wp_def by (cases "fst (reference env c)") simp_all

lemma Reconcile_follows:
  fixes c :: "'w ctx"
  assumes "run_state (Reconcile env ns name) c = (out, c')"
  shows "out = (fst (call_reference env ns name c), None) \<and>
     writes (c_actions c') = writes (c_actions c) @ snd (call_reference env ns name c)"
proof -
  let ?Q = "\<lambda>out (c' :: 'w ctx). out = (fst (call_reference env ns name c), None :: string option) \<and>
     writes (c_actions c') = writes (c_actions c) @ snd (call_reference env ns name c)"
  have ends: "wp (do { record_event ty re m1; setCondition env t st re' m2; State_Monad.return v }) (\<lambda>r c'. r = v \<and> writes (c_actions c') = writes (c_actions d)) d"
    for ty re m1 t st re' m2 v and d :: "'w ctx"
    by (simp add: wp_bind wp_record_event wp_setCondition_exact wp_return)
  obtain r w where r: "run_state (get_chpa env ns name) (c_ext c) = (r, w)" by (metis surj_pair)
  have get: "wp (on_ext (get_chpa env ns name)) K c = K r (c\<lparr>c_ext := w\<rparr>)" for K
    unfolding wp_on_ext by (simp add: wp_def r)
  have "wp (Reconcile env ns name) ?Q c"
  proof (cases r)
    case (Inl e)
    then show ?thesis unfolding Reconcile_def wp_bind get
      by (cases e) (simp_all add: wp_return call_reference_def prepare_def r)
  next
    case (Inr x)
    let ?chpa = "setCHPADefaults x"
    let ?c1 = "c\<lparr>c_ext := w, c_chpa := ?chpa\<rparr>"
    show ?thesis
    proof (cases "checkCHPAValidity (sprintf0 env) ?chpa")
      case (Inl err)
      then show ?thesis unfolding Reconcile_def wp_bind get Inr
        by (simp add: wp_bind wp_update wp_record_event wp_setCondition_exact wp_return call_reference_def prepare_def r Inr)
    next
      case valid: (Inr u)
      obtain g w' where g: "run_state (get_deployment env (chpa_Namespace ?chpa) (ref_Name (ScaleTargetRef (Spec ?chpa)))) w = (g, w')"
        by (metis surj_pair)
      have get': "wp (on_ext (get_deployment env (chpa_Namespace ?chpa) (ref_Name (ScaleTargetRef (Spec ?chpa))))) K ?c1
          = K g (?c1\<lparr>c_ext := w'\<rparr>)" for K
        unfolding wp_on_ext by (simp add: wp_def g)
      have "wp (process_deployment env) ?Q ?c1"
      proof (cases g)
        case (Inl e)
        then show ?thesis unfolding process_deployment_def wp_bind wp_get using get'
          by (simp add: wp_return call_reference_def prepare_def r Inr valid g)
      next
        case dep: (Inr dep0)
        show ?thesis
        proof (cases "SetControllerReference (GVKForObject env) ?chpa dep0")
          case (Inl e)
          then show ?thesis unfolding process_deployment_def wp_bind wp_get using get' dep
            by (simp add: wp_return call_reference_def prepare_def r Inr valid g)
        next
          case scr: (Inr dep)
          let ?e = "c\<lparr>c_chpa := ?chpa, c_ext := w', c_deploy := dep\<rparr>"
          have p: "prepare env ns name c = Inr ?e" by (simp add: prepare_def r Inr valid g dep scr)
          show ?thesis unfolding process_deployment_def wp_bind wp_get using get' dep scr
            by (simp add: wp_bind wp_update)
               (rule wp_reconcile_reference; simp add: wp_return wp_bind wp_record_event wp_setCondition_exact call_reference_def p)
        qed
      qed
      then show ?thesis unfolding Reconcile_def wp_bind get Inr by (simp add: wp_bind wp_update valid)
    qed
  qed
  then show ?thesis using assms by (simp add: wp_def)
qed

section \<open>No answer to a status update matters\<close>

lemma env_fields:
  "replicaCalc (env\<lparr>update_chpa := f\<rparr>) = replicaCalc env" "syncPeriod (env\<lparr>update_chpa := f\<rparr>) = syncPeriod env"
  "time_now (env\<lparr>update_chpa := f\<rparr>) = time_now env" "get_chpa (env\<lparr>update_chpa := f\<rparr>) = get_chpa env"
  "get_deployment (env\<lparr>update_chpa := f\<rparr>) = get_deployment env"
  "update_deployment (env\<lparr>update_chpa := f\<rparr>) = update_deployment env"
  "GVKForObject (env\<lparr>update_chpa := f\<rparr>) = GVKForObject env" "sprintf0 (env\<lparr>update_chpa := f\<rparr>) = sprintf0 env"
  "quote_verb (env\<lparr>update_chpa := f\<rparr>) = quote_verb env"
  by simp_all

lemma set_all_update: "set_all (env\<lparr>update_chpa := f\<rparr>) rs cs w = set_all env rs cs w"
  by (induction env rs cs w rule: set_all.induct) (simp_all split: prod.splits)

lemma setCondition_update: "setCondition (env\<lparr>update_chpa := f\<rparr>) t st r m = setCondition env t st r m"
  unfolding setCondition_def env_fields ..

lemma proposal_update:
  "deployment_selector (env\<lparr>update_chpa := f\<rparr>) = deployment_selector env"
  "metric_proposal (env\<lparr>update_chpa := f\<rparr>) ns sel cur m = metric_proposal env ns sel cur m"
  unfolding deployment_selector_def metric_proposal_def object_proposal_def pods_proposal_def resource_proposal_def
    external_proposal_def with_proposal_def fail_metric_def setCondition_update env_fields by (rule refl)+

lemma compute_update: "computeReplicasForMetrics (env\<lparr>update_chpa := f\<rparr>) ms = computeReplicasForMetrics env ms"
proof -
  have "compute_loop (env\<lparr>update_chpa := f\<rparr>) cur i ms m = compute_loop env cur i ms m" for cur i m
  proof (induction ms arbitrary: i m)
    case (Cons a ms)
    show ?case unfolding compute_loop.simps proposal_update Cons.IH ..
  qed simp
  then show ?thesis unfolding computeReplicasForMetrics_def setCondition_update by presburger
qed

lemma final_status_update: "final_status (env\<lparr>update_chpa := f\<rparr>) v s dep cs w = final_status env v s dep cs w"
proof (cases v)
  case (Scales n ms)
  show ?thesis unfolding Scales final_status.simps env_fields set_all_update ..
qed simp_all

lemma reference_update: "reference (env\<lparr>update_chpa := f\<rparr>) c = reference env c"
  unfolding reference_def left_by_def reported_def verdict_writes_def final_status_update set_all_update compute_update env_fields ..

lemma call_reference_update: "call_reference (env\<lparr>update_chpa := f\<rparr>) ns name c = call_reference env ns name c"
  unfolding call_reference_def prepare_def reference_update resRepeat_def env_fields ..

section \<open>A server that refuses status updates\<close>

definition refusing :: "'w env \<Rightarrow> ('w \<Rightarrow> cache) \<Rightarrow> bool" where
  "refusing env cached \<longleftrightarrow>
     reads_keep (\<lambda>w w'. cached w' = cached w) env \<and>
     (\<forall>ns n. frames (\<lambda>w w'. cached w' = cached w) (get_chpa env ns n)) \<and>
     (\<forall>ns n w. wp (get_chpa env ns n) (\<lambda>r _. \<forall>x. r = Inr x \<longrightarrow> cached w (ns, n) = Some x) w) \<and>
     (\<forall>ns n. frames (\<lambda>w w'. cached w' = cached w) (get_deployment env ns n)) \<and>
     (\<forall>d. frames (\<lambda>w w'. cached w' = cached w) (update_deployment env d)) \<and>
     (\<forall>x w. wp (update_chpa env x) (\<lambda>(e, _) w'. e \<noteq> None \<and> cached w' = cached w) w)"

text \<open>A call leaves the stored CHPAs alone.\<close>

lemma refusing_keeps:
  assumes "refusing env cached"
  shows "frames (\<lambda>c c'. cached (c_ext c') = cached (c_ext c)) (Reconcile env ns name)"
proof -
  let ?S = "\<lambda>(c :: 'a ctx) c'. cached (c_ext c') = cached (c_ext c)"
  have steps: "plain_steps (\<lambda>w w'. cached w' = cached w) ?S env"
    by unfold_locales (use assms in \<open>auto simp: refusing_def\<close>)
  note steps' = plain_steps.steps [OF steps]
  have pure: "frames ?S (State_Monad.update f)" if "\<And>c. c_ext (f c) = c_ext c" for f
    by (rule framesI) (simp add: wp_simps that)
  have act: "frames ?S (act a)" "frames ?S (modify_status g)" "frames ?S (set_deploy_replicas n)" for a g n
    unfolding act_def modify_status_def set_deploy_replicas_def by (rule pure; simp)+
  have "frames (\<lambda>w w'. cached w' = cached w) (update_chpa env x)" for x
  proof (rule framesI)
    fix w
    have "wp (update_chpa env x) (\<lambda>(e, _) w'. e \<noteq> None \<and> cached w' = cached w) w" using assms by (simp add: refusing_def)
    then show "wp (update_chpa env x) (\<lambda>_ w'. cached w' = cached w) w" by (rule wp_mono) auto
  qed
  then have calls: "frames ?S (on_ext (update_chpa env x))" "frames ?S (on_ext (update_deployment env d))"
    "frames ?S (on_ext (get_deployment env ns' n'))" "frames ?S (on_ext (get_chpa env ns' n'))" for x d ns' n'
    using assms by (intro steps.step_on_ext [OF steps']; simp add: refusing_def)+
  have api: "frames ?S f \<Longrightarrow> frames ?S g \<Longrightarrow> frames ?S (case e of NotFound _ \<Rightarrow> f | OtherError _ \<Rightarrow> g)"
    for e and f g :: "('a ctx, reconcile_Result \<times> string option) state"
    by (cases e) simp_all
  show ?thesis
    unfolding Reconcile_def process_deployment_def reconcileCHPA_def reconcile_body_def decide_def metrics_decision_def
      apply_decision_def finish_status_def rescale_deployment_def setCurrentReplicasInStatus_def setStatus_def
      updateStatusIfNeeded_def updateCHPA_def Let_def
    by (intro plain_steps.plain_intros [OF steps] steps.step_clock [OF steps'] steps.step_compute [OF steps']
        steps.step_normalize [OF steps'] steps.step_backoff [OF steps'] steps.step_failed_update [OF steps'] act calls api pure; simp)
qed

text \<open>What the metrics ask for where \<open>reconcileCHPA\<close> is called.\<close>

definition asked :: "'w env \<Rightarrow> 'w ctx \<Rightarrow> int32 \<Rightarrow> gotime \<Rightarrow> bool" where
  "asked env e demand timestamp \<longleftrightarrow> asks_metrics (c_chpa e) (c_deploy e) \<and>
     (\<exists>now c1 m c2 name. run_state (get_scale env) e = (now, c1) \<and>
        run_state (computeReplicasForMetrics env (Metrics (Spec (c_chpa e)))) c1 = (Inr m, c2) \<and>
        metric_desire now m = (demand, timestamp, name))"

lemma reference_asked:
  assumes "asked env e demand timestamp"
  defines "n \<equiv> normalized (c_chpa e) (dep_Status_Replicas (c_deploy e)) demand"
  shows "UpdateDeployment d \<in> set (snd (reference env e)) \<longleftrightarrow>
     d = scaled_to (c_deploy e) n \<and> shouldScale (c_chpa e) (dep_Status_Replicas (c_deploy e)) n timestamp"
proof -
  obtain now c1 m c2 name where run: "run_state (get_scale env) e = (now, c1)"
      "run_state (computeReplicasForMetrics env (Metrics (Spec (c_chpa e)))) c1 = (Inr m, c2)"
    and d: "metric_desire now m = (demand, timestamp, name)" and a: "asks_metrics (c_chpa e) (c_deploy e)"
    using assms(1) unfolding asked_def by blast
  let ?v = "verdict (c_chpa e) (c_deploy e) now (Inr m)"
  have v: "?v = (if shouldScale (c_chpa e) (dep_Status_Replicas (c_deploy e)) n timestamp
      then Scales n (mr_statuses m) else Keeps (mr_statuses m))"
    using a by (auto simp: verdict_def asks_metrics_def metrics_verdict_def wanted_desire [OF d] due_eq n_def Let_def split: option.splits)
  have "snd (reference env e) = verdict_writes env (c_chpa e) (c_deploy e) ?v cs w"
    if "cs = Conditions (Status (c_chpa (left_by env (c_chpa e) (c_deploy e) now (Inr m) c1 c2)))"
      "w = c_ext (left_by env (c_chpa e) (c_deploy e) now (Inr m) c1 c2)" for cs w
    using run that by (auto simp: reference_def run_get_scale Let_def split: prod.splits)
  then show ?thesis unfolding v by (simp add: verdict_writes_def status_writes_def)
qed

lemma prepare_chpa:
  assumes "prepare env ns name c = Inr e"
  shows "\<exists>x w. run_state (get_chpa env ns name) (c_ext c) = (Inr x, w) \<and> c_chpa e = setCHPADefaults x"
  using assms by (auto simp: prepare_def Let_def split: prod.splits sum.splits api_error.splits if_splits)

end
