(* ===== verification/Samples.thy ===== *)
theory Samples
  imports Settling ForbiddenWindows Approach LostStatus
begin

text \<open>
  A concrete setting on which the properties are applied: a CHPA with its default limits, a
  Deployment, an environment with a fixed clock whose only metric is an object metric of value 8
  against a target of 4.  The simplifier evaluates whole reconciles on it.
\<close>

section \<open>The setting\<close>

definition web_ref :: CrossVersionObjectReference where
  "web_ref = \<lparr>ref_Kind = ''Deployment'', ref_Name = ''web'', ref_APIVersion = ''apps/v1''\<rparr>"

definition queue_metric :: MetricSpec where
  "queue_metric = \<lparr>ms_Type = ''Object'',
     ms_Object = Some \<lparr>oms_Target = \<lparr>ref_Kind = ''Service'', ref_Name = ''queue'', ref_APIVersion = ''v1''\<rparr>,
                       oms_MetricName = ''depth'', oms_TargetValue = 4\<rparr>,
     ms_Pods = None, ms_Resource = None, ms_External = None\<rparr>"

definition broken_metric :: MetricSpec where
  "broken_metric = \<lparr>ms_Type = ''Pods'', ms_Object = None, ms_Pods = Some \<lparr>pms_MetricName = ''rps'', pms_TargetAverageValue = 1\<rparr>,
     ms_Resource = None, ms_External = None\<rparr>"

definition web_spec :: CHPASpec where
  "web_spec = \<lparr>DownscaleForbiddenWindowSeconds = 300, UpscaleForbiddenWindowSeconds = 300,
     ScaleUpLimitFactor = defaultScaleUpLimitFactor, ScaleUpLimitMinimum = 4, Tolerance = defaultTolerance,
     ScaleTargetRef = web_ref, Metrics = [queue_metric], MinReplicas = Some 2, MaxReplicas = 10\<rparr>"

definition web_status :: "gotime option \<Rightarrow> CHPAStatus" where
  "web_status t = \<lparr>ObservedGeneration = None, LastScaleTime = t, CurrentReplicas = 3, DesiredReplicas = 3,
     CurrentMetrics = [], Conditions = []\<rparr>"

definition web_chpa :: CHPA where
  "web_chpa = \<lparr>chpa_Namespace = ''prod'', chpa_Name = ''web'', chpa_UID = ''1'', chpa_CreationTimestamp = 0,
     Spec = web_spec, Status = web_status (Some 0)\<rparr>"

definition web_deploy :: "int32 \<Rightarrow> Deployment" where
  "web_deploy n = \<lparr>dep_Namespace = ''prod'', dep_Name = ''web'', dep_OwnerReferences = [],
     dep_Spec_Replicas = Some n,
     dep_Spec_Selector = Some \<lparr>MatchLabels = [''app'' \<mapsto> ''web''], MatchExpressions = []\<rparr>, dep_Status_Replicas = n\<rparr>"

definition web_calc :: "gotime \<Rightarrow> unit ReplicaCalculator" where
  "web_calc t = \<lparr>GetResourceMetric = (\<lambda>_ _ _. State_Monad.return (Inl ''no metrics'')),
     GetRawMetric = (\<lambda>_ _ _. State_Monad.return (Inl ''no metrics'')),
     GetObjectMetric = (\<lambda>_ _ _. State_Monad.return (Inr (8000, t))),
     GetExternalMetric = (\<lambda>_ _ _. State_Monad.return (Inl ''no metrics'')),
     ListPods = (\<lambda>_ _. State_Monad.return (Inr [])),
     LabelSelectorAsSelector = (\<lambda>_. Inr ''app=web''),
     MilliValue = (\<lambda>q. word_of_int \<lceil>q * 1000\<rceil>),
     format_selector = (\<lambda>_. []),
     tolerance = defaultTolerance\<rparr>"

definition web_env :: "int32 \<Rightarrow> gotime \<Rightarrow> unit env" where
  "web_env n t = \<lparr>replicaCalc = web_calc t, syncPeriod = 15000000000,
     time_now = State_Monad.return t,
     get_chpa = (\<lambda>ns name. State_Monad.return (if ns = ''prod'' \<and> name = ''web'' then Inr web_chpa else Inl (NotFound name))),
     get_deployment = (\<lambda>_ _. State_Monad.return (Inr (web_deploy n))),
     update_deployment = (\<lambda>d. State_Monad.return (None, case dep_Spec_Replicas d of Some k \<Rightarrow> k | None \<Rightarrow> 0)),
     update_chpa = (\<lambda>x. State_Monad.return (None, x)),
     GVKForObject = (\<lambda>_. Inr \<lparr>gvk_Group = ''autoscalers.postmates.com'', gvk_Version = ''v1beta1'', gvk_Kind = ''CHPA''\<rparr>),
     sprintf0 = id, quote_verb = id\<rparr>"

definition web_ctx :: "int32 \<Rightarrow> unit ctx" where
  "web_ctx n = \<lparr>c_chpa = web_chpa, c_deploy = web_deploy n, c_actions = [], c_ext = ()\<rparr>"

text \<open>The same with a metric whose source fails.\<close>

definition broken_ctx :: "int32 \<Rightarrow> unit ctx" where
  "broken_ctx n = \<lparr>c_chpa = web_chpa\<lparr>Spec := web_spec\<lparr>Metrics := [broken_metric]\<rparr>\<rparr>, c_deploy = web_deploy n,
                    c_actions = [], c_ext = ()\<rparr>"

text \<open>Everything a run of the controller on this setting unfolds to.\<close>

lemmas web_defs = web_env_def web_calc_def web_ctx_def web_chpa_def web_spec_def web_status_def web_deploy_def
  queue_metric_def web_ref_def

lemmas run_defs = on_ext_def act_def record_event_def modify_status_def set_deploy_replicas_def setCondition_def
  updateCHPA_def updateStatusIfNeeded_def setStatus_def setCurrentReplicasInStatus_def normalizeDesiredReplicas_def
  fail_metric_def with_proposal_def object_proposal_def metric_proposal_def deployment_selector_def
  computeReplicasForMetrics_def metrics_decision_def decide_def rescale_deployment_def finish_status_def
  apply_decision_def reconcile_body_def reconcileCHPA_def recovered_def backoff_conditions_def
  metric_desire_def rescale_reason_def take_proposal_def State_Monad.get_def State_Monad.update_def State_Monad.set_def
  setConditionInList_def status_DeepEqual_def GetObjectMetricReplicas_def

lemmas web_eval = run_defs web_defs Let_def within_tolerance_def scaled_count_def f64_eval defaultTolerance_eq
  convertDesiredReplicasWithRules_def calculateScaleUpLimit_def defaultScaleUpLimitFactor_def
  shouldScale_def add_before_seconds scaled_to_def nth_append

lemma web_dated: "dated (\<lambda>u. u \<le> t) (web_env n t)"
  by (simp add: dated_def web_defs results_def wp_def)

lemma web_calm: "calm_calculator (replicaCalc (web_env n t))"
proof -
  have "clients_ok (replicaCalc (web_env n t))" by (simp add: clients_ok_def web_defs)
  then show ?thesis by (rule clients_ok_calm)
qed

lemma web_metrics_safe: "metrics_safe (web_env n t) web_chpa"
  using web_calm by (simp add: metrics_safe_def metric_ok_def web_chpa_def web_spec_def queue_metric_def)

lemma web_sane: "sane_bounds web_spec" "sane_factor web_spec 3"
  by (simp_all add: sane_bounds_def sane_factor_def web_spec_def defaultScaleUpLimitFactor_def f64_eval)

text \<open>Above the target and after the window the Deployment goes from three to six replicas.\<close>

lemma web_scales_up:
  "UpdateDeployment (scaled_to (web_deploy 3) 6) \<in>
     set (writes (c_actions (snd (run_state (reconcileCHPA (web_env 3 400000000000)) (web_ctx 3)))))"
  by (simp add: web_eval)

text \<open>There the metrics ask for six replicas, at the time of the clock.\<close>

lemma web_demand:
  "\<exists>c1 m c2 name. run_state (get_scale (web_env 3 t)) (web_ctx 3) = (t, c1) \<and>
     run_state (computeReplicasForMetrics (web_env 3 t) (Metrics web_spec)) c1 = (Inr m, c2) \<and> metric_desire t m = (6, t, name)"
  by (simp add: web_eval get_scale_def)

lemma web_growth: "growth web_spec 2" "within_bounds web_spec 3" "lower_bound web_spec = 2" "destination web_spec 6 = 6"
  by (simp_all add: growth_def within_bounds_def lower_bound_def min_allowed_def destination_def web_spec_def
      defaultScaleUpLimitFactor_def f64_eval)

text \<open>The reference on this setting: the Deployment goes to six replicas and the status records the time.\<close>

lemma web_verdict:
  "\<exists>c1 m c2. run_state (get_scale (web_env 3 400000000000)) (web_ctx 3) = (400000000000, c1) \<and>
     run_state (computeReplicasForMetrics (web_env 3 400000000000) (Metrics web_spec)) c1 = (Inr m, c2) \<and>
     verdict web_chpa (web_deploy 3) 400000000000 (Inr m) = Scales 6 (mr_statuses m)"
proof -
  obtain c1 m c2 name where run: "run_state (get_scale (web_env 3 400000000000)) (web_ctx 3) = (400000000000, c1)"
      "run_state (computeReplicasForMetrics (web_env 3 400000000000) (Metrics web_spec)) c1 = (Inr m, c2)"
    and d: "metric_desire 400000000000 m = (6, 400000000000, name)"
    using web_demand [of 400000000000] by blast
  have n: "normalized web_chpa 3 6 = 6"
    using normalized_growth [of web_chpa 2 3 6] web_growth web_sane(1) 
    by (simp add: sint_eq_iff web_chpa_def) (simp add: web_spec_def)
  have "metrics_verdict web_chpa 3 400000000000 (Inr m) = Scales 6 (mr_statuses m)"
    by (simp add: metrics_verdict_def wanted_desire [OF d] due_eq n shouldScale_cases) (simp add: web_chpa_def web_spec_def web_status_def)
  moreover have "corrective (Spec web_chpa) 3 = None" by (simp add: corrective_def web_chpa_def web_spec_def)
  ultimately have "verdict web_chpa (web_deploy 3) 400000000000 (Inr m) = Scales 6 (mr_statuses m)"
    by (simp add: verdict_def web_deploy_def)
  with run show ?thesis by blast
qed

lemma web_reference:
  "fst (reference (web_env 3 400000000000) (web_ctx 3)) = None \<and>
   (\<exists>x. snd (reference (web_env 3 400000000000) (web_ctx 3)) =
       [UpdateDeployment (scaled_to (web_deploy 3) 6), UpdateCHPA x] \<and>
     LastScaleTime (Status x) = Some 400000000000 \<and> CurrentReplicas (Status x) = 3 \<and> DesiredReplicas (Status x) = 6)"
proof -
  let ?env = "web_env 3 400000000000"
  obtain c1 m c2 where run: "run_state (get_scale ?env) (web_ctx 3) = (400000000000, c1)"
      "run_state (computeReplicasForMetrics ?env (Metrics web_spec)) c1 = (Inr m, c2)"
    and v: "verdict web_chpa (web_deploy 3) 400000000000 (Inr m) = Scales 6 (mr_statuses m)"
    using web_verdict by blast
  let ?c3 = "left_by ?env web_chpa (web_deploy 3) 400000000000 (Inr m) c1 c2"
  let ?st = "final_status ?env (Scales 6 (mr_statuses m)) (Status web_chpa) (web_deploy 3) (Conditions (Status (c_chpa ?c3))) (c_ext ?c3)"
  have c: "Spec web_chpa = web_spec" "c_deploy (web_ctx 3) = web_deploy 3" "c_chpa (web_ctx 3) = web_chpa"
    by (simp_all add: web_ctx_def web_chpa_def)
  have "reference ?env (web_ctx 3) = (failure web_chpa (web_deploy 3) (Inr m),
      verdict_writes ?env web_chpa (web_deploy 3) (Scales 6 (mr_statuses m)) (Conditions (Status (c_chpa ?c3))) (c_ext ?c3))"
    using run v by (auto simp: reference_def run_get_scale Let_def c split: prod.splits)
  moreover have st: "LastScaleTime ?st = Some 400000000000" "CurrentReplicas ?st = 3" "DesiredReplicas ?st = 6"
    by (simp_all add: web_env_def rebuilt_def scaled_to_def web_deploy_def split: prod.splits)
  moreover have "?st \<noteq> Status web_chpa" using st(1) by (auto simp: web_chpa_def web_status_def)
  moreover have "failure web_chpa (web_deploy 3) (Inr m) = None" by (simp add: failure_def web_deploy_def)
  ultimately show ?thesis by (simp add: verdict_writes_def status_writes_def del: final_status.simps)
qed

text \<open>The loop with this CHPA in the cache.\<close>

definition web_cache :: "unit \<Rightarrow> cache" where
  "web_cache _ = [(''prod'', ''web'') \<mapsto> web_chpa]"

definition web_loop :: "unit loop" where
  "web_loop = \<lparr>lp_world = (), lp_now = 0, lp_workers = 1, lp_queue = wq_empty, lp_waiting = Map.empty, lp_results = Map.empty,
                lp_pending = [Added web_chpa], lp_actions = []\<rparr>"

definition web_loop_due :: "unit loop" where
  "web_loop_due = web_loop\<lparr>lp_pending := [], lp_queue := wq_Add (''prod'', ''web'') wq_empty\<rparr>"

lemma web_sound: "sound_env (web_env 3 t) web_cache"
  by (auto simp: sound_env_def web_cache_def web_env_def web_calc_def web_deploy_def clients_ok_def results_def wp_def)

lemma web_run_status:
  "\<exists>x. UpdateCHPA x \<in> set (c_actions (snd (run_state (Reconcile (web_env 3 400000000000) ''prod'' ''web'') (web_ctx 3))))"
  by (simp add: web_eval Reconcile_def process_deployment_def SetControllerReference_def setCHPADefaults_def setSpecDefaults_def
      checkCHPAValidity_def)

lemma web_storing: "storing (web_env n t) web_cache"
  by (auto simp: storing_def reads_keep_def frames_def wp_def web_env_def web_calc_def web_cache_def request_of_def web_chpa_def
      split: if_splits)

lemma web_settled: "numeric web_chpa" "settled_spec web_chpa"
  by (simp_all add: numeric_def settled_spec_def web_chpa_def web_spec_def defaultScaleUpLimitFactor_def defaultTolerance_eq
      setCHPADefaults_def setSpecDefaults_def spec_DeepEqual_def f64_eval)

lemma web_defaults: "setCHPADefaults (web_chpa\<lparr>Status := s\<rparr>) = web_chpa\<lparr>Status := s\<rparr>"
  by (simp add: web_chpa_def web_spec_def defaultScaleUpLimitFactor_def defaultTolerance_eq setCHPADefaults_def
      setSpecDefaults_def f64_eval)

lemma web_request: "request_of web_chpa = (''prod'', ''web'')"
  by (simp add: request_of_def web_chpa_def)

lemma web_reachable: "reachable (web_env n t) web_cache web_loop_due"
proof -
  have "reachable (web_env n t) web_cache web_loop"
    by (rule reachable.start) (simp add: loop_start_def web_loop_def web_cache_def web_request worker_count_def)
  moreover have "loop_step (web_env n t) web_cache web_loop web_loop_due"
    using loop_step.deliver [of web_loop "Added web_chpa" "[]" "web_env n t" web_cache]
    by (simp add: web_loop_due_def web_loop_def web_request)
  ultimately show ?thesis by (rule reachable.step)
qed

text \<open>The worker takes it and runs a whole reconcile, which raises the count from three to six.\<close>

lemma web_run:
  "\<exists>d. UpdateDeployment d \<in> set (c_actions (snd (run_state (Reconcile (web_env 3 400000000000) ''prod'' ''web'') (web_ctx 3)))) \<and>
     dep_Spec_Replicas d = Some 6"
  by (simp add: web_eval Reconcile_def process_deployment_def SetControllerReference_def setCHPADefaults_def setSpecDefaults_def
      checkCHPAValidity_def)

lemma web_reachable_run:
  "\<exists>s d. reachable (web_env 3 400000000000) web_cache s \<and> UpdateDeployment d \<in> set (lp_actions s) \<and>
     dep_Spec_Replicas d = Some 6"
proof -
  let ?k = "(''prod'', ''web'')" and ?env = "web_env 3 400000000000"
  obtain out c' where r: "run_state (Reconcile ?env (fst ?k) (snd ?k)) (web_ctx 3) = (out, c')" by (metis surj_pair)
  obtain q where q: "wq_Get (lp_queue web_loop_due) = Some (?k, q)" "wq_processing q = {?k}"
    "card (wq_processing (lp_queue web_loop_due)) < lp_workers web_loop_due"
    by (simp add: web_loop_due_def web_loop_def wq_Add_def wq_Get_def wq_empty_def Let_def)
  have t: "reachable ?env web_cache (web_loop_due\<lparr>lp_queue := q\<rparr>)"
    by (rule reachable.step [OF web_reachable loop_step.take [OF q(3,1)]])
  have "loop_step ?env web_cache (web_loop_due\<lparr>lp_queue := q\<rparr>) ((web_loop_due\<lparr>lp_queue := q\<rparr>)\<lparr>lp_world := c_ext c',
      lp_results := (lp_results (web_loop_due\<lparr>lp_queue := q\<rparr>))(?k \<mapsto> out),
      lp_pending := lp_pending (web_loop_due\<lparr>lp_queue := q\<rparr>) @ [],
      lp_actions := lp_actions (web_loop_due\<lparr>lp_queue := q\<rparr>) @ c_actions c'\<rparr>)"
    by (rule loop_step.run [OF _ _ _ _ r]) (simp_all add: q web_loop_due_def web_loop_def web_ctx_def web_cache_def)
  note run = reachable.step [OF t this]
  obtain d where d: "UpdateDeployment d \<in> set (c_actions c')" "dep_Spec_Replicas d = Some 6"
    using web_run r by auto
  show ?thesis
    by (rule exI, rule exI [of _ d], rule conjI [OF run]) (simp add: d)
qed

section \<open>A server that stores what is written\<close>

text \<open>The world: the clock, the time of the last scale in the stored CHPA, the log of the updates.\<close>

type_synonym web_world = "gotime \<times> gotime option \<times> (gotime \<times> Deployment) list"

definition web_server :: "web_world server" where
  "web_server = \<lparr>sv_now = fst, sv_last = fst \<circ> snd, sv_log = snd \<circ> snd\<rparr>"

definition live_calc :: "web_world ReplicaCalculator" where
  "live_calc = \<lparr>GetResourceMetric = (\<lambda>_ _ _. State_Monad.return (Inl ''no metrics'')),
     GetRawMetric = (\<lambda>_ _ _. State_Monad.return (Inl ''no metrics'')),
     GetObjectMetric = (\<lambda>_ _ _. State (\<lambda>w. (Inr (8000, fst w), w))),
     GetExternalMetric = (\<lambda>_ _ _. State_Monad.return (Inl ''no metrics'')),
     ListPods = (\<lambda>_ _. State_Monad.return (Inr [])),
     LabelSelectorAsSelector = (\<lambda>_. Inr ''app=web''),
     MilliValue = (\<lambda>q. word_of_int \<lceil>q * 1000\<rceil>),
     format_selector = (\<lambda>_. []),
     tolerance = defaultTolerance\<rparr>"

definition live_env :: "web_world env" where
  "live_env = \<lparr>replicaCalc = live_calc, syncPeriod = 15000000000,
     time_now = State (\<lambda>w. (fst w, w)),
     get_chpa = (\<lambda>_ _. State (\<lambda>w. (Inr (web_chpa\<lparr>Status := web_status (fst (snd w))\<rparr>), w))),
     get_deployment = (\<lambda>_ _. State_Monad.return (Inr (web_deploy 3))),
     update_deployment = (\<lambda>d. State (\<lambda>(t, l, g). ((None, 0), (t, l, g @ [(t, d)])))),
     update_chpa = (\<lambda>x. State (\<lambda>(t, l, g). let l' = map_option secs (LastScaleTime (Status x))
         in ((None, x\<lparr>Status := (Status x)\<lparr>LastScaleTime := l'\<rparr>\<rparr>), (t, l', g)))),
     GVKForObject = (\<lambda>_. Inr \<lparr>gvk_Group = ''autoscalers.postmates.com'', gvk_Version = ''v1beta1'', gvk_Kind = ''CHPA''\<rparr>),
     sprintf0 = id, quote_verb = id\<rparr>"

lemma live_faithful: "faithful web_server live_env ''prod'' ''web''"
  by (auto simp: faithful_def live_env_def live_calc_def web_server_def reads_keep_def dated_until_def until_def frames_def
      wp_def still_def backward_def named_def web_chpa_def web_status_def Let_def)

definition live_ctx :: "web_world \<Rightarrow> web_world ctx" where
  "live_ctx w = \<lparr>c_chpa = web_chpa, c_deploy = web_deploy 3, c_actions = [], c_ext = w\<rparr>"

lemmas live_eval = live_env_def live_calc_def live_ctx_def web_eval Reconcile_def process_deployment_def
  SetControllerReference_def setCHPADefaults_def setSpecDefaults_def checkCHPAValidity_def

lemma live_run:
  "l = None \<or> l = Some 400000000000 \<and> t = 800000000000 \<Longrightarrow>
   \<exists>out c' d. run_state (Reconcile live_env ''prod'' ''web'') (live_ctx (t, l, g)) = (out, c') \<and>
     c_ext c' = (t, Some (secs t), g @ [(t, d)])"
  by (elim disjE conjE) (simp_all add: live_eval)

text \<open>The same server when it refuses every update of a CHPA.\<close>

definition lossy_env :: "web_world env" where
  "lossy_env = live_env\<lparr>update_chpa := (\<lambda>x. State_Monad.return (Some ''conflict'', x))\<rparr>"

definition lossy_cache :: "web_world \<Rightarrow> cache" where
  "lossy_cache w = (\<lambda>_. Some (web_chpa\<lparr>Status := web_status (fst (snd w))\<rparr>))"

lemma lossy_refusing: "refusing lossy_env lossy_cache"
  by (auto simp: refusing_def reads_keep_def frames_def wp_def lossy_env_def live_env_def live_calc_def lossy_cache_def)

lemma lossy_run:
  "\<exists>out c' d. run_state (Reconcile lossy_env ''prod'' ''web'') (live_ctx (t, None, g)) = (out, c') \<and>
     c_ext c' = (t, None, g @ [(t, d)]) \<and> dep_Spec_Replicas d = Some 6"
  by (simp add: live_eval lossy_env_def)

lemma lossy_asked:
  "\<exists>e. prepare lossy_env ''prod'' ''web'' (live_ctx (t, None, g)) = Inr e \<and> asked lossy_env e 6 t \<and>
     dep_Status_Replicas (c_deploy e) = 3"
  by (simp add: prepare_def asked_def asks_metrics_def corrective_def get_scale_def live_eval lossy_env_def)

end
