(* ===== verification/GoMemory.thy ===== *)
theory GoMemory
  imports StatePrograms
begin

text \<open>
  The memory of a Go program, as far as copying structures needs it: cells at addresses, an
  allocation counter, programs as state-monad programs over the memory.  A pointer is an address
  option (\<open>None\<close> is nil); a slice is the address of its array.

  The locale \<open>deep_copy\<close> is the contract of a \<open>DeepCopyInto\<close>: it only allocates, and the copy it
  leaves can be read from the newly allocated cells alone.  Pointers, slices and structs inherit it
  from their parts; the clients' facts about independence are proved once, inside it.
\<close>

section \<open>Memory\<close>

type_synonym addr = nat

record 'c heap =
  cells :: "addr \<rightharpoonup> 'c"
  next_addr :: addr

definition heap_ok :: "'c heap \<Rightarrow> bool" where
  "heap_ok h \<longleftrightarrow> dom (cells h) \<subseteq> {..<next_addr h}"

definition alloc :: "'c \<Rightarrow> ('c heap, addr) state" where
  "alloc c = State (\<lambda>h. (next_addr h, \<lparr>cells = (cells h)(next_addr h \<mapsto> c), next_addr = Suc (next_addr h)\<rparr>))"

definition store :: "addr \<Rightarrow> 'c \<Rightarrow> ('c heap, unit) state" where
  "store a c = State_Monad.update (\<lambda>h. h\<lparr>cells := (cells h)(a \<mapsto> c)\<rparr>)"

definition load :: "addr \<Rightarrow> ('c heap, 'c option) state" where
  "load a = State (\<lambda>h. (cells h a, h))"

lemma wp_alloc [wp_simps]:
  "wp (alloc c) Q h = Q (next_addr h) (\<lparr>cells = (cells h)(next_addr h \<mapsto> c), next_addr = Suc (next_addr h)\<rparr>)"
  by (simp add: alloc_def wp_def)

lemma wp_store [wp_simps]: "wp (store a c) Q h = Q () (h\<lparr>cells := (cells h)(a \<mapsto> c)\<rparr>)"
  by (simp add: store_def wp_simps)

lemma wp_load [wp_simps]: "wp (load a) Q h = Q (cells h a) h"
  by (simp add: load_def wp_def)

text \<open>\<open>grows h h'\<close>: cells were added, none was changed.  \<open>since n h\<close>: the cells allocated from \<open>n\<close> on.\<close>

definition grows :: "'c heap \<Rightarrow> 'c heap \<Rightarrow> bool" where
  "grows h h' \<longleftrightarrow> cells h \<subseteq>\<^sub>m cells h' \<and> next_addr h \<le> next_addr h'"

definition since :: "addr \<Rightarrow> 'c heap \<Rightarrow> 'c heap" where
  "since n h = h\<lparr>cells := cells h |` {n..}\<rparr>"

lemma grows_refl [simp]: "grows h h"
  by (simp add: grows_def)

lemma grows_trans: "grows h h1 \<Longrightarrow> grows h1 h2 \<Longrightarrow> grows h h2"
  unfolding grows_def using map_le_trans by fastforce

lemma grows_since: "grows h h' \<Longrightarrow> grows (since n h) (since n h')"
  by (auto simp: grows_def since_def map_le_def restrict_map_def)

lemma since_grows: "m \<le> n \<Longrightarrow> grows (since n h) (since m h)"
  by (auto simp: grows_def since_def map_le_def restrict_map_def)

lemma since_below: "grows (since n h) h"
  by (auto simp: grows_def since_def map_le_def restrict_map_def)

lemma grows_alloc:
  "heap_ok h \<Longrightarrow> grows h \<lparr>cells = (cells h)(next_addr h \<mapsto> c), next_addr = Suc (next_addr h)\<rparr>"
  by (auto simp: grows_def heap_ok_def map_le_def)

lemma heap_ok_alloc: "heap_ok h \<Longrightarrow> heap_ok \<lparr>cells = (cells h)(next_addr h \<mapsto> c), next_addr = Suc (next_addr h)\<rparr>"
  by (auto simp: heap_ok_def)

section \<open>The contract of a deep copy\<close>

text \<open>Values read from memory do not depend on further cells.\<close>

definition stable :: "('c heap \<Rightarrow> 'm \<Rightarrow> 'v option) \<Rightarrow> bool" where
  "stable read \<longleftrightarrow> (\<forall>h h' m v. read h m = Some v \<longrightarrow> cells h \<subseteq>\<^sub>m cells h' \<longrightarrow> read h' m = Some v)"

lemma stableD: "stable read \<Longrightarrow> read h m = Some v \<Longrightarrow> grows h h' \<Longrightarrow> read h' m = Some v"
  unfolding stable_def grows_def by blast

lemma stableI: "(\<And>h h' m v. read h m = Some v \<Longrightarrow> cells h \<subseteq>\<^sub>m cells h' \<Longrightarrow> read h' m = Some v) \<Longrightarrow> stable read"
  unfolding stable_def by blast

locale deep_copy =
  fixes read :: "'c heap \<Rightarrow> 'm \<Rightarrow> 'v option" and copy :: "'m \<Rightarrow> ('c heap, 'm) state"
  assumes stable: "stable read"
    and copied: "heap_ok h \<Longrightarrow> read h m = Some v \<Longrightarrow>
      wp (copy m) (\<lambda>m' h'. heap_ok h' \<and> grows h h' \<and> read (since (next_addr h) h') m' = Some v) h"
begin

lemma wp_copy:
  assumes "heap_ok h" "read h m = Some v"
    "\<And>m' h'. heap_ok h' \<Longrightarrow> grows h h' \<Longrightarrow> read (since (next_addr h) h') m' = Some v \<Longrightarrow> Q m' h'"
  shows "wp (copy m) Q h"
  using wp_mono [OF copied [OF assms(1,2)]] assms(3) by blast

text \<open>Original and copy read the same and share no cell: neither notices what is done to the other's cells.\<close>

lemma independent:
  assumes "heap_ok h" "read h m = Some v" "run_state (copy m) h = (m', h')"
  shows "read h' m = Some v" "read h' m' = Some v"
    "(\<And>a. a < next_addr h \<Longrightarrow> cells h2 a = cells h' a) \<Longrightarrow> read h2 m = Some v"
    "(\<And>a. next_addr h \<le> a \<Longrightarrow> cells h2 a = cells h' a) \<Longrightarrow> read h2 m' = Some v"
proof -
  have c: "heap_ok h'" "grows h h'" "read (since (next_addr h) h') m' = Some v"
    using copied [OF assms(1,2)] assms(3) by (simp_all add: wp_def)
  show "read h' m = Some v" by (rule stableD [OF stable assms(2) c(2)])
  show "read h' m' = Some v" by (rule stableD [OF stable c(3) since_below])
  show "read h2 m = Some v" if e: "\<And>a. a < next_addr h \<Longrightarrow> cells h2 a = cells h' a"
  proof -
    have "cells h \<subseteq>\<^sub>m cells h2"
      using assms(1) c(2) e by (auto simp: heap_ok_def grows_def map_le_def subset_iff)
    then show ?thesis using stable assms(2) unfolding stable_def by blast
  qed
  show "read h2 m' = Some v" if e: "\<And>a. next_addr h \<le> a \<Longrightarrow> cells h2 a = cells h' a"
  proof -
    have "cells (since (next_addr h) h') \<subseteq>\<^sub>m cells h2"
      using e by (auto simp: since_def map_le_def restrict_map_def)
    then show ?thesis using stable c(3) unfolding stable_def by blast
  qed
qed

end

section \<open>Plain values\<close>

text \<open>A value without pointers is copied by the assignment.\<close>

definition read_plain :: "'c heap \<Rightarrow> 'm \<Rightarrow> 'm option" where
  "read_plain h m = Some m"

definition copy_plain :: "'m \<Rightarrow> ('c heap, 'm) state" where
  "copy_plain m = State_Monad.return m"

lemma deep_copy_plain: "deep_copy read_plain copy_plain"
  by unfold_locales (simp_all add: stable_def read_plain_def copy_plain_def wp_simps)

section \<open>Pointers\<close>

text \<open>
  \<open>if in.P != nil { *out.P = new(T); in.P.DeepCopyInto(out.P) }\<close>: the new cell first holds the
  shallow copy \<open>*out = *in\<close>, which is then completed.  \<open>mk\<close> and \<open>un\<close> relate contents and cells.
\<close>

fun read_ptr :: "('c \<Rightarrow> 'm option) \<Rightarrow> ('c heap \<Rightarrow> 'm \<Rightarrow> 'v option) \<Rightarrow> 'c heap \<Rightarrow> addr option \<Rightarrow> 'v option option" where
  "read_ptr un read h None = Some None"
| "read_ptr un read h (Some a) =
     (case Option.bind (cells h a) un of None \<Rightarrow> None | Some m \<Rightarrow> map_option Some (read h m))"

definition new_copy :: "('m \<Rightarrow> 'c) \<Rightarrow> ('m \<Rightarrow> ('c heap, 'm) state) \<Rightarrow> 'm \<Rightarrow> ('c heap, addr) state" where
  "new_copy mk copy m = do {
     b \<leftarrow> alloc (mk m);
     m' \<leftarrow> copy m;
     store b (mk m');
     State_Monad.return b
   }"

fun copy_ptr :: "('m \<Rightarrow> 'c) \<Rightarrow> ('c \<Rightarrow> 'm option) \<Rightarrow> ('m \<Rightarrow> ('c heap, 'm) state) \<Rightarrow> addr option \<Rightarrow> ('c heap, addr option) state" where
  "copy_ptr mk un copy None = State_Monad.return None"
| "copy_ptr mk un copy (Some a) = do {
     c \<leftarrow> load a;
     (case Option.bind c un of
        None \<Rightarrow> State_Monad.return (Some a)
      | Some m \<Rightarrow> do {
          b \<leftarrow> new_copy mk copy m;
          State_Monad.return (Some b)
        })
   }"

lemma cell_bind_grows: "Option.bind (cells h a) un = Some m \<Longrightarrow> cells h \<subseteq>\<^sub>m cells h' \<Longrightarrow> Option.bind (cells h' a) un = Some m"
  by (cases "cells h a") (auto simp: map_le_def dom_def)

lemma stable_ptr:
  fixes read :: "'c heap \<Rightarrow> 'm \<Rightarrow> 'v option"
  assumes "stable read"
  shows "stable (read_ptr un read)"
proof (rule stableI)
  fix h h' :: "'c heap" and p v assume r: "read_ptr un read h p = Some v" and le: "cells h \<subseteq>\<^sub>m cells h'"
  show "read_ptr un read h' p = Some v"
  proof (cases p)
    case (Some a)
    then obtain m x where m: "Option.bind (cells h a) un = Some m" "read h m = Some x" "v = Some x"
      using r by (auto split: option.splits)
    have "read h' m = Some x" using assms m(2) le unfolding stable_def by blast
    then show ?thesis using cell_bind_grows [OF m(1) le] m(3) Some by simp
  qed (use r in simp)
qed

lemma wp_new_copy:
  fixes read :: "'c heap \<Rightarrow> 'm \<Rightarrow> 'v option"
  assumes "deep_copy read copy" "heap_ok h" "read h m = Some x"
    "\<And>m' h'. heap_ok h' \<Longrightarrow> grows h h' \<Longrightarrow> cells h' (next_addr h) = Some (mk m') \<Longrightarrow>
       read (since (next_addr h) h') m' = Some x \<Longrightarrow> Q (next_addr h) h'"
  shows "wp (new_copy mk copy m) Q h"
  unfolding new_copy_def wp_simps
proof (rule deep_copy.wp_copy [OF assms(1) heap_ok_alloc [OF assms(2)]
      stableD [OF deep_copy.stable [OF assms(1)] assms(3) grows_alloc [OF assms(2)]]], goal_cases)
  case (1 m' h2)
  let ?n = "next_addr h" and ?h3 = "h2\<lparr>cells := (cells h2)(next_addr h \<mapsto> mk m')\<rparr>"
  have fresh: "cells h ?n = None" using assms(2) by (auto simp: heap_ok_def)
  have "grows h ?h3"
    using grows_trans [OF grows_alloc [OF assms(2)] 1(2)] fresh by (auto simp: grows_def map_le_def)
  moreover have "heap_ok ?h3" using 1(1,2) by (auto simp: heap_ok_def grows_def)
  moreover have "grows (since (Suc ?n) h2) (since ?n ?h3)"
    by (auto simp: grows_def since_def map_le_def restrict_map_def)
  then have "read (since ?n ?h3) m' = Some x"
    using 1(3) by (auto intro: stableD [OF deep_copy.stable [OF assms(1)]])
  ultimately show ?case by (intro assms(4)) simp_all
qed

lemma deep_copy_ptr:
  fixes read :: "'c heap \<Rightarrow> 'm \<Rightarrow> 'v option"
  assumes "deep_copy read copy" and un: "\<And>m. un (mk m) = Some m"
  shows "deep_copy (read_ptr un read) (copy_ptr mk un copy)"
proof
  show "stable (read_ptr un read)" by (rule stable_ptr [OF deep_copy.stable [OF assms(1)]])
  fix h :: "'c heap" and p v assume h: "heap_ok h" "read_ptr un read h p = Some v"
  show "wp (copy_ptr mk un copy p)
      (\<lambda>m' h'. heap_ok h' \<and> grows h h' \<and> read_ptr un read (since (next_addr h) h') m' = Some v) h"
  proof (cases p)
    case (Some a)
    then obtain m x where m: "Option.bind (cells h a) un = Some m" "read h m = Some x" "v = Some x"
      using h(2) by (auto split: option.splits)
    show ?thesis
      unfolding Some copy_ptr.simps wp_simps m(1) option.case
      by (rule wp_new_copy [OF assms(1) h(1) m(2)]) (simp add: since_def m(3) un)
  qed (use h in \<open>simp add: wp_simps\<close>)
qed

section \<open>Slices\<close>

text \<open>
  \<open>if in.S != nil { *out.S = make([]T, len(*in.S)); for i := range *in.S { (*in.S)[i].DeepCopyInto(&(*out.S)[i]) } }\<close>:
  an array of zero values whose elements are overwritten one after the other.
\<close>

fun read_slice :: "('c \<Rightarrow> 'm list option) \<Rightarrow> ('c heap \<Rightarrow> 'm \<Rightarrow> 'v option) \<Rightarrow> 'c heap \<Rightarrow> addr option \<Rightarrow> 'v list option" where
  "read_slice un read h None = Some []"
| "read_slice un read h (Some a) =
     (case Option.bind (cells h a) un of None \<Rightarrow> None | Some xs \<Rightarrow> those (map (read h) xs))"

fun copy_elems :: "('m list \<Rightarrow> 'c) \<Rightarrow> ('c \<Rightarrow> 'm list option) \<Rightarrow> ('m \<Rightarrow> ('c heap, 'm) state) \<Rightarrow> addr \<Rightarrow> nat \<Rightarrow> 'm list
    \<Rightarrow> ('c heap, unit) state" where
  "copy_elems mk un copy b i [] = State_Monad.return ()"
| "copy_elems mk un copy b i (x # xs) = do {
     m' \<leftarrow> copy x;
     c \<leftarrow> load b;
     (case Option.bind c un of
        None \<Rightarrow> State_Monad.return ()
      | Some ys \<Rightarrow> store b (mk (ys[i := m'])));
     copy_elems mk un copy b (Suc i) xs
   }"

fun copy_slice :: "('m list \<Rightarrow> 'c) \<Rightarrow> ('c \<Rightarrow> 'm list option) \<Rightarrow> 'm \<Rightarrow> ('m \<Rightarrow> ('c heap, 'm) state) \<Rightarrow> addr option
    \<Rightarrow> ('c heap, addr option) state" where
  "copy_slice mk un zero copy None = State_Monad.return None"
| "copy_slice mk un zero copy (Some a) = do {
     c \<leftarrow> load a;
     (case Option.bind c un of
        None \<Rightarrow> State_Monad.return (Some a)
      | Some xs \<Rightarrow> do {
          b \<leftarrow> alloc (mk (replicate (length xs) zero));
          copy_elems mk un copy b 0 xs;
          State_Monad.return (Some b)
        })
   }"

lemma those_map: "those (map f xs) = Some vs \<longleftrightarrow> list_all2 (\<lambda>x v. f x = Some v) xs vs"
  by (induction xs arbitrary: vs) (auto simp: list_all2_Cons1 split: option.splits)

lemma stable_those:
  fixes read :: "'c heap \<Rightarrow> 'm \<Rightarrow> 'v option" and h h' :: "'c heap"
  assumes "stable read" "cells h \<subseteq>\<^sub>m cells h'" "those (map (read h) xs) = Some vs"
  shows "those (map (read h') xs) = Some vs"
proof -
  have "read h' x = Some v" if "read h x = Some v" for x v
    using assms(1,2) that unfolding stable_def by blast
  then show ?thesis using assms(3) unfolding those_map by (rule list_all2_mono [rotated]) blast
qed

lemma stable_slice:
  fixes read :: "'c heap \<Rightarrow> 'm \<Rightarrow> 'v option"
  assumes "stable read"
  shows "stable (read_slice un read)"
proof (rule stableI)
  fix h h' :: "'c heap" and p v assume r: "read_slice un read h p = Some v" and le: "cells h \<subseteq>\<^sub>m cells h'"
  show "read_slice un read h' p = Some v"
  proof (cases p)
    case (Some a)
    then obtain xs where xs: "Option.bind (cells h a) un = Some xs" "those (map (read h) xs) = Some v"
      using r by (auto split: option.splits)
    then show ?thesis using cell_bind_grows [OF xs(1) le] stable_those [OF assms le xs(2)] Some by simp
  qed (use r in simp)
qed

text \<open>The loop: the elements before \<open>i\<close> are copied, those from \<open>i\<close> on are still to be done.\<close>

lemma wp_copy_elems:
  fixes read :: "'c heap \<Rightarrow> 'm \<Rightarrow> 'v option"
  assumes "deep_copy read copy" and un: "\<And>ms. un (mk ms) = Some ms"
    and "heap_ok h" "grows h0 h" "cells h0 b = None" "b < next_addr h" "cells h b = Some (mk ys)"
    "length ys = i + length xs" "list_all2 (\<lambda>x v. read h0 x = Some v) xs vs"
    "\<And>h' ys'. heap_ok h' \<Longrightarrow> grows h0 h' \<Longrightarrow> grows (since (Suc b) h) (since (Suc b) h') \<Longrightarrow>
       cells h' b = Some (mk ys') \<Longrightarrow> take i ys' = take i ys \<Longrightarrow> length ys' = length ys \<Longrightarrow>
       list_all2 (\<lambda>y v. read (since (Suc b) h') y = Some v) (drop i ys') vs \<Longrightarrow> Q () h'"
  shows "wp (copy_elems mk un copy b i xs) Q h"
  using assms(3-)
proof (induction xs arbitrary: i ys vs h)
  case Nil
  show ?case unfolding copy_elems.simps wp_return
    by (rule Nil(8) [OF Nil(1,2) grows_refl Nil(5)]) (use Nil in simp_all)
next
  case (Cons x xs)
  note st = deep_copy.stable [OF assms(1)]
  obtain v vs' where vs: "vs = v # vs'" "read h0 x = Some v" "list_all2 (\<lambda>x v. read h0 x = Some v) xs vs'"
    using Cons.prems(7) by (auto simp: list_all2_Cons1)
  show ?case unfolding copy_elems.simps wp_bind
  proof (rule deep_copy.wp_copy [OF assms(1) Cons.prems(1) stableD [OF st vs(2) Cons.prems(2)]], goal_cases)
    case (1 m' h1)
    let ?ys = "ys[i := m']" and ?h2 = "h1\<lparr>cells := (cells h1)(b \<mapsto> mk (ys[i := m']))\<rparr>"
    have b1: "cells h1 b = Some (mk ys)" using 1(2) Cons.prems(5) by (auto simp: grows_def map_le_def dom_def)
    have g2: "grows h0 ?h2"
      using grows_trans [OF Cons.prems(2) 1(2)] Cons.prems(3) by (auto simp: grows_def map_le_def)
    have s2: "since (Suc b) ?h2 = since (Suc b) h1" unfolding since_def by (simp add: fun_upd_restrict_conv)
    have r2: "read (since (Suc b) ?h2) m' = Some v"
      unfolding s2 using 1(3) Cons.prems(4) by (intro stableD [OF st 1(3)] since_grows) simp
    have "wp (copy_elems mk un copy b (Suc i) xs) Q ?h2"
    proof (rule Cons.IH [where ys = ?ys and vs = vs'])
      fix h' ys' assume h': "heap_ok h'" "grows h0 h'" "grows (since (Suc b) ?h2) (since (Suc b) h')"
        "cells h' b = Some (mk ys')" "take (Suc i) ys' = take (Suc i) ?ys" "length ys' = length ?ys"
        "list_all2 (\<lambda>y v. read (since (Suc b) h') y = Some v) (drop (Suc i) ys') vs'"
      have i: "i < length ys" using Cons.prems(6) by simp
      have "ys' ! i = m'" using h'(5) i by (metis lessI nth_list_update_eq nth_take)
      then have "drop i ys' = m' # drop (Suc i) ys'" using i h'(6) by (simp add: Cons_nth_drop_Suc [symmetric])
      moreover have "take i ys' = take i ys"
        using arg_cong [OF h'(5), of "take i"] by (simp add: min_def)
      moreover have "read (since (Suc b) h') m' = Some v" by (rule stableD [OF st r2 h'(3)])
      ultimately show "Q () h'"
        using h' vs(1) grows_trans [OF grows_since [OF 1(2)], of "Suc b" "since (Suc b) h'"]
        by (intro Cons.prems(8) [of h' ys']) (simp_all add: s2)
    qed (use Cons.prems 1 g2 vs in \<open>auto simp: heap_ok_def grows_def\<close>)
    then show ?case by (simp add: wp_simps b1 un)
  qed
qed

lemma deep_copy_slice:
  fixes read :: "'c heap \<Rightarrow> 'm \<Rightarrow> 'v option"
  assumes "deep_copy read copy" and un: "\<And>ms. un (mk ms) = Some ms"
  shows "deep_copy (read_slice un read) (copy_slice mk un zero copy)"
proof
  note st = deep_copy.stable [OF assms(1)]
  show "stable (read_slice un read)" by (rule stable_slice [OF st])
  fix h :: "'c heap" and p v assume h: "heap_ok h" "read_slice un read h p = Some v"
  show "wp (copy_slice mk un zero copy p)
      (\<lambda>m' h'. heap_ok h' \<and> grows h h' \<and> read_slice un read (since (next_addr h) h') m' = Some v) h"
  proof (cases p)
    case None
    then show ?thesis using h by (simp add: wp_simps)
  next
    case (Some a)
    then obtain xs where xs: "Option.bind (cells h a) un = Some xs" "list_all2 (\<lambda>x v. read h x = Some v) xs v"
      using h(2) by (auto split: option.splits simp: those_map)
    let ?n = "next_addr h" and ?z = "replicate (length xs) zero"
    have fresh: "cells h ?n = None" using h(1) by (auto simp: heap_ok_def)
    show ?thesis
      unfolding Some copy_slice.simps wp_simps xs(1) option.case
    proof (rule wp_copy_elems [OF assms heap_ok_alloc [OF h(1)] grows_alloc [OF h(1)] fresh, where ys = ?z and vs = v], goal_cases)
      case (5 h' ys')
      have "list_all2 (\<lambda>y v. read (since ?n h') y = Some v) ys' v"
        using 5(7) by (auto elim!: list_all2_mono intro: stableD [OF st _ since_grows])
      then show ?case using 5 un by (simp add: since_def those_map)
    qed (use xs in simp_all)
  qed
qed

section \<open>Structs\<close>

text \<open>
  A struct is copied field by field.  \<open>copies n K f p g\<close>: in a memory where \<open>f\<close> reads \<open>v\<close> and the cells from
  \<open>n\<close> on satisfy \<open>K\<close> (the fields copied so far), the program \<open>p\<close> ends with a struct that \<open>g\<close> reads as \<open>v\<close> from the
  cells from \<open>n\<close> on.
\<close>

definition mono_read :: "('c heap \<Rightarrow> 'v option) \<Rightarrow> bool" where
  "mono_read f \<longleftrightarrow> (\<forall>h h' v. f h = Some v \<longrightarrow> cells h \<subseteq>\<^sub>m cells h' \<longrightarrow> f h' = Some v)"

definition mono_fact :: "('c heap \<Rightarrow> bool) \<Rightarrow> bool" where
  "mono_fact K \<longleftrightarrow> (\<forall>h h'. K h \<longrightarrow> cells h \<subseteq>\<^sub>m cells h' \<longrightarrow> K h')"

lemma mono_read_const: "mono_read (\<lambda>h. Some v)"
  by (simp add: mono_read_def)

lemma mono_read_bind:
  "mono_read f \<Longrightarrow> (\<And>x. mono_read (g x)) \<Longrightarrow> mono_read (\<lambda>h. Option.bind (f h) (\<lambda>x. g x h))"
  unfolding mono_read_def Option.bind_eq_Some_conv by blast

lemma mono_read_stable: "stable read \<Longrightarrow> mono_read (\<lambda>h. read h m)"
  unfolding mono_read_def stable_def by blast

lemma mono_fact_True: "mono_fact (\<lambda>_. True)"
  by (simp add: mono_fact_def)

lemma mono_fact_conj: "mono_fact K \<Longrightarrow> stable read \<Longrightarrow> mono_fact (\<lambda>h. K h \<and> read h m = Some v)"
  unfolding mono_fact_def stable_def by blast

definition copies :: "addr \<Rightarrow> ('c heap \<Rightarrow> bool) \<Rightarrow> ('c heap \<Rightarrow> 'v option) \<Rightarrow> ('c heap, 'm) state
    \<Rightarrow> ('m \<Rightarrow> 'c heap \<Rightarrow> 'v option) \<Rightarrow> bool" where
  "copies n K f p g \<longleftrightarrow>
     (\<forall>h v. heap_ok h \<longrightarrow> n \<le> next_addr h \<longrightarrow> K (since n h) \<longrightarrow> f h = Some v \<longrightarrow>
        wp p (\<lambda>m' h'. heap_ok h' \<and> grows h h' \<and> g m' (since n h') = Some v) h)"

lemma copies_return: "(\<And>h. K h \<Longrightarrow> g m' h = Some v) \<Longrightarrow> copies n K (\<lambda>h. Some v) (State_Monad.return m') g"
  by (auto simp: copies_def wp_simps)

lemma copies_bind:
  fixes read :: "'c heap \<Rightarrow> 'm \<Rightarrow> 'v option"
  assumes "deep_copy read copy" "\<And>x. mono_read (f x)" "mono_fact K"
    "\<And>m' x. copies n (\<lambda>h. K h \<and> read h m' = Some x) (f x) (p m') g"
  shows "copies n K (\<lambda>h. Option.bind (read h m) (\<lambda>x. f x h)) (State_Monad.bind (copy m) p) g"
  unfolding copies_def wp_bind
proof (intro allI impI)
  fix h v assume h: "heap_ok h" "n \<le> next_addr h" "K (since n h)" "Option.bind (read h m) (\<lambda>x. f x h) = Some v"
  then obtain x where x: "read h m = Some x" "f x h = Some v" by (auto simp: Option.bind_eq_Some_conv)
  show "wp (copy m) (\<lambda>a. wp (p a) (\<lambda>m' h'. heap_ok h' \<and> grows h h' \<and> g m' (since n h') = Some v)) h"
  proof (rule deep_copy.wp_copy [OF assms(1) h(1) x(1)])
    fix m' h1 assume h1: "heap_ok h1" "grows h h1" "read (since (next_addr h) h1) m' = Some x"
    have "read (since n h1) m' = Some x"
      by (rule stableD [OF deep_copy.stable [OF assms(1)] h1(3) since_grows [OF h(2)]])
    moreover have "K (since n h1)"
      using assms(3) h(3) grows_since [OF h1(2), of n] unfolding mono_fact_def grows_def by blast
    moreover have "f x h1 = Some v" using assms(2) x(2) h1(2) unfolding mono_read_def grows_def by blast
    moreover have "n \<le> next_addr h1" using h(2) h1(2) by (simp add: grows_def)
    ultimately have "wp (p m') (\<lambda>m' h'. heap_ok h' \<and> grows h1 h' \<and> g m' (since n h') = Some v) h1"
      using assms(4) h1(1) unfolding copies_def by blast
    then show "wp (p m') (\<lambda>m' h'. heap_ok h' \<and> grows h h' \<and> g m' (since n h') = Some v) h1"
      by (rule wp_mono) (blast intro: grows_trans [OF h1(2)])
  qed
qed

lemma deep_copyI:
  assumes "\<And>m. mono_read (\<lambda>h. read h m)"
    "\<And>m n. copies n (\<lambda>_. True) (\<lambda>h. read h m) (copy m) (\<lambda>m' h. read h m')"
  shows "deep_copy read copy"
proof
  show "stable read" using assms(1) unfolding mono_read_def stable_def by blast
qed (use assms(2) in \<open>simp add: copies_def\<close>)

lemma mono_fact_deep: "deep_copy read copy \<Longrightarrow> mono_fact K \<Longrightarrow> mono_fact (\<lambda>h. K h \<and> read h m = Some v)"
  by (intro mono_fact_conj deep_copy.stable)

lemma mono_read_deep: "deep_copy read copy \<Longrightarrow> mono_read (\<lambda>h. read h m)"
  by (intro mono_read_stable deep_copy.stable)

text \<open>The deep copies shown so far; a struct's is shown with the rules for its fields.\<close>

named_theorems deep_copies \<open>functions shown to be deep copies\<close>

lemmas struct_rules = mono_read_const mono_read_bind mono_fact_True copies_return

end
