(* ===== verification/DeepCopy.thy ===== *)
theory DeepCopy
  imports GoMemory ConditionList
begin

text \<open>
  The generated copies of pkg/apis/autoscalers/v1beta1/zz_generated.deepcopy.go, with the vendored ones of
  autoscaling/v2beta1 they call, on the memory of the theory GoMemory.  The records \<open>m...\<close> are the
  structs as they lie in memory, with pointers and slices; the functions \<open>read_...\<close> give the values of
  the theory ChpaTypes they stand for.  Quantities, times and label selectors are leaves: their
  library copies are taken to return an equal, independent value.

  Proved: every copy reads as its original and shares no cell with it.
\<close>

section \<open>The structs in memory\<close>

record mResourceSource =
  mrs_Name :: string
  mrs_TargetAverageUtilization :: "addr option"
  mrs_TargetAverageValue :: "addr option"

record mExternalSource =
  mes_MetricName :: string
  mes_MetricSelector :: "addr option"
  mes_TargetValue :: "addr option"
  mes_TargetAverageValue :: "addr option"

record mMetricSpec =
  mms_Type :: string
  mms_Object :: "addr option"
  mms_Pods :: "addr option"
  mms_Resource :: "addr option"
  mms_External :: "addr option"

record mResourceStatus =
  mrt_Name :: string
  mrt_CurrentAverageUtilization :: "addr option"
  mrt_CurrentAverageValue :: quantity

record mExternalStatus =
  met_MetricName :: string
  met_MetricSelector :: "addr option"
  met_CurrentValue :: quantity
  met_CurrentAverageValue :: "addr option"

record mMetricStatus =
  mmt_Type :: string
  mmt_Object :: "addr option"
  mmt_Pods :: "addr option"
  mmt_Resource :: "addr option"
  mmt_External :: "addr option"

record mCHPASpec =
  m_DownscaleForbiddenWindowSeconds :: int32
  m_UpscaleForbiddenWindowSeconds :: int32
  m_ScaleUpLimitFactor :: f64
  m_ScaleUpLimitMinimum :: int32
  m_Tolerance :: f64
  m_ScaleTargetRef :: CrossVersionObjectReference
  m_Metrics :: "addr option"
  m_MinReplicas :: "addr option"
  m_MaxReplicas :: int32

record mCHPAStatus =
  m_ObservedGeneration :: "addr option"
  m_LastScaleTime :: "addr option"
  m_CurrentReplicas :: int32
  m_DesiredReplicas :: int32
  m_CurrentMetrics :: "addr option"
  m_Conditions :: "addr option"

record mCHPA =
  m_Namespace :: string
  m_Name :: string
  m_UID :: string
  m_CreationTimestamp :: gotime
  m_Spec :: mCHPASpec
  m_Status :: mCHPAStatus

record mCHPAList =
  m_Items :: "addr option"

text \<open>What a cell can hold.\<close>

datatype cell =
    CInt32 int32
  | CInt64 int64
  | CTime gotime
  | CQuantity quantity
  | CSelector label_selector
  | CObjectSource ObjectMetricSource
  | CPodsSource PodsMetricSource
  | CResourceSource mResourceSource
  | CExternalSource mExternalSource
  | CObjectStatus ObjectMetricStatus
  | CPodsStatus PodsMetricStatus
  | CResourceStatus mResourceStatus
  | CExternalStatus mExternalStatus
  | CMetrics "mMetricSpec list"
  | CStatuses "mMetricStatus list"
  | CConditions "Condition list"
  | CReference CrossVersionObjectReference
  | CSpec mCHPASpec
  | CStatus mCHPAStatus
  | CCHPA mCHPA
  | CCHPAs "mCHPA list"
  | CCHPAList mCHPAList

definition un_Int32 :: "cell \<Rightarrow> int32 option" where
  "un_Int32 c = (case c of CInt32 x \<Rightarrow> Some x | _ \<Rightarrow> None)"

definition un_Int64 :: "cell \<Rightarrow> int64 option" where
  "un_Int64 c = (case c of CInt64 x \<Rightarrow> Some x | _ \<Rightarrow> None)"

definition un_Time :: "cell \<Rightarrow> gotime option" where
  "un_Time c = (case c of CTime x \<Rightarrow> Some x | _ \<Rightarrow> None)"

definition un_Quantity :: "cell \<Rightarrow> quantity option" where
  "un_Quantity c = (case c of CQuantity x \<Rightarrow> Some x | _ \<Rightarrow> None)"

definition un_Selector :: "cell \<Rightarrow> label_selector option" where
  "un_Selector c = (case c of CSelector x \<Rightarrow> Some x | _ \<Rightarrow> None)"

definition un_ObjectSource :: "cell \<Rightarrow> ObjectMetricSource option" where
  "un_ObjectSource c = (case c of CObjectSource x \<Rightarrow> Some x | _ \<Rightarrow> None)"

definition un_PodsSource :: "cell \<Rightarrow> PodsMetricSource option" where
  "un_PodsSource c = (case c of CPodsSource x \<Rightarrow> Some x | _ \<Rightarrow> None)"

definition un_ResourceSource :: "cell \<Rightarrow> mResourceSource option" where
  "un_ResourceSource c = (case c of CResourceSource x \<Rightarrow> Some x | _ \<Rightarrow> None)"

definition un_ExternalSource :: "cell \<Rightarrow> mExternalSource option" where
  "un_ExternalSource c = (case c of CExternalSource x \<Rightarrow> Some x | _ \<Rightarrow> None)"

definition un_ObjectStatus :: "cell \<Rightarrow> ObjectMetricStatus option" where
  "un_ObjectStatus c = (case c of CObjectStatus x \<Rightarrow> Some x | _ \<Rightarrow> None)"

definition un_PodsStatus :: "cell \<Rightarrow> PodsMetricStatus option" where
  "un_PodsStatus c = (case c of CPodsStatus x \<Rightarrow> Some x | _ \<Rightarrow> None)"

definition un_ResourceStatus :: "cell \<Rightarrow> mResourceStatus option" where
  "un_ResourceStatus c = (case c of CResourceStatus x \<Rightarrow> Some x | _ \<Rightarrow> None)"

definition un_ExternalStatus :: "cell \<Rightarrow> mExternalStatus option" where
  "un_ExternalStatus c = (case c of CExternalStatus x \<Rightarrow> Some x | _ \<Rightarrow> None)"

definition un_Metrics :: "cell \<Rightarrow> (mMetricSpec list) option" where
  "un_Metrics c = (case c of CMetrics x \<Rightarrow> Some x | _ \<Rightarrow> None)"

definition un_Statuses :: "cell \<Rightarrow> (mMetricStatus list) option" where
  "un_Statuses c = (case c of CStatuses x \<Rightarrow> Some x | _ \<Rightarrow> None)"

definition un_Conditions :: "cell \<Rightarrow> (Condition list) option" where
  "un_Conditions c = (case c of CConditions x \<Rightarrow> Some x | _ \<Rightarrow> None)"

definition un_Reference :: "cell \<Rightarrow> CrossVersionObjectReference option" where
  "un_Reference c = (case c of CReference x \<Rightarrow> Some x | _ \<Rightarrow> None)"

definition un_Spec :: "cell \<Rightarrow> mCHPASpec option" where
  "un_Spec c = (case c of CSpec x \<Rightarrow> Some x | _ \<Rightarrow> None)"

definition un_Status :: "cell \<Rightarrow> mCHPAStatus option" where
  "un_Status c = (case c of CStatus x \<Rightarrow> Some x | _ \<Rightarrow> None)"

definition un_CHPA :: "cell \<Rightarrow> mCHPA option" where
  "un_CHPA c = (case c of CCHPA x \<Rightarrow> Some x | _ \<Rightarrow> None)"

definition un_CHPAs :: "cell \<Rightarrow> (mCHPA list) option" where
  "un_CHPAs c = (case c of CCHPAs x \<Rightarrow> Some x | _ \<Rightarrow> None)"

definition un_CHPAList :: "cell \<Rightarrow> mCHPAList option" where
  "un_CHPAList c = (case c of CCHPAList x \<Rightarrow> Some x | _ \<Rightarrow> None)"

lemma un_cell [simp]:
  "un_Int32 (CInt32 x0) = Some x0"
  "un_Int64 (CInt64 x1) = Some x1"
  "un_Time (CTime x2) = Some x2"
  "un_Quantity (CQuantity x3) = Some x3"
  "un_Selector (CSelector x4) = Some x4"
  "un_ObjectSource (CObjectSource x5) = Some x5"
  "un_PodsSource (CPodsSource x6) = Some x6"
  "un_ResourceSource (CResourceSource x7) = Some x7"
  "un_ExternalSource (CExternalSource x8) = Some x8"
  "un_ObjectStatus (CObjectStatus x9) = Some x9"
  "un_PodsStatus (CPodsStatus x10) = Some x10"
  "un_ResourceStatus (CResourceStatus x11) = Some x11"
  "un_ExternalStatus (CExternalStatus x12) = Some x12"
  "un_Metrics (CMetrics x13) = Some x13"
  "un_Statuses (CStatuses x14) = Some x14"
  "un_Conditions (CConditions x15) = Some x15"
  "un_Reference (CReference x16) = Some x16"
  "un_Spec (CSpec x17) = Some x17"
  "un_Status (CStatus x18) = Some x18"
  "un_CHPA (CCHPA x19) = Some x19"
  "un_CHPAs (CCHPAs x20) = Some x20"
  "un_CHPAList (CCHPAList x21) = Some x21"
  by (simp_all add: un_Int32_def un_Int64_def un_Time_def un_Quantity_def un_Selector_def un_ObjectSource_def un_PodsSource_def un_ResourceSource_def un_ExternalSource_def un_ObjectStatus_def un_PodsStatus_def
      un_ResourceStatus_def un_ExternalStatus_def un_Metrics_def un_Statuses_def un_Conditions_def un_Reference_def un_Spec_def un_Status_def un_CHPA_def un_CHPAs_def un_CHPAList_def)

section \<open>The metrics\<close>

definition read_ResourceSource :: "cell heap \<Rightarrow> mResourceSource \<Rightarrow> ResourceMetricSource option" where
  "read_ResourceSource h m = do {
     u \<leftarrow> read_ptr un_Int32 read_plain h (mrs_TargetAverageUtilization m);
     v \<leftarrow> read_ptr un_Quantity read_plain h (mrs_TargetAverageValue m);
     Some \<lparr>rms_Name = mrs_Name m, rms_TargetAverageUtilization = u, rms_TargetAverageValue = v\<rparr>
   }"

definition ResourceMetricSource_DeepCopyInto :: "mResourceSource \<Rightarrow> (cell heap, mResourceSource) state" where
  "ResourceMetricSource_DeepCopyInto src = do {
     u \<leftarrow> copy_ptr CInt32 un_Int32 copy_plain (mrs_TargetAverageUtilization src);
     v \<leftarrow> copy_ptr CQuantity un_Quantity copy_plain (mrs_TargetAverageValue src);
     State_Monad.return (src\<lparr>mrs_TargetAverageUtilization := u, mrs_TargetAverageValue := v\<rparr>)
   }"

definition read_ExternalSource :: "cell heap \<Rightarrow> mExternalSource \<Rightarrow> ExternalMetricSource option" where
  "read_ExternalSource h m = do {
     s \<leftarrow> read_ptr un_Selector read_plain h (mes_MetricSelector m);
     v \<leftarrow> read_ptr un_Quantity read_plain h (mes_TargetValue m);
     w \<leftarrow> read_ptr un_Quantity read_plain h (mes_TargetAverageValue m);
     Some \<lparr>ems_MetricName = mes_MetricName m, ems_MetricSelector = s, ems_TargetValue = v, ems_TargetAverageValue = w\<rparr>
   }"

definition ExternalMetricSource_DeepCopyInto :: "mExternalSource \<Rightarrow> (cell heap, mExternalSource) state" where
  "ExternalMetricSource_DeepCopyInto src = do {
     s \<leftarrow> copy_ptr CSelector un_Selector copy_plain (mes_MetricSelector src);
     v \<leftarrow> copy_ptr CQuantity un_Quantity copy_plain (mes_TargetValue src);
     w \<leftarrow> copy_ptr CQuantity un_Quantity copy_plain (mes_TargetAverageValue src);
     State_Monad.return (src\<lparr>mes_MetricSelector := s, mes_TargetValue := v, mes_TargetAverageValue := w\<rparr>)
   }"

definition read_MetricSpec :: "cell heap \<Rightarrow> mMetricSpec \<Rightarrow> MetricSpec option" where
  "read_MetricSpec h m = do {
     ob \<leftarrow> read_ptr un_ObjectSource read_plain h (mms_Object m);
     p \<leftarrow> read_ptr un_PodsSource read_plain h (mms_Pods m);
     r \<leftarrow> read_ptr un_ResourceSource read_ResourceSource h (mms_Resource m);
     e \<leftarrow> read_ptr un_ExternalSource read_ExternalSource h (mms_External m);
     Some \<lparr>ms_Type = mms_Type m, ms_Object = ob, ms_Pods = p, ms_Resource = r, ms_External = e\<rparr>
   }"

definition MetricSpec_DeepCopyInto :: "mMetricSpec \<Rightarrow> (cell heap, mMetricSpec) state" where
  "MetricSpec_DeepCopyInto src = do {
     ob \<leftarrow> copy_ptr CObjectSource un_ObjectSource copy_plain (mms_Object src);
     p \<leftarrow> copy_ptr CPodsSource un_PodsSource copy_plain (mms_Pods src);
     r \<leftarrow> copy_ptr CResourceSource un_ResourceSource ResourceMetricSource_DeepCopyInto (mms_Resource src);
     e \<leftarrow> copy_ptr CExternalSource un_ExternalSource ExternalMetricSource_DeepCopyInto (mms_External src);
     State_Monad.return (src\<lparr>mms_Object := ob, mms_Pods := p, mms_Resource := r, mms_External := e\<rparr>)
   }"

definition read_ResourceStatus :: "cell heap \<Rightarrow> mResourceStatus \<Rightarrow> ResourceMetricStatus option" where
  "read_ResourceStatus h m = do {
     u \<leftarrow> read_ptr un_Int32 read_plain h (mrt_CurrentAverageUtilization m);
     Some \<lparr>rmt_Name = mrt_Name m, rmt_CurrentAverageUtilization = u, rmt_CurrentAverageValue = mrt_CurrentAverageValue m\<rparr>
   }"

definition ResourceMetricStatus_DeepCopyInto :: "mResourceStatus \<Rightarrow> (cell heap, mResourceStatus) state" where
  "ResourceMetricStatus_DeepCopyInto src = do {
     u \<leftarrow> copy_ptr CInt32 un_Int32 copy_plain (mrt_CurrentAverageUtilization src);
     State_Monad.return (src\<lparr>mrt_CurrentAverageUtilization := u\<rparr>)
   }"

definition read_ExternalStatus :: "cell heap \<Rightarrow> mExternalStatus \<Rightarrow> ExternalMetricStatus option" where
  "read_ExternalStatus h m = do {
     s \<leftarrow> read_ptr un_Selector read_plain h (met_MetricSelector m);
     w \<leftarrow> read_ptr un_Quantity read_plain h (met_CurrentAverageValue m);
     Some \<lparr>emt_MetricName = met_MetricName m, emt_MetricSelector = s, emt_CurrentValue = met_CurrentValue m,
           emt_CurrentAverageValue = w\<rparr>
   }"

definition ExternalMetricStatus_DeepCopyInto :: "mExternalStatus \<Rightarrow> (cell heap, mExternalStatus) state" where
  "ExternalMetricStatus_DeepCopyInto src = do {
     s \<leftarrow> copy_ptr CSelector un_Selector copy_plain (met_MetricSelector src);
     w \<leftarrow> copy_ptr CQuantity un_Quantity copy_plain (met_CurrentAverageValue src);
     State_Monad.return (src\<lparr>met_MetricSelector := s, met_CurrentAverageValue := w\<rparr>)
   }"

definition read_MetricStatus :: "cell heap \<Rightarrow> mMetricStatus \<Rightarrow> MetricStatus option" where
  "read_MetricStatus h m = do {
     ob \<leftarrow> read_ptr un_ObjectStatus read_plain h (mmt_Object m);
     p \<leftarrow> read_ptr un_PodsStatus read_plain h (mmt_Pods m);
     r \<leftarrow> read_ptr un_ResourceStatus read_ResourceStatus h (mmt_Resource m);
     e \<leftarrow> read_ptr un_ExternalStatus read_ExternalStatus h (mmt_External m);
     Some \<lparr>mt_Type = mmt_Type m, mt_Object = ob, mt_Pods = p, mt_Resource = r, mt_External = e\<rparr>
   }"

definition MetricStatus_DeepCopyInto :: "mMetricStatus \<Rightarrow> (cell heap, mMetricStatus) state" where
  "MetricStatus_DeepCopyInto src = do {
     ob \<leftarrow> copy_ptr CObjectStatus un_ObjectStatus copy_plain (mmt_Object src);
     p \<leftarrow> copy_ptr CPodsStatus un_PodsStatus copy_plain (mmt_Pods src);
     r \<leftarrow> copy_ptr CResourceStatus un_ResourceStatus ResourceMetricStatus_DeepCopyInto (mmt_Resource src);
     e \<leftarrow> copy_ptr CExternalStatus un_ExternalStatus ExternalMetricStatus_DeepCopyInto (mmt_External src);
     State_Monad.return (src\<lparr>mmt_Object := ob, mmt_Pods := p, mmt_Resource := r, mmt_External := e\<rparr>)
   }"

section \<open>The resource\<close>

text \<open>The zero values that \<open>make\<close> fills an array with.\<close>

definition zero_mMetricSpec :: mMetricSpec where
  "zero_mMetricSpec = \<lparr>mms_Type = [], mms_Object = None, mms_Pods = None, mms_Resource = None, mms_External = None\<rparr>"

definition zero_mMetricStatus :: mMetricStatus where
  "zero_mMetricStatus = \<lparr>mmt_Type = [], mmt_Object = None, mmt_Pods = None, mmt_Resource = None, mmt_External = None\<rparr>"

definition zero_Condition :: Condition where
  "zero_Condition = \<lparr>cond_Type = [], cond_Status = [], cond_LastTransitionTime = 0, cond_Reason = [], cond_Message = []\<rparr>"

definition read_CHPASpec :: "cell heap \<Rightarrow> mCHPASpec \<Rightarrow> CHPASpec option" where
  "read_CHPASpec h m = do {
     ms \<leftarrow> read_slice un_Metrics read_MetricSpec h (m_Metrics m);
     n \<leftarrow> read_ptr un_Int32 read_plain h (m_MinReplicas m);
     Some \<lparr>DownscaleForbiddenWindowSeconds = m_DownscaleForbiddenWindowSeconds m,
           UpscaleForbiddenWindowSeconds = m_UpscaleForbiddenWindowSeconds m,
           ScaleUpLimitFactor = m_ScaleUpLimitFactor m, ScaleUpLimitMinimum = m_ScaleUpLimitMinimum m,
           Tolerance = m_Tolerance m, ScaleTargetRef = m_ScaleTargetRef m, Metrics = ms, MinReplicas = n,
           MaxReplicas = m_MaxReplicas m\<rparr>
   }"

definition CHPASpec_DeepCopyInto :: "mCHPASpec \<Rightarrow> (cell heap, mCHPASpec) state" where
  "CHPASpec_DeepCopyInto src = do {
     ms \<leftarrow> copy_slice CMetrics un_Metrics zero_mMetricSpec MetricSpec_DeepCopyInto (m_Metrics src);
     n \<leftarrow> copy_ptr CInt32 un_Int32 copy_plain (m_MinReplicas src);
     State_Monad.return (src\<lparr>m_Metrics := ms, m_MinReplicas := n\<rparr>)
   }"

definition read_CHPAStatus :: "cell heap \<Rightarrow> mCHPAStatus \<Rightarrow> CHPAStatus option" where
  "read_CHPAStatus h m = do {
     g \<leftarrow> read_ptr un_Int64 read_plain h (m_ObservedGeneration m);
     t \<leftarrow> read_ptr un_Time read_plain h (m_LastScaleTime m);
     ms \<leftarrow> read_slice un_Statuses read_MetricStatus h (m_CurrentMetrics m);
     cs \<leftarrow> read_slice un_Conditions read_plain h (m_Conditions m);
     Some \<lparr>ObservedGeneration = g, LastScaleTime = t, CurrentReplicas = m_CurrentReplicas m,
           DesiredReplicas = m_DesiredReplicas m, CurrentMetrics = ms, Conditions = cs\<rparr>
   }"

definition CHPAStatus_DeepCopyInto :: "mCHPAStatus \<Rightarrow> (cell heap, mCHPAStatus) state" where
  "CHPAStatus_DeepCopyInto src = do {
     g \<leftarrow> copy_ptr CInt64 un_Int64 copy_plain (m_ObservedGeneration src);
     t \<leftarrow> copy_ptr CTime un_Time copy_plain (m_LastScaleTime src);
     ms \<leftarrow> copy_slice CStatuses un_Statuses zero_mMetricStatus MetricStatus_DeepCopyInto (m_CurrentMetrics src);
     cs \<leftarrow> copy_slice CConditions un_Conditions zero_Condition copy_plain (m_Conditions src);
     State_Monad.return (src\<lparr>m_ObservedGeneration := g, m_LastScaleTime := t, m_CurrentMetrics := ms, m_Conditions := cs\<rparr>)
   }"

definition read_CHPA :: "cell heap \<Rightarrow> mCHPA \<Rightarrow> CHPA option" where
  "read_CHPA h m = do {
     sp \<leftarrow> read_CHPASpec h (m_Spec m);
     st \<leftarrow> read_CHPAStatus h (m_Status m);
     Some \<lparr>chpa_Namespace = m_Namespace m, chpa_Name = m_Name m, chpa_UID = m_UID m,
           chpa_CreationTimestamp = m_CreationTimestamp m, Spec = sp, Status = st\<rparr>
   }"

definition CHPA_DeepCopyInto :: "mCHPA \<Rightarrow> (cell heap, mCHPA) state" where
  "CHPA_DeepCopyInto src = do {
     sp \<leftarrow> CHPASpec_DeepCopyInto (m_Spec src);
     st \<leftarrow> CHPAStatus_DeepCopyInto (m_Status src);
     State_Monad.return (src\<lparr>m_Spec := sp, m_Status := st\<rparr>)
   }"

definition zero_mCHPA :: mCHPA where
  "zero_mCHPA = \<lparr>m_Namespace = [], m_Name = [], m_UID = [], m_CreationTimestamp = 0,
     m_Spec = \<lparr>m_DownscaleForbiddenWindowSeconds = 0, m_UpscaleForbiddenWindowSeconds = 0,
       m_ScaleUpLimitFactor = F_Zero False, m_ScaleUpLimitMinimum = 0, m_Tolerance = F_Zero False,
       m_ScaleTargetRef = \<lparr>ref_Kind = [], ref_Name = [], ref_APIVersion = []\<rparr>, m_Metrics = None,
       m_MinReplicas = None, m_MaxReplicas = 0\<rparr>,
     m_Status = \<lparr>m_ObservedGeneration = None, m_LastScaleTime = None, m_CurrentReplicas = 0,
       m_DesiredReplicas = 0, m_CurrentMetrics = None, m_Conditions = None\<rparr>\<rparr>"

definition read_CHPAList :: "cell heap \<Rightarrow> mCHPAList \<Rightarrow> CHPA list option" where
  "read_CHPAList h m = do {
     xs \<leftarrow> read_slice un_CHPAs read_CHPA h (m_Items m);
     Some xs
   }"

definition CHPAList_DeepCopyInto :: "mCHPAList \<Rightarrow> (cell heap, mCHPAList) state" where
  "CHPAList_DeepCopyInto src = do {
     xs \<leftarrow> copy_slice CCHPAs un_CHPAs zero_mCHPA CHPA_DeepCopyInto (m_Items src);
     State_Monad.return (src\<lparr>m_Items := xs\<rparr>)
   }"

text \<open>\<open>DeepCopy\<close>: nil of nil, otherwise a new cell; \<open>DeepCopyObject\<close> returns the same pointer as an interface.\<close>

definition CHPASpec_DeepCopy :: "addr option \<Rightarrow> (cell heap, addr option) state" where
  "CHPASpec_DeepCopy = copy_ptr CSpec un_Spec CHPASpec_DeepCopyInto"

definition CHPAStatus_DeepCopy :: "addr option \<Rightarrow> (cell heap, addr option) state" where
  "CHPAStatus_DeepCopy = copy_ptr CStatus un_Status CHPAStatus_DeepCopyInto"

definition CHPA_DeepCopy :: "addr option \<Rightarrow> (cell heap, addr option) state" where
  "CHPA_DeepCopy = copy_ptr CCHPA un_CHPA CHPA_DeepCopyInto"

definition CHPAList_DeepCopy :: "addr option \<Rightarrow> (cell heap, addr option) state" where
  "CHPAList_DeepCopy = copy_ptr CCHPAList un_CHPAList CHPAList_DeepCopyInto"

definition CrossVersionObjectReference_DeepCopy :: "addr option \<Rightarrow> (cell heap, addr option) state" where
  "CrossVersionObjectReference_DeepCopy = copy_ptr CReference un_Reference copy_plain"

section \<open>They are deep copies\<close>

lemma deep_copy_leaves [deep_copies]:
  "deep_copy (read_ptr un_Int32 read_plain) (copy_ptr CInt32 un_Int32 copy_plain)"
  "deep_copy (read_ptr un_Int64 read_plain) (copy_ptr CInt64 un_Int64 copy_plain)"
  "deep_copy (read_ptr un_Time read_plain) (copy_ptr CTime un_Time copy_plain)"
  "deep_copy (read_ptr un_Quantity read_plain) (copy_ptr CQuantity un_Quantity copy_plain)"
  "deep_copy (read_ptr un_Selector read_plain) (copy_ptr CSelector un_Selector copy_plain)"
  "deep_copy (read_ptr un_ObjectSource read_plain) (copy_ptr CObjectSource un_ObjectSource copy_plain)"
  "deep_copy (read_ptr un_PodsSource read_plain) (copy_ptr CPodsSource un_PodsSource copy_plain)"
  "deep_copy (read_ptr un_ObjectStatus read_plain) (copy_ptr CObjectStatus un_ObjectStatus copy_plain)"
  "deep_copy (read_ptr un_PodsStatus read_plain) (copy_ptr CPodsStatus un_PodsStatus copy_plain)"
  "deep_copy (read_slice un_Conditions read_plain) (copy_slice CConditions un_Conditions zero_Condition copy_plain)"
  by (intro deep_copy_ptr deep_copy_slice deep_copy_plain un_cell)+

lemma deep_copy_ResourceSource [deep_copies]: "deep_copy read_ResourceSource ResourceMetricSource_DeepCopyInto"
proof (rule deep_copyI)
  show "mono_read (\<lambda>h. read_ResourceSource h m)" for m
    unfolding read_ResourceSource_def by (intro struct_rules deep_copies [THEN mono_read_deep])
  show "copies n (\<lambda>_. True) (\<lambda>h. read_ResourceSource h m) (ResourceMetricSource_DeepCopyInto m) (\<lambda>m' h. read_ResourceSource h m')" for m n
    unfolding read_ResourceSource_def [of _ m] ResourceMetricSource_DeepCopyInto_def
    by (intro deep_copies [THEN copies_bind] struct_rules deep_copies [THEN mono_read_deep]
        deep_copies [THEN mono_fact_deep]) (simp add: read_ResourceSource_def)
qed

lemma deep_copy_ExternalSource [deep_copies]: "deep_copy read_ExternalSource ExternalMetricSource_DeepCopyInto"
proof (rule deep_copyI)
  show "mono_read (\<lambda>h. read_ExternalSource h m)" for m
    unfolding read_ExternalSource_def by (intro struct_rules deep_copies [THEN mono_read_deep])
  show "copies n (\<lambda>_. True) (\<lambda>h. read_ExternalSource h m) (ExternalMetricSource_DeepCopyInto m) (\<lambda>m' h. read_ExternalSource h m')" for m n
    unfolding read_ExternalSource_def [of _ m] ExternalMetricSource_DeepCopyInto_def
    by (intro deep_copies [THEN copies_bind] struct_rules deep_copies [THEN mono_read_deep]
        deep_copies [THEN mono_fact_deep]) (simp add: read_ExternalSource_def)
qed

lemma deep_copy_ResourceStatus [deep_copies]: "deep_copy read_ResourceStatus ResourceMetricStatus_DeepCopyInto"
proof (rule deep_copyI)
  show "mono_read (\<lambda>h. read_ResourceStatus h m)" for m
    unfolding read_ResourceStatus_def by (intro struct_rules deep_copies [THEN mono_read_deep])
  show "copies n (\<lambda>_. True) (\<lambda>h. read_ResourceStatus h m) (ResourceMetricStatus_DeepCopyInto m) (\<lambda>m' h. read_ResourceStatus h m')" for m n
    unfolding read_ResourceStatus_def [of _ m] ResourceMetricStatus_DeepCopyInto_def
    by (intro deep_copies [THEN copies_bind] struct_rules deep_copies [THEN mono_read_deep]
        deep_copies [THEN mono_fact_deep]) (simp add: read_ResourceStatus_def)
qed

lemma deep_copy_ExternalStatus [deep_copies]: "deep_copy read_ExternalStatus ExternalMetricStatus_DeepCopyInto"
proof (rule deep_copyI)
  show "mono_read (\<lambda>h. read_ExternalStatus h m)" for m
    unfolding read_ExternalStatus_def by (intro struct_rules deep_copies [THEN mono_read_deep])
  show "copies n (\<lambda>_. True) (\<lambda>h. read_ExternalStatus h m) (ExternalMetricStatus_DeepCopyInto m) (\<lambda>m' h. read_ExternalStatus h m')" for m n
    unfolding read_ExternalStatus_def [of _ m] ExternalMetricStatus_DeepCopyInto_def
    by (intro deep_copies [THEN copies_bind] struct_rules deep_copies [THEN mono_read_deep]
        deep_copies [THEN mono_fact_deep]) (simp add: read_ExternalStatus_def)
qed

lemma deep_copy_sources [deep_copies]:
  "deep_copy (read_ptr un_ResourceSource read_ResourceSource) (copy_ptr CResourceSource un_ResourceSource ResourceMetricSource_DeepCopyInto)"
  "deep_copy (read_ptr un_ExternalSource read_ExternalSource) (copy_ptr CExternalSource un_ExternalSource ExternalMetricSource_DeepCopyInto)"
  "deep_copy (read_ptr un_ResourceStatus read_ResourceStatus) (copy_ptr CResourceStatus un_ResourceStatus ResourceMetricStatus_DeepCopyInto)"
  "deep_copy (read_ptr un_ExternalStatus read_ExternalStatus) (copy_ptr CExternalStatus un_ExternalStatus ExternalMetricStatus_DeepCopyInto)"
  by (intro deep_copy_ptr deep_copy_slice deep_copies un_cell)+

lemma deep_copy_MetricSpec [deep_copies]: "deep_copy read_MetricSpec MetricSpec_DeepCopyInto"
proof (rule deep_copyI)
  show "mono_read (\<lambda>h. read_MetricSpec h m)" for m
    unfolding read_MetricSpec_def by (intro struct_rules deep_copies [THEN mono_read_deep])
  show "copies n (\<lambda>_. True) (\<lambda>h. read_MetricSpec h m) (MetricSpec_DeepCopyInto m) (\<lambda>m' h. read_MetricSpec h m')" for m n
    unfolding read_MetricSpec_def [of _ m] MetricSpec_DeepCopyInto_def
    by (intro deep_copies [THEN copies_bind] struct_rules deep_copies [THEN mono_read_deep]
        deep_copies [THEN mono_fact_deep]) (simp add: read_MetricSpec_def)
qed

lemma deep_copy_MetricStatus [deep_copies]: "deep_copy read_MetricStatus MetricStatus_DeepCopyInto"
proof (rule deep_copyI)
  show "mono_read (\<lambda>h. read_MetricStatus h m)" for m
    unfolding read_MetricStatus_def by (intro struct_rules deep_copies [THEN mono_read_deep])
  show "copies n (\<lambda>_. True) (\<lambda>h. read_MetricStatus h m) (MetricStatus_DeepCopyInto m) (\<lambda>m' h. read_MetricStatus h m')" for m n
    unfolding read_MetricStatus_def [of _ m] MetricStatus_DeepCopyInto_def
    by (intro deep_copies [THEN copies_bind] struct_rules deep_copies [THEN mono_read_deep]
        deep_copies [THEN mono_fact_deep]) (simp add: read_MetricStatus_def)
qed

lemma deep_copy_metrics [deep_copies]:
  "deep_copy (read_slice un_Metrics read_MetricSpec) (copy_slice CMetrics un_Metrics zero_mMetricSpec MetricSpec_DeepCopyInto)"
  "deep_copy (read_slice un_Statuses read_MetricStatus) (copy_slice CStatuses un_Statuses zero_mMetricStatus MetricStatus_DeepCopyInto)"
  by (intro deep_copy_ptr deep_copy_slice deep_copies un_cell)+

lemma deep_copy_CHPASpec [deep_copies]: "deep_copy read_CHPASpec CHPASpec_DeepCopyInto"
proof (rule deep_copyI)
  show "mono_read (\<lambda>h. read_CHPASpec h m)" for m
    unfolding read_CHPASpec_def by (intro struct_rules deep_copies [THEN mono_read_deep])
  show "copies n (\<lambda>_. True) (\<lambda>h. read_CHPASpec h m) (CHPASpec_DeepCopyInto m) (\<lambda>m' h. read_CHPASpec h m')" for m n
    unfolding read_CHPASpec_def [of _ m] CHPASpec_DeepCopyInto_def
    by (intro deep_copies [THEN copies_bind] struct_rules deep_copies [THEN mono_read_deep]
        deep_copies [THEN mono_fact_deep]) (simp add: read_CHPASpec_def)
qed

lemma deep_copy_CHPAStatus [deep_copies]: "deep_copy read_CHPAStatus CHPAStatus_DeepCopyInto"
proof (rule deep_copyI)
  show "mono_read (\<lambda>h. read_CHPAStatus h m)" for m
    unfolding read_CHPAStatus_def by (intro struct_rules deep_copies [THEN mono_read_deep])
  show "copies n (\<lambda>_. True) (\<lambda>h. read_CHPAStatus h m) (CHPAStatus_DeepCopyInto m) (\<lambda>m' h. read_CHPAStatus h m')" for m n
    unfolding read_CHPAStatus_def [of _ m] CHPAStatus_DeepCopyInto_def
    by (intro deep_copies [THEN copies_bind] struct_rules deep_copies [THEN mono_read_deep]
        deep_copies [THEN mono_fact_deep]) (simp add: read_CHPAStatus_def)
qed

lemma deep_copy_CHPA [deep_copies]: "deep_copy read_CHPA CHPA_DeepCopyInto"
proof (rule deep_copyI)
  show "mono_read (\<lambda>h. read_CHPA h m)" for m
    unfolding read_CHPA_def by (intro struct_rules deep_copies [THEN mono_read_deep])
  show "copies n (\<lambda>_. True) (\<lambda>h. read_CHPA h m) (CHPA_DeepCopyInto m) (\<lambda>m' h. read_CHPA h m')" for m n
    unfolding read_CHPA_def [of _ m] CHPA_DeepCopyInto_def
    by (intro deep_copies [THEN copies_bind] struct_rules deep_copies [THEN mono_read_deep]
        deep_copies [THEN mono_fact_deep]) (simp add: read_CHPA_def)
qed

lemma deep_copy_CHPAs [deep_copies]:
  "deep_copy (read_slice un_CHPAs read_CHPA) (copy_slice CCHPAs un_CHPAs zero_mCHPA CHPA_DeepCopyInto)"
  by (intro deep_copy_ptr deep_copy_slice deep_copies un_cell)+

lemma deep_copy_CHPAList [deep_copies]: "deep_copy read_CHPAList CHPAList_DeepCopyInto"
proof (rule deep_copyI)
  show "mono_read (\<lambda>h. read_CHPAList h m)" for m
    unfolding read_CHPAList_def by (intro struct_rules deep_copies [THEN mono_read_deep])
  show "copies n (\<lambda>_. True) (\<lambda>h. read_CHPAList h m) (CHPAList_DeepCopyInto m) (\<lambda>m' h. read_CHPAList h m')" for m n
    unfolding read_CHPAList_def [of _ m] CHPAList_DeepCopyInto_def
    by (intro deep_copies [THEN copies_bind] struct_rules deep_copies [THEN mono_read_deep]
        deep_copies [THEN mono_fact_deep]) (simp add: read_CHPAList_def)
qed

interpretation status_copy: deep_copy read_CHPAStatus CHPAStatus_DeepCopyInto
  by (rule deep_copy_CHPAStatus)

interpretation spec_pointer: deep_copy "read_ptr un_Spec read_CHPASpec" CHPASpec_DeepCopy
  unfolding CHPASpec_DeepCopy_def by (intro deep_copy_ptr deep_copy_CHPASpec un_cell)

interpretation status_pointer: deep_copy "read_ptr un_Status read_CHPAStatus" CHPAStatus_DeepCopy
  unfolding CHPAStatus_DeepCopy_def by (intro deep_copy_ptr deep_copy_CHPAStatus un_cell)

interpretation chpa_pointer: deep_copy "read_ptr un_CHPA read_CHPA" CHPA_DeepCopy
  unfolding CHPA_DeepCopy_def by (intro deep_copy_ptr deep_copy_CHPA un_cell)

interpretation list_pointer: deep_copy "read_ptr un_CHPAList read_CHPAList" CHPAList_DeepCopy
  unfolding CHPAList_DeepCopy_def by (intro deep_copy_ptr deep_copy_CHPAList un_cell)

interpretation reference_pointer: deep_copy "read_ptr un_Reference read_plain" CrossVersionObjectReference_DeepCopy
  unfolding CrossVersionObjectReference_DeepCopy_def by (intro deep_copy_ptr deep_copy_plain un_cell)

section \<open>Properties\<close>

text \<open>C23. A deep copy of a CHPA is nil for nil and otherwise reads as the original; whatever is later done to the cells
  of one, or to cells allocated later, the other reads as before.\<close>

theorem CHPA_DeepCopy_independent:
  assumes "heap_ok h" "read_ptr un_CHPA read_CHPA h p = Some v" "run_state (CHPA_DeepCopy p) h = (q, h')"
  shows "read_ptr un_CHPA read_CHPA h' q = Some v \<and> read_ptr un_CHPA read_CHPA h' p = Some v \<and>
     (\<forall>h2. (\<forall>a. next_addr h \<le> a \<longrightarrow> cells h2 a = cells h' a) \<longrightarrow> read_ptr un_CHPA read_CHPA h2 q = Some v) \<and>
     (\<forall>h2. (\<forall>a. a < next_addr h \<longrightarrow> cells h2 a = cells h' a) \<longrightarrow> read_ptr un_CHPA read_CHPA h2 p = Some v)"
  using chpa_pointer.independent [OF assms] by blast

theorem CHPA_DeepCopy_independent_witness:
  "\<exists>q h'. run_state (CHPA_DeepCopy (Some 0)) \<lparr>cells = [0 \<mapsto> CCHPA zero_mCHPA], next_addr = 1\<rparr> = (q, h') \<and>
     read_ptr un_CHPA read_CHPA h' q \<noteq> None \<and> read_ptr un_CHPA read_CHPA (h'\<lparr>cells := (cells h')(0 := None)\<rparr>) q \<noteq> None"
proof -
  let ?h = "\<lparr>cells = [0 \<mapsto> CCHPA zero_mCHPA], next_addr = 1\<rparr>"
  have ok: "heap_ok ?h" by (auto simp: heap_ok_def)
  obtain v where v: "read_ptr un_CHPA read_CHPA ?h (Some 0) = Some (Some v)"
    by (simp add: read_CHPA_def read_CHPASpec_def read_CHPAStatus_def zero_mCHPA_def)
  obtain q h' where r: "run_state (CHPA_DeepCopy (Some 0)) ?h = (q, h')" by (metis surj_pair)
  from CHPA_DeepCopy_independent [OF ok v r] show ?thesis
    using r by (intro exI [of _ q] exI [of _ h']) simp
qed

end
