(* ===== verification/SavedStatus.thy ===== *)
theory SavedStatus
  imports DeepCopy
begin

text \<open>
  Why \<open>reconcileCHPA\<close> saves the status with \<open>chpa.Status.DeepCopy()\<close> before it works on it:
  \<open>setConditionInList\<close> of chpa_controller.go writes through a pointer into the array of conditions.
  The operation is given here on the memory of the theory GoMemory and shown to be the one on lists of
  the theory ConditionList; the saved status is not affected by it, a plain assignment would be.
\<close>

section \<open>Conditions set in place\<close>

text \<open>
  \<open>setConditionInList\<close> on the slice in memory: the loop takes the address of the element it finds and the
  assignments go through it, so the array is changed where it lies; \<open>append\<close> moves the list to a new
  array first.  \<open>now\<close> is what the clock returns.
\<close>

definition load_slice :: "('c \<Rightarrow> 'm list option) \<Rightarrow> addr option \<Rightarrow> ('c heap, 'm list) state" where
  "load_slice un p = (case p of
       None \<Rightarrow> State_Monad.return []
     | Some a \<Rightarrow> do {
         c \<leftarrow> load a;
         State_Monad.return (case Option.bind c un of None \<Rightarrow> [] | Some xs \<Rightarrow> xs)
       })"

definition setConditionInList_mem ::
  "gotime \<Rightarrow> addr option \<Rightarrow> string \<Rightarrow> string \<Rightarrow> string \<Rightarrow> string \<Rightarrow> (cell heap, addr option) state" where
  "setConditionInList_mem now inputList conditionType status reason message = do {
     conditions \<leftarrow> load_slice un_Conditions inputList;
     (resList, i, cs) \<leftarrow> (case find_condition conditions conditionType of
          Some i \<Rightarrow> State_Monad.return (inputList, i, conditions)
        | None \<Rightarrow> do {
            let cs = conditions @ [zero_Condition\<lparr>cond_Type := conditionType\<rparr>];
            b \<leftarrow> alloc (CConditions cs);
            State_Monad.return (Some b, length conditions, cs)
          });
     let existingCond = cs ! i;
     let t = (if cond_Status existingCond \<noteq> status then now else cond_LastTransitionTime existingCond);
     store (the resList) (CConditions (cs[i := existingCond\<lparr>cond_LastTransitionTime := t, cond_Status := status,
                                              cond_Reason := reason, cond_Message := message\<rparr>]));
     State_Monad.return resList
   }"

lemma those_plain [simp]: "those (map (read_plain h) xs) = Some xs"
  by (simp add: those_map read_plain_def list_all2_refl)

lemma un_Conditions_Some: "un_Conditions c = Some cs \<longleftrightarrow> c = CConditions cs"
  by (cases c) (auto simp: un_Conditions_def)

lemma wp_load_slice:
  "read_slice un read_plain h p = Some xs \<Longrightarrow> wp (load_slice un p) Q h = Q xs h"
  by (cases p) (auto simp: load_slice_def wp_simps split: option.splits)

text \<open>In memory the operation is the one on lists; only the array it returns is written.\<close>

lemma wp_setConditionInList_mem:
  assumes "read_slice un_Conditions read_plain h p = Some cs"
    "\<And>a h'. cells h' a = Some (CConditions (fst (run_state (setConditionInList (State_Monad.return now) cs t st r msg) ()))) \<Longrightarrow>
       (\<And>b. b \<noteq> a \<Longrightarrow> cells h' b = cells h b) \<Longrightarrow> next_addr h \<le> next_addr h' \<Longrightarrow>
       (if find_condition cs t = None then a = next_addr h else p = Some a) \<Longrightarrow> Q (Some a) h'"
  shows "wp (setConditionInList_mem now p t st r msg) Q h"
proof (cases "find_condition cs t")
  case None
  show ?thesis
    unfolding setConditionInList_mem_def wp_bind wp_load_slice [OF assms(1)]
    by (cases "st = []"; simp add: None wp_simps Let_def zero_Condition_def; rule assms(2);
        simp add: None setConditionInList_def)
next
  case (Some i)
  then obtain a where a: "p = Some a" using assms(1) by (cases p) auto
  show ?thesis
    unfolding setConditionInList_mem_def wp_bind wp_load_slice [OF assms(1)]
    by (cases "cond_Status (cs ! i) = st"; simp add: Some a wp_simps Let_def; rule assms(2);
        simp add: Some a setConditionInList_def)
qed

section \<open>The saved status\<close>

text \<open>Memories that differ in arrays of conditions only: everything else reads the same.\<close>

definition but_conditions :: "cell heap \<Rightarrow> cell heap \<Rightarrow> bool" where
  "but_conditions h h' \<longleftrightarrow> (\<forall>a c. cells h a = Some c \<longrightarrow> un_Conditions c = None \<longrightarrow> cells h' a = Some c)"

definition undisturbed :: "(cell heap \<Rightarrow> 'm \<Rightarrow> 'v option) \<Rightarrow> bool" where
  "undisturbed read \<longleftrightarrow> (\<forall>h h' m v. but_conditions h h' \<longrightarrow> read h m = Some v \<longrightarrow> read h' m = Some v)"

lemma undisturbedI: "(\<And>h h' m v. but_conditions h h' \<Longrightarrow> read h m = Some v \<Longrightarrow> read h' m = Some v) \<Longrightarrow> undisturbed read"
  unfolding undisturbed_def by blast

lemma undisturbedD: "undisturbed read \<Longrightarrow> but_conditions h h' \<Longrightarrow> read h m = Some v \<Longrightarrow> read h' m = Some v"
  unfolding undisturbed_def by blast

text \<open>A projection that holds of no array of conditions.\<close>

definition off_conditions :: "(cell \<Rightarrow> 'm option) \<Rightarrow> bool" where
  "off_conditions un \<longleftrightarrow> (\<forall>cs. un (CConditions cs) = None)"

lemma off_conditions_cells [simp]:
  "off_conditions un_Int32" "off_conditions un_Int64" "off_conditions un_Time" "off_conditions un_Quantity"
  "off_conditions un_Selector" "off_conditions un_ObjectStatus" "off_conditions un_PodsStatus"
  "off_conditions un_ResourceStatus" "off_conditions un_ExternalStatus" "off_conditions un_Statuses"
  by (simp_all add: off_conditions_def un_Int32_def un_Int64_def un_Time_def un_Quantity_def un_Selector_def
      un_ObjectStatus_def un_PodsStatus_def un_ResourceStatus_def un_ExternalStatus_def un_Statuses_def)

lemma bind_undisturbed:
  assumes "off_conditions un" "but_conditions h h'" "Option.bind (cells h a) un = Some x"
  shows "Option.bind (cells h' a) un = Some x"
proof -
  obtain c where c: "cells h a = Some c" "un c = Some x" using assms(3) by (cases "cells h a") auto
  have "un_Conditions c = None" using assms(1) c(2) by (cases c) (auto simp: off_conditions_def un_Conditions_def)
  then have "cells h' a = Some c" using assms(2) c(1) by (simp add: but_conditions_def)
  then show ?thesis using c(2) by simp
qed

lemma undisturbed_plain: "undisturbed read_plain"
  by (simp add: undisturbed_def read_plain_def)

lemma undisturbed_ptr:
  assumes "undisturbed read" "off_conditions un"
  shows "undisturbed (read_ptr un read)"
proof (rule undisturbedI)
  fix h h' p v assume h: "but_conditions h h'" "read_ptr un read h p = Some v"
  show "read_ptr un read h' p = Some v"
  proof (cases p)
    case (Some a)
    then obtain m x where m: "Option.bind (cells h a) un = Some m" "read h m = Some x" "v = Some x"
      using h(2) by (auto split: option.splits)
    then show ?thesis
      using Some bind_undisturbed [OF assms(2) h(1) m(1)] undisturbedD [OF assms(1) h(1) m(2)] by simp
  qed (use h in simp)
qed

lemma undisturbed_slice:
  assumes "undisturbed read" "off_conditions un"
  shows "undisturbed (read_slice un read)"
proof (rule undisturbedI)
  fix h h' p v assume h: "but_conditions h h'" "read_slice un read h p = Some v"
  show "read_slice un read h' p = Some v"
  proof (cases p)
    case (Some a)
    then obtain xs where xs: "Option.bind (cells h a) un = Some xs" "list_all2 (\<lambda>x v. read h x = Some v) xs v"
      using h(2) by (auto split: option.splits simp: those_map)
    have "list_all2 (\<lambda>x v. read h' x = Some v) xs v"
      using xs(2) undisturbedD [OF assms(1) h(1)] by (auto elim: list_all2_mono)
    then show ?thesis using Some bind_undisturbed [OF assms(2) h(1) xs(1)] by (simp add: those_map)
  qed (use h in simp)
qed

lemma undisturbed_ResourceStatus: "undisturbed read_ResourceStatus"
  using undisturbed_ptr [OF undisturbed_plain off_conditions_cells(1)]
  unfolding undisturbed_def read_ResourceStatus_def Option.bind_eq_Some_conv by blast

lemma undisturbed_ExternalStatus: "undisturbed read_ExternalStatus"
  using undisturbed_ptr [OF undisturbed_plain off_conditions_cells(4)]
    undisturbed_ptr [OF undisturbed_plain off_conditions_cells(5)]
  unfolding undisturbed_def read_ExternalStatus_def Option.bind_eq_Some_conv by blast

lemma undisturbed_MetricStatus: "undisturbed read_MetricStatus"
  using undisturbed_ptr [OF undisturbed_plain off_conditions_cells(6)]
    undisturbed_ptr [OF undisturbed_plain off_conditions_cells(7)]
    undisturbed_ptr [OF undisturbed_ResourceStatus off_conditions_cells(8)]
    undisturbed_ptr [OF undisturbed_ExternalStatus off_conditions_cells(9)]
  unfolding undisturbed_def read_MetricStatus_def Option.bind_eq_Some_conv by blast

text \<open>The status with other conditions.\<close>

lemma read_status_conditions:
  assumes "read_CHPAStatus h m = Some s" "but_conditions h h'" "read_slice un_Conditions read_plain h' p = Some cs"
  shows "read_CHPAStatus h' (m\<lparr>m_Conditions := p\<rparr>) = Some (s\<lparr>Conditions := cs\<rparr>)"
proof -
  obtain g t ms cs0 where r: "read_ptr un_Int64 read_plain h (m_ObservedGeneration m) = Some g"
    "read_ptr un_Time read_plain h (m_LastScaleTime m) = Some t"
    "read_slice un_Statuses read_MetricStatus h (m_CurrentMetrics m) = Some ms"
    "s = \<lparr>ObservedGeneration = g, LastScaleTime = t, CurrentReplicas = m_CurrentReplicas m,
           DesiredReplicas = m_DesiredReplicas m, CurrentMetrics = ms, Conditions = cs0\<rparr>"
    using assms(1) unfolding read_CHPAStatus_def Option.bind_eq_Some_conv by blast
  have "read_ptr un_Int64 read_plain h' (m_ObservedGeneration m) = Some g"
    "read_ptr un_Time read_plain h' (m_LastScaleTime m) = Some t"
    "read_slice un_Statuses read_MetricStatus h' (m_CurrentMetrics m) = Some ms"
    using undisturbedD [OF undisturbed_ptr [OF undisturbed_plain off_conditions_cells(2)] assms(2) r(1)]
      undisturbedD [OF undisturbed_ptr [OF undisturbed_plain off_conditions_cells(3)] assms(2) r(2)]
      undisturbedD [OF undisturbed_slice [OF undisturbed_MetricStatus off_conditions_cells(10)] assms(2) r(3)] .
  then show ?thesis using assms(3) by (simp add: read_CHPAStatus_def r(4))
qed

lemma wp_saved_status:
  assumes h: "heap_ok h" and m: "read_CHPAStatus h m = Some s"
    and cs': "cs' = fst (run_state (setConditionInList (State_Monad.return now) (Conditions s) t st r msg) ())"
  shows "wp (do { b \<leftarrow> new_copy CStatus CHPAStatus_DeepCopyInto m;
                  p \<leftarrow> setConditionInList_mem now (m_Conditions m) t st r msg;
                  State_Monad.return (b, p) })
          (\<lambda>(b, p) h'. read_ptr un_Status read_CHPAStatus h' (Some b) = Some (Some s) \<and>
             read_CHPAStatus h' (m\<lparr>m_Conditions := p\<rparr>) = Some (s\<lparr>Conditions := cs'\<rparr>) \<and>
             (find_condition (Conditions s) t \<noteq> None \<longrightarrow> p = m_Conditions m)) h"
  unfolding wp_bind
proof (rule wp_new_copy [OF deep_copy_CHPAStatus h m])
  fix m1 h1 assume h1: "heap_ok h1" "grows h h1" "cells h1 (next_addr h) = Some (CStatus m1)"
    "read_CHPAStatus (since (next_addr h) h1) m1 = Some s"
  have conds: "read_slice un_Conditions read_plain h (m_Conditions m) = Some (Conditions s)"
    using m unfolding read_CHPAStatus_def Option.bind_eq_Some_conv by auto
  have conds1: "read_slice un_Conditions read_plain h1 (m_Conditions m) = Some (Conditions s)"
    by (rule stableD [OF stable_slice [OF deep_copy.stable [OF deep_copy_plain]] conds h1(2)])
  show "wp (setConditionInList_mem now (m_Conditions m) t st r msg)
     (\<lambda>p. wp (State_Monad.return (next_addr h, p)) (\<lambda>(b, p) h'. read_ptr un_Status read_CHPAStatus h' (Some b) = Some (Some s) \<and>
        read_CHPAStatus h' (m\<lparr>m_Conditions := p\<rparr>) = Some (s\<lparr>Conditions := cs'\<rparr>) \<and>
        (find_condition (Conditions s) t \<noteq> None \<longrightarrow> p = m_Conditions m))) h1"
  proof (rule wp_setConditionInList_mem [OF conds1])
    fix a and h2 :: "cell heap"
    assume h2: "cells h2 a = Some (CConditions (fst (run_state (setConditionInList (State_Monad.return now) (Conditions s) t st r msg) ())))"
      "\<And>b. b \<noteq> a \<Longrightarrow> cells h2 b = cells h1 b" "next_addr h1 \<le> next_addr h2"
      and a: "if find_condition (Conditions s) t = None then a = next_addr h1 else m_Conditions m = Some a"
    have old: "cells h a = None \<and> a = next_addr h1 \<or> cells h a = Some (CConditions (Conditions s)) \<and> a < next_addr h"
    proof (cases "find_condition (Conditions s) t = None")
      case True
      then show ?thesis using a h h1(2) by (auto simp: heap_ok_def grows_def)
    next
      case False
      then have "Option.bind (cells h a) un_Conditions = Some (Conditions s)"
        using a conds by (auto split: option.splits)
      then show ?thesis using h by (cases "cells h a") (auto simp: un_Conditions_Some heap_ok_def)
    qed
    have le: "cells h1 b = Some c" if "cells h b = Some c" for b c
      using h1(2) that by (auto simp: grows_def map_le_def dom_def)
    have "but_conditions h h2"
      unfolding but_conditions_def
    proof (intro allI impI)
      fix b c assume b: "cells h b = Some c" "un_Conditions c = None"
      then have "b \<noteq> a" using old by auto
      then show "cells h2 b = Some c" using h2(2) le [OF b(1)] by simp
    qed
    moreover have "read_slice un_Conditions read_plain h2 (Some a) = Some cs'" by (simp add: h2(1) cs')
    ultimately have live: "read_CHPAStatus h2 (m\<lparr>m_Conditions := Some a\<rparr>) = Some (s\<lparr>Conditions := cs'\<rparr>)"
      by (rule read_status_conditions [OF m])
    have ne: "cells h1 b = cells h2 b" if "cells h1 b \<noteq> None" "next_addr h \<le> b" for b
    proof -
      have "b \<noteq> a" using old that h1(1) by (auto simp: heap_ok_def)
      then show ?thesis using h2(2) by simp
    qed
    then have "cells (since (next_addr h) h1) \<subseteq>\<^sub>m cells h2"
      by (auto simp: since_def map_le_def restrict_map_def)
    then have "read_CHPAStatus h2 m1 = Some s"
      using deep_copy.stable [OF deep_copy_CHPAStatus] h1(4) unfolding stable_def by blast
    moreover have "cells h2 (next_addr h) = Some (CStatus m1)" using ne [of "next_addr h"] h1(3) by simp
    ultimately show "wp (State_Monad.return (next_addr h, Some a)) (\<lambda>(b, p) h'. read_ptr un_Status read_CHPAStatus h' (Some b) = Some (Some s) \<and>
        read_CHPAStatus h' (m\<lparr>m_Conditions := p\<rparr>) = Some (s\<lparr>Conditions := cs'\<rparr>) \<and>
        (find_condition (Conditions s) t \<noteq> None \<longrightarrow> p = m_Conditions m)) h2"
      using live a by (auto simp: wp_return)
  qed
qed

section \<open>Property\<close>

text \<open>C21. The status saved with \<open>chpa.Status.DeepCopy()\<close> stays what it was when a condition is then set in place, while
  the live status changes as \<open>setConditionInList\<close> says.  A plain assignment would not have saved it: when
  the condition was there already, the old struct reads the new conditions.\<close>

theorem saved_status_survives:
  assumes "heap_ok h" "read_CHPAStatus h m = Some s"
    "run_state (new_copy CStatus CHPAStatus_DeepCopyInto m) h = (b, h1)"
    "run_state (setConditionInList_mem now (m_Conditions m) t st r msg) h1 = (p, h2)"
  shows "read_ptr un_Status read_CHPAStatus h2 (Some b) = Some (Some s) \<and>
     (\<exists>cs. cs = fst (run_state (setConditionInList (State_Monad.return now) (Conditions s) t st r msg) ()) \<and>
        read_CHPAStatus h2 (m\<lparr>m_Conditions := p\<rparr>) = Some (s\<lparr>Conditions := cs\<rparr>) \<and>
        (t \<in> cond_Type ` set (Conditions s) \<longrightarrow> read_CHPAStatus h2 m = Some (s\<lparr>Conditions := cs\<rparr>)))"
  using wp_saved_status [OF assms(1,2) refl, of now t st r msg] assms(3,4)
  by (auto simp: wp_def find_condition_None)

theorem saved_status_survives_witness:
  "\<exists>b h1 p h2. run_state (new_copy CStatus CHPAStatus_DeepCopyInto ((m_Status zero_mCHPA)\<lparr>m_Conditions := Some 0\<rparr>))
       \<lparr>cells = [0 \<mapsto> CConditions [zero_Condition]], next_addr = 1\<rparr> = (b, h1) \<and>
     run_state (setConditionInList_mem 5 (Some 0) [] ''True'' [] []) h1 = (p, h2) \<and>
     map_option (map_option Conditions) (read_ptr un_Status read_CHPAStatus h2 (Some b)) = Some (Some [zero_Condition])"
proof -
  let ?h = "\<lparr>cells = [0 \<mapsto> CConditions [zero_Condition]], next_addr = 1\<rparr>"
  let ?m = "(m_Status zero_mCHPA)\<lparr>m_Conditions := Some 0\<rparr>"
  have ok: "heap_ok ?h" by (auto simp: heap_ok_def)
  obtain s where s: "read_CHPAStatus ?h ?m = Some s" "Conditions s = [zero_Condition]"
    by (simp add: read_CHPAStatus_def zero_mCHPA_def read_plain_def)
  obtain b h1 where 1: "run_state (new_copy CStatus CHPAStatus_DeepCopyInto ?m) ?h = (b, h1)" by (metis surj_pair)
  obtain p h2 where 2: "run_state (setConditionInList_mem 5 (m_Conditions ?m) [] ''True'' [] []) h1 = (p, h2)" by (metis surj_pair)
  from saved_status_survives [OF ok s(1) 1 2] show ?thesis
    using 1 2 s(2) by (intro exI [of _ b] exI [of _ h1] exI [of _ p] exI [of _ h2]) simp
qed

end
