(* ===== verification/ChpaTools.thy ===== *)
theory ChpaTools
  imports ChpaTypes
begin

text \<open>
  The \<open>String\<close> methods of pkg/apis/autoscalers/v1beta1/chpa_tools.go, which the log lines are made of.  How
  the library prints a float, a time and a list of metrics under \<open>%v\<close> is a parameter; a string is
  printed as it is, an integer in decimal.

  Proved: the printed status can be read back; whatever the time looks like, the two counts and the
  time are where \<open>read_status\<close> looks for them.
\<close>

record formats =
  fmt_float :: "f64 \<Rightarrow> string"
  fmt_time :: "gotime \<Rightarrow> string"
  fmt_metrics :: "MetricSpec list \<Rightarrow> string"

definition fmt_int32 :: "int32 \<Rightarrow> string" where
  "fmt_int32 n = itoa (sint n)"

definition CHPASpec_String :: "formats \<Rightarrow> CHPASpec \<Rightarrow> string" where
  "CHPASpec_String f s =
    (let minReplicas = (case MinReplicas s of None \<Rightarrow> ''<nil>'' | Some n \<Rightarrow> fmt_int32 n)
     in ''{Ref:'' @ ref_Kind (ScaleTargetRef s) @ ''/'' @ ref_Name (ScaleTargetRef s)
        @ '' DFWS:'' @ fmt_int32 (DownscaleForbiddenWindowSeconds s)
        @ '' UFWS:'' @ fmt_int32 (UpscaleForbiddenWindowSeconds s)
        @ '' SULF:'' @ fmt_float f (ScaleUpLimitFactor s)
        @ '' SULM:'' @ fmt_int32 (ScaleUpLimitMinimum s)
        @ '' T:'' @ fmt_float f (Tolerance s)
        @ '' MinR:'' @ minReplicas
        @ '' MaxR:'' @ fmt_int32 (MaxReplicas s)
        @ '' M:'' @ fmt_metrics f (Metrics s) @ ''}'')"

definition CHPAStatus_String :: "formats \<Rightarrow> CHPAStatus \<Rightarrow> string" where
  "CHPAStatus_String f s =
    (let lastScaleTime = (case LastScaleTime s of None \<Rightarrow> ''<nil>'' | Some t \<Rightarrow> fmt_time f t)
     in ''{LST:'' @ lastScaleTime @ '' CR:'' @ fmt_int32 (CurrentReplicas s)
        @ '' DR:'' @ fmt_int32 (DesiredReplicas s) @ ''}'')"

definition CHPA_String :: "formats \<Rightarrow> CHPA \<Rightarrow> string" where
  "CHPA_String f c = ''Spec:'' @ CHPASpec_String f (Spec c) @ '' Status:'' @ CHPAStatus_String f (Status c)"

section \<open>Reading decimals\<close>

definition digit_value :: "char \<Rightarrow> nat" where
  "digit_value c = of_char c - 48"

definition atoi :: "string \<Rightarrow> int" where
  "atoi s = (case s of
     [] \<Rightarrow> 0
   | c # cs \<Rightarrow> if c = CHR ''-'' then - int (foldl (\<lambda>n d. 10 * n + digit_value d) 0 cs)
              else int (foldl (\<lambda>n d. 10 * n + digit_value d) 0 s))"

lemma digit_value_digit: "n < 10 \<Longrightarrow> digit_value (char_of (n + 48)) = n"
  by (simp add: digit_value_def of_char_of)

lemma foldl_digits: "foldl (\<lambda>n d. 10 * n + digit_value d) 0 (digits n) = n"
proof (induction n rule: digits.induct)
  case (1 n)
  show ?case
  proof (cases "n < 10")
    case False
    then show ?thesis
      using 1 [OF False] digit_value_digit [of "n mod 10"] by (simp add: digits.simps [of n])
  qed (simp add: digits.simps [of n] digit_value_digit)
qed

lemma digits_chars: "c \<in> set (digits n) \<Longrightarrow> 48 \<le> (of_char c :: nat) \<and> (of_char c :: nat) < 58"
proof (induction n rule: digits.induct)
  case (1 n)
  have "(of_char (char_of (k + 48) :: char) :: nat) = k + 48" if "k < 10" for k :: nat
    using that by (simp add: of_char_of)
  with 1 show ?case
    by (cases "n < 10") (auto simp: digits.simps [of n])
qed

lemma digits_not_Nil: "digits n \<noteq> []"
  by (subst digits.simps) simp

lemma atoi_itoa: "atoi (itoa i) = i"
proof (cases "i < 0")
  case False
  obtain c cs where c: "digits (nat i) = c # cs" using digits_not_Nil [of "nat i"] by (cases "digits (nat i)") auto
  have "c \<noteq> CHR ''-''" using digits_chars [of c "nat i"] c by auto
  then show ?thesis using False foldl_digits [of "nat i"] by (simp add: itoa_def atoi_def c)
qed (simp add: itoa_def atoi_def foldl_digits)

lemma itoa_no_colon: "CHR '':'' \<notin> set (itoa i)"
  using digits_chars [of "CHR '':''"] by (auto simp: itoa_def)

lemma fmt_int32_no_colon: "CHR '':'' \<notin> set (fmt_int32 n)"
  by (simp add: fmt_int32_def itoa_no_colon)

section \<open>Reading a printed status\<close>

text \<open>The text before the last colon, and the text behind it.\<close>

definition last_field :: "string \<Rightarrow> string \<times> string" where
  "last_field s =
    (rev (drop 1 (dropWhile (\<lambda>c. c \<noteq> CHR '':'') (rev s))), rev (takeWhile (\<lambda>c. c \<noteq> CHR '':'') (rev s)))"

lemma last_field_append: "CHR '':'' \<notin> set t \<Longrightarrow> last_field (s @ CHR '':'' # t) = (s, t)"
proof -
  assume "CHR '':'' \<notin> set t"
  then have "\<forall>c\<in>set (rev t). c \<noteq> CHR '':''" by auto
  then show ?thesis by (simp add: last_field_def takeWhile_append dropWhile_append)
qed

definition read_status :: "string \<Rightarrow> string \<times> int \<times> int" where
  "read_status s =
    (let (front, dr) = last_field (butlast s);
         (front', cr) = last_field (take (length front - 3) front)
     in (drop 5 (take (length front' - 3) front'), atoi cr, atoi dr))"

section \<open>Property\<close>

text \<open>C40. A printed status can be read back: whatever the library prints for the time, the two counts and the text of the
  time are recovered from the line.\<close>

theorem status_string_reads_back:
  "read_status (CHPAStatus_String f s) =
     (case LastScaleTime s of None \<Rightarrow> ''<nil>'' | Some t \<Rightarrow> fmt_time f t, sint (CurrentReplicas s), sint (DesiredReplicas s))"
proof -
  let ?t = "case LastScaleTime s of None \<Rightarrow> ''<nil>'' | Some t \<Rightarrow> fmt_time f t"
  have 1: "butlast (CHPAStatus_String f s) =
      (''{LST:'' @ ?t @ '' CR:'' @ fmt_int32 (CurrentReplicas s) @ '' DR'') @ CHR '':'' # fmt_int32 (DesiredReplicas s)"
    by (simp add: CHPAStatus_String_def butlast_append)
  have "take (length xs) (xs @ ys) = xs" for xs ys :: string by simp
  note t = this [of "''{LST:'' @ ?t @ '' CR:'' @ fmt_int32 (CurrentReplicas s)" "'' DR''"]
  have 2: "take (length (''{LST:'' @ ?t @ '' CR:'' @ fmt_int32 (CurrentReplicas s) @ '' DR'') - 3)
      (''{LST:'' @ ?t @ '' CR:'' @ fmt_int32 (CurrentReplicas s) @ '' DR'') =
      (''{LST:'' @ ?t @ '' CR'') @ CHR '':'' # fmt_int32 (CurrentReplicas s)"
    using t by simp
  show ?thesis
    unfolding read_status_def 1 last_field_append [OF fmt_int32_no_colon] Let_def prod.case 2
    by (simp add: fmt_int32_def atoi_itoa)
qed

end
