(* ===== verification/Scheme.thy ===== *)
theory Scheme
  imports OwnerRef
begin

text \<open>
  The registration of the resource: \<open>SchemeGroupVersion\<close> and \<open>SchemeBuilder\<close> of
  pkg/apis/autoscalers/v1beta1/register.go, the registration in chpa_types.go, and the vendored functions
  they rest on: \<open>Builder.Register\<close> of controller-runtime, \<open>AddToGroupVersion\<close> of meta/v1, the type tables of
  \<open>runtime.Scheme\<close> with \<open>AddKnownTypes\<close>, \<open>ObjectKinds\<close>, and \<open>GVKForObject\<close>.  Conversions, defaults and
  the priorities of versions, which those functions also register, are left out.

  Proved: the registration gives the CHPA its group, version and kind, which \<open>SetControllerReference\<close> looks
  up; it panics on no scheme in which the names are free, touches no other type, and may be repeated.
\<close>

section \<open>Schemes\<close>

text \<open>A struct type of Go: the path of its package and its name.\<close>

record go_type =
  PkgPath :: string
  type_Name :: string

record GroupVersion =
  gv_Group :: string
  gv_Version :: string

definition WithKind :: "GroupVersion \<Rightarrow> string \<Rightarrow> GroupVersionKind" where
  "WithKind gv kind = \<lparr>gvk_Group = gv_Group gv, gvk_Version = gv_Version gv, gvk_Kind = kind\<rparr>"

record scheme =
  gvkToType :: "GroupVersionKind \<rightharpoonup> go_type"
  typeToGVK :: "go_type \<rightharpoonup> GroupVersionKind list"
  unversionedTypes :: "go_type \<rightharpoonup> GroupVersionKind"
  unversionedKinds :: "string \<rightharpoonup> go_type"

text \<open>The panics of a registration.\<close>

datatype scheme_panic =
    Version_required GroupVersionKind go_type
  | Double_registration GroupVersionKind go_type go_type
  | Kind_not_unique go_type GroupVersionKind

definition AddKnownTypeWithName :: "GroupVersionKind \<Rightarrow> go_type \<Rightarrow> scheme \<Rightarrow> scheme_panic + scheme" where
  "AddKnownTypeWithName gvk t s =
    (if gvk_Version gvk = [] then Inl (Version_required gvk t)
     else if gvkToType s gvk \<noteq> None \<and> the (gvkToType s gvk) \<noteq> t
          then Inl (Double_registration gvk (the (gvkToType s gvk)) t)
     else let s' = s\<lparr>gvkToType := (gvkToType s)(gvk \<mapsto> t)\<rparr>;
              gvks = (case typeToGVK s' t of None \<Rightarrow> [] | Some gvks \<Rightarrow> gvks)
          in if gvk \<in> set gvks then Inr s'
             else Inr (s'\<lparr>typeToGVK := (typeToGVK s')(t \<mapsto> gvks @ [gvk])\<rparr>))"

fun AddKnownTypes :: "GroupVersion \<Rightarrow> go_type list \<Rightarrow> scheme \<Rightarrow> scheme_panic + scheme" where
  "AddKnownTypes gv [] s = Inr s"
| "AddKnownTypes gv (t # types) s =
     (case AddKnownTypeWithName (WithKind gv (type_Name t)) t s of
        Inl p \<Rightarrow> Inl p
      | Inr s' \<Rightarrow> AddKnownTypes gv types s')"

text \<open>The loop of \<open>AddUnversionedTypes\<close> behind its \<open>AddKnownTypes\<close>.\<close>

fun mark_unversioned :: "GroupVersion \<Rightarrow> go_type list \<Rightarrow> scheme \<Rightarrow> scheme_panic + scheme" where
  "mark_unversioned version [] s = Inr s"
| "mark_unversioned version (t # types) s =
     (let gvk = WithKind version (type_Name t);
          s' = s\<lparr>unversionedTypes := (unversionedTypes s)(t \<mapsto> gvk)\<rparr>
      in if unversionedKinds s' (gvk_Kind gvk) \<noteq> None \<and> t \<noteq> the (unversionedKinds s' (gvk_Kind gvk))
         then Inl (Kind_not_unique (the (unversionedKinds s' (gvk_Kind gvk))) gvk)
         else mark_unversioned version types (s'\<lparr>unversionedKinds := (unversionedKinds s')(gvk_Kind gvk \<mapsto> t)\<rparr>))"

definition AddUnversionedTypes :: "GroupVersion \<Rightarrow> go_type list \<Rightarrow> scheme \<Rightarrow> scheme_panic + scheme" where
  "AddUnversionedTypes version types s =
    (case AddKnownTypes version types s of
       Inl p \<Rightarrow> Inl p
     | Inr s' \<Rightarrow> mark_unversioned version types s')"

section \<open>The types of meta/v1\<close>

definition meta_type :: "string \<Rightarrow> go_type" where
  "meta_type name = \<lparr>PkgPath = ''k8s.io/apimachinery/pkg/apis/meta/v1'', type_Name = name\<rparr>"

definition Unversioned :: GroupVersion where
  "Unversioned = \<lparr>gv_Group = [], gv_Version = ''v1''\<rparr>"

definition option_types :: "go_type list" where
  "option_types = map meta_type [''ListOptions'', ''ExportOptions'', ''GetOptions'', ''DeleteOptions'']"

definition unversioned_types :: "go_type list" where
  "unversioned_types = map meta_type [''Status'', ''APIVersions'', ''APIGroupList'', ''APIGroup'', ''APIResourceList'']"

definition AddToGroupVersion :: "GroupVersion \<Rightarrow> scheme \<Rightarrow> scheme_panic + scheme" where
  "AddToGroupVersion groupVersion s =
    (case AddKnownTypeWithName (WithKind groupVersion ''WatchEvent'') (meta_type ''WatchEvent'') s of
       Inl p \<Rightarrow> Inl p
     | Inr s1 \<Rightarrow>
         (case AddKnownTypeWithName (WithKind \<lparr>gv_Group = gv_Group groupVersion, gv_Version = ''__internal''\<rparr> ''WatchEvent'')
                 (meta_type ''InternalEvent'') s1 of
            Inl p \<Rightarrow> Inl p
          | Inr s2 \<Rightarrow>
              (case AddKnownTypes groupVersion option_types s2 of
                 Inl p \<Rightarrow> Inl p
               | Inr s3 \<Rightarrow> AddUnversionedTypes Unversioned unversioned_types s3)))"

section \<open>The builder of the package\<close>

type_synonym scheme_setup = "scheme \<Rightarrow> scheme_panic + (string option \<times> scheme)"

record Builder =
  b_GroupVersion :: GroupVersion
  b_SchemeBuilder :: "scheme_setup list"

definition Register :: "go_type list \<Rightarrow> Builder \<Rightarrow> Builder" where
  "Register object bld = bld\<lparr>b_SchemeBuilder := b_SchemeBuilder bld @
     [\<lambda>s. case AddKnownTypes (b_GroupVersion bld) object s of
            Inl p \<Rightarrow> Inl p
          | Inr s1 \<Rightarrow> (case AddToGroupVersion (b_GroupVersion bld) s1 of
                         Inl p \<Rightarrow> Inl p
                       | Inr s2 \<Rightarrow> Inr (None, s2))]\<rparr>"

fun run_setups :: "scheme_setup list \<Rightarrow> scheme_setup" where
  "run_setups [] s = Inr (None, s)"
| "run_setups (f # sb) s =
     (case f s of
        Inl p \<Rightarrow> Inl p
      | Inr (Some err, s') \<Rightarrow> Inr (Some err, s')
      | Inr (None, s') \<Rightarrow> run_setups sb s')"

definition SchemeGroupVersion :: GroupVersion where
  "SchemeGroupVersion = \<lparr>gv_Group = ''autoscalers.postmates.com'', gv_Version = ''v1beta1''\<rparr>"

definition chpa_type :: go_type where
  "chpa_type = \<lparr>PkgPath = ''github.com/postmates/configurable-hpa/pkg/apis/autoscalers/v1beta1'', type_Name = ''CHPA''\<rparr>"

definition chpa_list_type :: go_type where
  "chpa_list_type = \<lparr>PkgPath = ''github.com/postmates/configurable-hpa/pkg/apis/autoscalers/v1beta1'', type_Name = ''CHPAList''\<rparr>"

text \<open>The variable of register.go after the \<open>init\<close> of chpa_types.go.\<close>

definition SchemeBuilder :: Builder where
  "SchemeBuilder = Register [chpa_type, chpa_list_type] \<lparr>b_GroupVersion = SchemeGroupVersion, b_SchemeBuilder = []\<rparr>"

definition Builder_AddToScheme :: "Builder \<Rightarrow> scheme_setup" where
  "Builder_AddToScheme bld = run_setups (b_SchemeBuilder bld)"

section \<open>Looking up a type\<close>

text \<open>\<open>fmt\<close>: how the library prints a struct type; a pointer to it has a star in front.\<close>

definition ObjectKinds :: "(go_type \<Rightarrow> string) \<Rightarrow> go_type \<Rightarrow> scheme \<Rightarrow> string + (GroupVersionKind list \<times> bool)" where
  "ObjectKinds fmt t s =
    (case typeToGVK s t of
       None \<Rightarrow> Inl (''no kind is registered for the type '' @ fmt t)
     | Some gvks \<Rightarrow> Inr (gvks, unversionedTypes s t \<noteq> None))"

definition GVKForType :: "(go_type \<Rightarrow> string) \<Rightarrow> go_type \<Rightarrow> scheme \<Rightarrow> string + GroupVersionKind" where
  "GVKForType fmt t s =
    (case ObjectKinds fmt t s of
       Inl err \<Rightarrow> Inl err
     | Inr (gvks, isUnversioned) \<Rightarrow>
         if isUnversioned then Inl (''cannot create a new informer for the unversioned type *'' @ fmt t)
         else if length gvks < 1 then Inl (''no group-version-kinds associated with type *'' @ fmt t)
         else if length gvks > 1 then
           Inl (''multiple group-version-kinds associated with type *'' @ fmt t @ '', refusing to guess at one'')
         else Inr (gvks ! 0))"

section \<open>What a registration leaves\<close>

definition known :: "scheme \<Rightarrow> go_type \<Rightarrow> GroupVersionKind list" where
  "known s t = (case typeToGVK s t of None \<Rightarrow> [] | Some gvks \<Rightarrow> gvks)"

definition add_type :: "GroupVersionKind \<Rightarrow> go_type \<Rightarrow> scheme \<Rightarrow> scheme" where
  "add_type gvk t s = s\<lparr>gvkToType := (gvkToType s)(gvk \<mapsto> t),
     typeToGVK := (typeToGVK s)(t \<mapsto> if gvk \<in> set (known s t) then known s t else known s t @ [gvk])\<rparr>"

text \<open>The entries of a registration agree with a scheme: each name is free, or has that type already.\<close>

definition agrees :: "(GroupVersionKind \<times> go_type) list \<Rightarrow> scheme \<Rightarrow> bool" where
  "agrees reg s \<longleftrightarrow> distinct (map fst reg) \<and>
     (\<forall>g t. (g, t) \<in> set reg \<longrightarrow> gvk_Version g \<noteq> [] \<and> (gvkToType s g = None \<or> gvkToType s g = Some t))"

definition registered :: "GroupVersionKind \<times> go_type \<Rightarrow> scheme \<Rightarrow> bool" where
  "registered p s \<longleftrightarrow> gvkToType s (fst p) = Some (snd p) \<and> fst p \<in> set (known s (snd p))"

lemma AddKnownTypeWithName_ok:
  "agrees reg s \<Longrightarrow> (g, t) \<in> set reg \<Longrightarrow> AddKnownTypeWithName g t s = Inr (add_type g t s)"
  by (fastforce simp: AddKnownTypeWithName_def agrees_def add_type_def known_def Let_def fun_upd_idem
      split: option.splits)

lemma agrees_unique: "agrees reg s \<Longrightarrow> (g, t) \<in> set reg \<Longrightarrow> (g, t') \<in> set reg \<Longrightarrow> t = t'"
  by (auto simp: agrees_def intro: eq_key_imp_eq_value)

lemma agreesD: "agrees reg s \<Longrightarrow> (g, t) \<in> set reg \<Longrightarrow> gvkToType s g = Some t' \<Longrightarrow> t' = t"
  by (force simp: agrees_def)

lemma agrees_add_type:
  assumes a: "agrees reg s" and p: "(g, t) \<in> set reg"
  shows "agrees reg (add_type g t s)"
  unfolding agrees_def
proof (intro conjI allI impI)
  fix g' t' assume q: "(g', t') \<in> set reg"
  show "gvk_Version g' \<noteq> []" using a q by (auto simp: agrees_def)
  show "gvkToType (add_type g t s) g' = None \<or> gvkToType (add_type g t s) g' = Some t'"
    using a q agrees_unique [OF a, of g t t'] p by (auto simp: agrees_def add_type_def)
qed (use a in \<open>simp add: agrees_def\<close>)

definition add_all :: "(GroupVersionKind \<times> go_type) list \<Rightarrow> scheme \<Rightarrow> scheme" where
  "add_all ps s = fold (\<lambda>(g, t). add_type g t) ps s"

lemma add_all_simps [simp]: "add_all [] s = s" "add_all ((g, t) # ps) s = add_all ps (add_type g t s)"
  by (simp_all add: add_all_def)

lemma add_all_append: "add_all (ps @ qs) s = add_all qs (add_all ps s)"
  by (simp add: add_all_def)

lemma agrees_add_all: "agrees reg s \<Longrightarrow> set ps \<subseteq> set reg \<Longrightarrow> agrees reg (add_all ps s)"
  by (induction ps arbitrary: s) (auto simp: agrees_add_type)

definition entries :: "GroupVersion \<Rightarrow> go_type list \<Rightarrow> (GroupVersionKind \<times> go_type) list" where
  "entries gv ts = map (\<lambda>t. (WithKind gv (type_Name t), t)) ts"

lemma AddKnownTypes_ok:
  "agrees reg s \<Longrightarrow> set (entries gv ts) \<subseteq> set reg \<Longrightarrow> AddKnownTypes gv ts s = Inr (add_all (entries gv ts) s)"
  by (induction ts arbitrary: s) (auto simp: entries_def AddKnownTypeWithName_ok agrees_add_type)

lemma add_type_known [simp]:
  "known (add_type g t s) t' = (if t' = t then (if g \<in> set (known s t) then known s t else known s t @ [g]) else known s t')"
  by (simp add: known_def add_type_def)

lemma add_type_fields [simp]:
  "gvkToType (add_type g t s) = (gvkToType s)(g \<mapsto> t)"
  "unversionedTypes (add_type g t s) = unversionedTypes s" "unversionedKinds (add_type g t s) = unversionedKinds s"
  "t' \<noteq> t \<Longrightarrow> typeToGVK (add_type g t s) t' = typeToGVK s t'"
  by (simp_all add: add_type_def)

lemma add_all_fields [simp]:
  "unversionedTypes (add_all ps s) = unversionedTypes s" "unversionedKinds (add_all ps s) = unversionedKinds s"
  by (induction ps arbitrary: s) auto

lemma add_all_other: "t \<notin> snd ` set ps \<Longrightarrow> typeToGVK (add_all ps s) t = typeToGVK s t"
  by (induction ps arbitrary: s) auto

lemma registered_add_type: "registered p (add_type (fst p) (snd p) s)"
  by (simp add: registered_def)

lemma registered_keep:
  assumes "agrees reg s" "q \<in> set reg" "(g, t) \<in> set reg" "registered q s"
  shows "registered q (add_type g t s)"
proof -
  have "fst q = g \<Longrightarrow> snd q = t" using assms(2,3) agrees_unique [OF assms(1), of g t "snd q"] by (cases q) auto
  with assms(4) show ?thesis by (auto simp: registered_def)
qed

lemma registered_kept: "agrees reg s \<Longrightarrow> q \<in> set reg \<Longrightarrow> set ps \<subseteq> set reg \<Longrightarrow> registered q s \<Longrightarrow> registered q (add_all ps s)"
  by (induction ps arbitrary: s) (auto simp: registered_keep agrees_add_type)

lemma registered_add_all: "agrees reg s \<Longrightarrow> set ps \<subseteq> set reg \<Longrightarrow> q \<in> set ps \<Longrightarrow> registered q (add_all ps s)"
proof (induction ps arbitrary: s)
  case (Cons p ps)
  obtain g t where p: "p = (g, t)" by (cases p)
  have a: "agrees reg (add_type g t s)" using Cons.prems p by (simp add: agrees_add_type)
  show ?case
  proof (cases "q = p")
    case True
    then show ?thesis
      using registered_kept [OF a, of q ps] registered_add_type [of q s] Cons.prems p by auto
  next
    case False
    then show ?thesis using Cons.IH [OF a] Cons.prems p by auto
  qed
qed simp

lemma add_type_registered: "registered (g, t) s \<Longrightarrow> add_type g t s = s"
  by (auto simp: registered_def add_type_def known_def fun_upd_idem split: option.splits)

lemma add_all_registered: "(\<And>p. p \<in> set ps \<Longrightarrow> registered p s) \<Longrightarrow> add_all ps s = s"
  by (induction ps) (auto simp: add_type_registered)

lemma gvkToType_add_all: "agrees reg s \<Longrightarrow> set ps \<subseteq> set reg \<Longrightarrow> gvkToType s \<subseteq>\<^sub>m gvkToType (add_all ps s)"
proof (induction ps arbitrary: s)
  case (Cons p ps)
  obtain g t where p: "p = (g, t)" by (cases p)
  have "gvkToType s \<subseteq>\<^sub>m gvkToType (add_type g t s)"
    using Cons.prems p agreesD [of reg s g t] by (auto simp: map_le_def)
  moreover have "gvkToType (add_type g t s) \<subseteq>\<^sub>m gvkToType (add_all ps (add_type g t s))"
    using Cons.prems p by (intro Cons.IH) (auto simp: agrees_add_type)
  ultimately show ?case using p by (auto intro: map_le_trans)
qed simp

text \<open>Unversioned types.\<close>

definition mark :: "GroupVersion \<Rightarrow> go_type \<Rightarrow> scheme \<Rightarrow> scheme" where
  "mark gv t s = s\<lparr>unversionedTypes := (unversionedTypes s)(t \<mapsto> WithKind gv (type_Name t)),
     unversionedKinds := (unversionedKinds s)(type_Name t \<mapsto> t)\<rparr>"

definition kinds_free :: "go_type list \<Rightarrow> scheme \<Rightarrow> bool" where
  "kinds_free ts s \<longleftrightarrow> distinct (map type_Name ts) \<and>
     (\<forall>t\<in>set ts. unversionedKinds s (type_Name t) = None \<or> unversionedKinds s (type_Name t) = Some t)"

lemma mark_fields [simp]:
  "gvkToType (mark gv t s) = gvkToType s" "typeToGVK (mark gv t s) = typeToGVK s"
  "unversionedTypes (mark gv t s) = (unversionedTypes s)(t \<mapsto> WithKind gv (type_Name t))"
  "unversionedKinds (mark gv t s) = (unversionedKinds s)(type_Name t \<mapsto> t)"
  by (simp_all add: mark_def)

lemma mark_fold_fields [simp]:
  "gvkToType (fold (mark gv) ts s) = gvkToType s" "typeToGVK (fold (mark gv) ts s) = typeToGVK s"
  by (induction ts arbitrary: s) auto

lemma mark_fold_other: "t \<notin> set ts \<Longrightarrow> unversionedTypes (fold (mark gv) ts s) t = unversionedTypes s t"
  by (induction ts arbitrary: s) auto

lemma mark_fold_kinds_other: "k \<notin> type_Name ` set ts \<Longrightarrow> unversionedKinds (fold (mark gv) ts s) k = unversionedKinds s k"
  by (induction ts arbitrary: s) auto

lemma kinds_free_Cons:
  assumes "kinds_free (t # ts) s"
  shows "kinds_free ts (mark gv t s)"
proof -
  have "type_Name t \<notin> type_Name ` set ts" using assms by (simp add: kinds_free_def)
  then have "type_Name u \<noteq> type_Name t" if "u \<in> set ts" for u using that by (metis imageI)
  with assms show ?thesis by (simp add: kinds_free_def)
qed

lemma mark_unversioned_ok: "kinds_free ts s \<Longrightarrow> mark_unversioned gv ts s = Inr (fold (mark gv) ts s)"
proof (induction ts arbitrary: s)
  case (Cons t ts)
  have "mark_unversioned gv (t # ts) s = mark_unversioned gv ts (mark gv t s)"
    using Cons.prems by (auto simp: kinds_free_def mark_def Let_def WithKind_def)
  then show ?case using Cons.IH [OF kinds_free_Cons [OF Cons.prems]] by simp
qed simp

lemma marked:
  "kinds_free ts s \<Longrightarrow> t \<in> set ts \<Longrightarrow>
   unversionedTypes (fold (mark gv) ts s) t = Some (WithKind gv (type_Name t)) \<and>
   unversionedKinds (fold (mark gv) ts s) (type_Name t) = Some t"
proof (induction ts arbitrary: s)
  case (Cons u ts)
  show ?case
  proof (cases "t \<in> set ts")
    case True
    then show ?thesis using Cons.IH [OF kinds_free_Cons [OF Cons.prems(1)]] by simp
  next
    case False
    then have "t = u" using Cons.prems(2) by simp
    moreover have "type_Name u \<notin> type_Name ` set ts" using Cons.prems(1) by (simp add: kinds_free_def)
    ultimately show ?thesis using False by (simp add: mark_fold_other mark_fold_kinds_other)
  qed
qed simp

lemma mark_marked:
  "(\<And>t. t \<in> set ts \<Longrightarrow> unversionedTypes s t = Some (WithKind gv (type_Name t)) \<and> unversionedKinds s (type_Name t) = Some t)
   \<Longrightarrow> fold (mark gv) ts s = s"
proof (induction ts)
  case (Cons t ts)
  then have "mark gv t s = s" by (simp add: mark_def fun_upd_idem)
  with Cons show ?case by simp
qed simp

section \<open>The registration of the package\<close>

definition registrations :: "(GroupVersionKind \<times> go_type) list" where
  "registrations = entries SchemeGroupVersion [chpa_type, chpa_list_type] @
     [(WithKind SchemeGroupVersion ''WatchEvent'', meta_type ''WatchEvent''),
      (WithKind \<lparr>gv_Group = gv_Group SchemeGroupVersion, gv_Version = ''__internal''\<rparr> ''WatchEvent'', meta_type ''InternalEvent'')] @
     entries SchemeGroupVersion option_types @ entries Unversioned unversioned_types"

lemmas registered_types = registrations_def entries_def option_types_def unversioned_types_def meta_type_def
  SchemeGroupVersion_def Unversioned_def WithKind_def chpa_type_def chpa_list_type_def

definition registered_scheme :: "scheme \<Rightarrow> scheme" where
  "registered_scheme s = fold (mark Unversioned) unversioned_types (add_all registrations s)"

lemma kinds_free_add_all [simp]: "kinds_free ts (add_all ps s) = kinds_free ts s"
  by (simp add: kinds_free_def)

lemma AddToScheme_eq:
  assumes a: "agrees registrations s" and k: "kinds_free unversioned_types s"
  shows "Builder_AddToScheme SchemeBuilder s = Inr (None, registered_scheme s)"
proof -
  have sub: "set (entries SchemeGroupVersion [chpa_type, chpa_list_type]) \<subseteq> set registrations"
    "set (entries SchemeGroupVersion option_types) \<subseteq> set registrations"
    "set (entries Unversioned unversioned_types) \<subseteq> set registrations"
    by (auto simp: registrations_def)
  let ?w = "(WithKind SchemeGroupVersion ''WatchEvent'', meta_type ''WatchEvent'')"
  let ?i = "(WithKind \<lparr>gv_Group = gv_Group SchemeGroupVersion, gv_Version = ''__internal''\<rparr> ''WatchEvent'', meta_type ''InternalEvent'')"
  have mem: "?w \<in> set registrations" "?i \<in> set registrations" by (simp_all add: registrations_def)
  define s1 where "s1 = add_all (entries SchemeGroupVersion [chpa_type, chpa_list_type]) s"
  define s2 where "s2 = add_type (fst ?w) (snd ?w) s1"
  define s3 where "s3 = add_type (fst ?i) (snd ?i) s2"
  define s4 where "s4 = add_all (entries SchemeGroupVersion option_types) s3"
  have a1: "agrees registrations s1" unfolding s1_def by (rule agrees_add_all [OF a sub(1)])
  have a2: "agrees registrations s2" unfolding s2_def by (rule agrees_add_type [OF a1]) (use mem in simp)
  have a3: "agrees registrations s3" unfolding s3_def by (rule agrees_add_type [OF a2]) (use mem in simp)
  have a4: "agrees registrations s4" unfolding s4_def by (rule agrees_add_all [OF a3 sub(2)])
  have "registered_scheme s = fold (mark Unversioned) unversioned_types (add_all (entries Unversioned unversioned_types) s4)"
    by (simp add: registered_scheme_def registrations_def add_all_append s1_def s2_def s3_def s4_def)
  moreover have "kinds_free unversioned_types s4" using k by (simp add: s4_def s3_def s2_def s1_def kinds_free_def)
  moreover have "AddKnownTypes SchemeGroupVersion [chpa_type, chpa_list_type] s = Inr s1"
    unfolding s1_def by (rule AddKnownTypes_ok [OF a sub(1)])
  moreover have "AddKnownTypeWithName (fst ?w) (snd ?w) s1 = Inr s2"
    unfolding s2_def by (rule AddKnownTypeWithName_ok [OF a1]) (use mem in simp)
  moreover have "AddKnownTypeWithName (fst ?i) (snd ?i) s2 = Inr s3"
    unfolding s3_def by (rule AddKnownTypeWithName_ok [OF a2]) (use mem in simp)
  moreover have "AddKnownTypes SchemeGroupVersion option_types s3 = Inr s4"
    unfolding s4_def by (rule AddKnownTypes_ok [OF a3 sub(2)])
  ultimately show ?thesis
    using AddKnownTypes_ok [OF a4 sub(3)]
    by (simp add: Builder_AddToScheme_def SchemeBuilder_def Register_def AddToGroupVersion_def AddUnversionedTypes_def
        mark_unversioned_ok del: AddKnownTypes.simps)
qed

lemma registrations_distinct: "distinct (map fst registrations)"
  by (simp add: registered_types)

lemma registered_scheme_registered:
  assumes "agrees registrations s" "p \<in> set registrations"
  shows "registered p (registered_scheme s)"
  using registered_add_all [OF assms(1) order_refl assms(2)] by (simp add: registered_scheme_def registered_def known_def)

lemma registered_scheme_fixed:
  assumes "agrees registrations s" "kinds_free unversioned_types s"
  shows "registered_scheme (registered_scheme s) = registered_scheme s"
proof -
  let ?s = "registered_scheme s"
  have "add_all registrations ?s = ?s"
    by (rule add_all_registered) (rule registered_scheme_registered [OF assms(1)])
  moreover have "fold (mark Unversioned) unversioned_types ?s = ?s"
    by (rule mark_marked) (use assms(2) in \<open>auto simp: registered_scheme_def marked\<close>)
  ultimately show ?thesis by (simp add: registered_scheme_def [of ?s])
qed

lemma agrees_registered_scheme:
  "agrees registrations s \<Longrightarrow> agrees registrations (registered_scheme s)"
  using agrees_add_all [of registrations s registrations] by (simp add: agrees_def registered_scheme_def)

lemma kinds_free_registered_scheme:
  "kinds_free unversioned_types s \<Longrightarrow> kinds_free unversioned_types (registered_scheme s)"
  using marked [of unversioned_types "add_all registrations s" _ Unversioned]
  by (auto simp: registered_scheme_def kinds_free_def)

text \<open>The lookup of a type the registration does not name, and of the two types of the package.\<close>

lemma GVKForType_other:
  assumes "t \<notin> snd ` set registrations"
  shows "GVKForType fmt t (registered_scheme s) = GVKForType fmt t s"
proof -
  have "t \<notin> set unversioned_types" using assms by (force simp: registrations_def entries_def)
  then have "typeToGVK (registered_scheme s) t = typeToGVK s t" "unversionedTypes (registered_scheme s) t = unversionedTypes s t"
    using assms by (simp_all add: registered_scheme_def add_all_other mark_fold_other)
  then show ?thesis unfolding GVKForType_def ObjectKinds_def by (simp only:)
qed

definition names_free :: "scheme \<Rightarrow> bool" where
  "names_free s \<longleftrightarrow> agrees registrations s \<and> kinds_free unversioned_types s \<and>
     (\<forall>t\<in>{chpa_type, chpa_list_type}. typeToGVK s t = None \<and> unversionedTypes s t = None)"

lemma GVKForType_package:
  assumes "names_free s" "t \<in> {chpa_type, chpa_list_type}"
  shows "GVKForType fmt t (registered_scheme s) = Inr (WithKind SchemeGroupVersion (type_Name t))"
proof -
  have ne: "chpa_type \<noteq> chpa_list_type" by (simp add: chpa_type_def chpa_list_type_def)
  define rest where "rest = drop 2 registrations"
  have r: "registrations = (WithKind SchemeGroupVersion (type_Name chpa_type), chpa_type) #
      (WithKind SchemeGroupVersion (type_Name chpa_list_type), chpa_list_type) # rest"
    by (simp add: rest_def registrations_def entries_def)
  have o: "t \<notin> snd ` set rest" "t \<notin> set unversioned_types"
    using assms(2) by (auto simp: rest_def registered_types)
  have "typeToGVK (registered_scheme s) t = Some [WithKind SchemeGroupVersion (type_Name t)]"
    using assms ne o by (auto simp: registered_scheme_def r add_all_other names_free_def add_type_def known_def)
  moreover have "unversionedTypes (registered_scheme s) t = None"
    using assms o by (auto simp: registered_scheme_def mark_fold_other names_free_def)
  ultimately show ?thesis by (simp add: GVKForType_def ObjectKinds_def)
qed

text \<open>The tables of a new scheme.\<close>

definition NewScheme :: scheme where
  "NewScheme = \<lparr>gvkToType = Map.empty, typeToGVK = Map.empty, unversionedTypes = Map.empty, unversionedKinds = Map.empty\<rparr>"

lemma names_free_new: "names_free NewScheme"
  using registrations_distinct by (auto simp: NewScheme_def names_free_def agrees_def kinds_free_def registered_types)

text \<open>A Deployment taken over with the kind found in that scheme carries the reference of a CHPA.\<close>

lemma registered_owner:
  assumes "gvkf owner = Inr (WithKind SchemeGroupVersion ''CHPA'')" "SetControllerReference gvkf owner d = Inr d'"
  shows "\<lparr>or_APIVersion = ''autoscalers.postmates.com/v1beta1'', or_Kind = ''CHPA'', or_Name = chpa_Name owner,
      or_UID = chpa_UID owner, or_Controller = Some True, or_BlockOwnerDeletion = Some True\<rparr> \<in> set (dep_OwnerReferences d')"
proof -
  let ?gvk = "WithKind SchemeGroupVersion ''CHPA''"
  have p: "slash \<notin> set (gvk_Group ?gvk)" "slash \<notin> set (gvk_Version ?gvk)"
    by (simp_all add: WithKind_def SchemeGroupVersion_def slash_def)
  have "referSameObject (NewControllerRef owner ?gvk) (NewControllerRef owner ?gvk)"
    by (rule referSameObject_refl) (simp add: NewControllerRef_def ParseGroupVersion_gv_string [OF p])
  from SetControllerReference_success(1) [OF assms(1) refl this assms(2)]
  have "NewControllerRef owner ?gvk \<in> set (dep_OwnerReferences d')" by (simp add: controlled_by_def)
  then show ?thesis by (simp add: NewControllerRef_def gv_string_def WithKind_def SchemeGroupVersion_def slash_def)
qed

section \<open>Property\<close>

text \<open>C39. On a scheme in which the names of the package are free (and the common ones free or already those of meta/v1)
  the registration succeeds without a panic; from then on the CHPA and its list have the group
  autoscalers.postmates.com, version v1beta1 and their own kind, every name keeps the type it had, the lookup of
  any type outside the two packages answers as before, and a second registration changes nothing.  So every
  Deployment the controller takes over with the kind it finds there carries, as its controller, the CHPA of
  that group and version by name and UID.\<close>

theorem AddToScheme_registers:
  assumes "names_free s"
  shows "\<exists>s'. Builder_AddToScheme SchemeBuilder s = Inr (None, s') \<and>
     GVKForType fmt chpa_type s' =
       Inr \<lparr>gvk_Group = ''autoscalers.postmates.com'', gvk_Version = ''v1beta1'', gvk_Kind = ''CHPA''\<rparr> \<and>
     GVKForType fmt chpa_list_type s' =
       Inr \<lparr>gvk_Group = ''autoscalers.postmates.com'', gvk_Version = ''v1beta1'', gvk_Kind = ''CHPAList''\<rparr> \<and>
     (\<forall>gvk t. gvkToType s gvk = Some t \<longrightarrow> gvkToType s' gvk = Some t) \<and>
     (\<forall>t. PkgPath t \<notin> {PkgPath chpa_type, PkgPath (meta_type [])} \<longrightarrow> GVKForType fmt t s' = GVKForType fmt t s) \<and>
     Builder_AddToScheme SchemeBuilder s' = Inr (None, s') \<and>
     (\<forall>owner d d'. SetControllerReference (\<lambda>_. GVKForType fmt chpa_type s') owner d = Inr d' \<longrightarrow>
        \<lparr>or_APIVersion = ''autoscalers.postmates.com/v1beta1'', or_Kind = ''CHPA'', or_Name = chpa_Name owner,
         or_UID = chpa_UID owner, or_Controller = Some True, or_BlockOwnerDeletion = Some True\<rparr> \<in> set (dep_OwnerReferences d'))"
proof -
  have a: "agrees registrations s" and k: "kinds_free unversioned_types s" using assms by (auto simp: names_free_def)
  have outside: "PkgPath t \<in> {PkgPath chpa_type, PkgPath (meta_type [])}" if "t \<in> snd ` set registrations" for t
    using that by (auto simp: registered_types)
  have keep: "gvkToType s \<subseteq>\<^sub>m gvkToType (registered_scheme s)"
    using gvkToType_add_all [OF a order_refl] by (simp add: registered_scheme_def)
  have kind: "GVKForType fmt chpa_type (registered_scheme s) = Inr (WithKind SchemeGroupVersion ''CHPA'')"
    "GVKForType fmt chpa_list_type (registered_scheme s) = Inr (WithKind SchemeGroupVersion ''CHPAList'')"
    using GVKForType_package [OF assms] by (simp_all add: chpa_type_def chpa_list_type_def)
  have other: "GVKForType fmt t (registered_scheme s) = GVKForType fmt t s"
    if "PkgPath t \<notin> {PkgPath chpa_type, PkgPath (meta_type [])}" for t
    by (rule GVKForType_other) (use that outside in blast)
  show ?thesis
  proof (rule exI [of _ "registered_scheme s"], intro conjI allI impI)
    show "Builder_AddToScheme SchemeBuilder s = Inr (None, registered_scheme s)" by (rule AddToScheme_eq [OF a k])
    show "Builder_AddToScheme SchemeBuilder (registered_scheme s) = Inr (None, registered_scheme s)"
      using AddToScheme_eq [OF agrees_registered_scheme [OF a] kinds_free_registered_scheme [OF k]] registered_scheme_fixed [OF a k]
      by simp
  qed (use kind keep other registered_owner in
      \<open>auto simp: map_le_def dom_def WithKind_def SchemeGroupVersion_def\<close>)
qed

theorem AddToScheme_registers_witness:
  "\<exists>s'. Builder_AddToScheme SchemeBuilder NewScheme = Inr (None, s') \<and>
     GVKForType type_Name chpa_type s' =
       Inr \<lparr>gvk_Group = ''autoscalers.postmates.com'', gvk_Version = ''v1beta1'', gvk_Kind = ''CHPA''\<rparr>"
  using AddToScheme_registers [OF names_free_new, of type_Name] by blast

end
