(* ===== verification/Manager.thy ===== *)
theory Manager
  imports Reconcile StatePrograms Scheme
begin

text \<open>
  How the program starts: \<open>main\<close> of cmd/manager/main.go, \<open>AddToManager\<close> of pkg/controller/controller.go with the
  function add_chpa.go registers, \<open>AddToScheme\<close> of pkg/apis, and \<open>Add\<close>, \<open>newReconciler\<close>, \<open>add\<close> of
  pkg/controller/chpa/chpa_controller.go, \<open>NewReplicaCalculator\<close> of replica_calculator.go.

  The libraries are the record \<open>library\<close>: programs over the world, which return their error or their
  result.  A program ends the process (\<open>exit\<close>) by \<open>log.Fatal\<close> or by a panic that nobody recovers.
\<close>

section \<open>The libraries\<close>







section \<open>The reconciler\<close>






section \<open>The start of the program\<close>







section \<open>What the start does\<close>










section \<open>Property\<close>





end
