(* ===== verification/RatioAccuracy.thy ===== *)
theory RatioAccuracy
  imports ReplicaRatios
begin

text \<open>
  How accurate the float64 arithmetic of the calculations is.  The code rounds twice, in the ratio and in its
  product with the replica count; the tolerance is compared with a third rounded number.

  Proved: in the range of realistic values the outcome can be told in integers.  The band of the tolerance is
  the half-open interval from nine to eleven tenths of the target; outside of it the count is the exact ceiling,
  but for one more replica that can appear when the exact count is a whole number.
\<close>

section \<open>The relative error of a rounding\<close>

lemma ilog2_ge: "2 powi e \<le> q \<Longrightarrow> e \<le> ilog2 q"
proof -
  assume q: "2 powi e \<le> q"
  then have "0 < q" by (meson less_le_trans zero_less_numeral zero_less_power_int)
  from ilog2_bounds(2) [OF this] q have "2 powi e < (2::rat) powi (ilog2 q + 1)" by (rule order.strict_trans1 [rotated])
  then show ?thesis using powi_lessD by fastforce
qed

lemma rnd_pos_error:
  assumes "2 powi (- 1022) \<le> q"
  shows "\<bar>rnd_pos q - q\<bar> \<le> q / 2 ^ 53"
proof -
  have q: "0 < q" using assms by (meson less_le_trans zero_less_numeral zero_less_power_int)
  define u where "u = ulp_exp q"
  have u: "u = ilog2 q - 52" using ilog2_ge [OF assms] by (simp add: u_def ulp_exp_def)
  have "rnd_pos q - q = (of_int (rne (q / 2 powi u)) - q / 2 powi u) * 2 powi u"
    by (simp add: rnd_pos_def Let_def u_def [symmetric] left_diff_distrib)
  then have "\<bar>rnd_pos q - q\<bar> = \<bar>of_int (rne (q / 2 powi u)) - q / 2 powi u\<bar> * 2 powi u" by (simp add: abs_mult)
  also have "\<dots> \<le> 1 / 2 * 2 powi u" by (intro mult_right_mono rne_near) simp
  also have "\<dots> = 2 powi ilog2 q / 2 ^ 53" by (simp add: u power_int_diff)
  also have "\<dots> \<le> q / 2 ^ 53" by (intro divide_right_mono ilog2_bounds(1) [OF q]) simp
  finally show ?thesis .
qed

lemma pow_minus_53: "(1 / 2 ^ 53 :: rat) = 2 powi (- 53)"
  by (simp add: power_int_minus inverse_eq_divide)

lemma tiny: "(2::rat) powi (- 1022) \<le> 1 / 2 ^ 53"
  unfolding pow_minus_53 by (rule power_int_increasing) simp_all

lemma rnd64_pow_minus_53: "rnd64 (1 / 2 ^ 53) = 1 / 2 ^ 53"
proof -
  have "rnd64 (of_int 1 * 2 powi (- 53)) = of_int 1 * 2 powi (- 53)" by (rule rnd64_exact) simp_all
  then show ?thesis unfolding pow_minus_53 by (simp only: of_int_1 mult_1_left)
qed

text \<open>Nothing the calculations compute is subnormal: the error is at most \<open>2^-53\<close> of the value.\<close>

lemma rnd64_error:
  assumes "q = 0 \<or> 1 / 2 ^ 53 \<le> q"
  shows "\<bar>rnd64 q - q\<bar> \<le> q / 2 ^ 53"
proof (cases "q = 0")
  case False
  then have q: "1 / 2 ^ 53 \<le> q" using assms by simp
  then have "0 < q" by (rule less_le_trans [rotated]) simp
  moreover have "2 powi (- 1022) \<le> q" using tiny q by linarith
  ultimately show ?thesis using rnd_pos_error [of q] by (simp add: rnd64_def)
qed (simp add: rnd64_def)

section \<open>The ratio and the scaled count\<close>

lemma int_quotient_range:
  assumes "0 \<le> a" "0 < b" "b \<le> 2 ^ 53"
  shows "(of_int a / of_int b :: rat) = 0 \<or> 1 / 2 ^ 53 \<le> (of_int a / of_int b :: rat)"
proof (cases "a = 0")
  case False
  then have "(1::rat) \<le> of_int a" using assms(1) by simp
  moreover have "(of_int b :: rat) \<le> of_int (2 ^ 53)" using assms(3) by (simp only: of_int_le_iff)
  ultimately have "1 / 2 ^ 53 \<le> (of_int a / of_int b :: rat)"
    using assms(2) by (intro frac_le) simp_all
  then show ?thesis ..
qed simp

text \<open>The value of a ratio of integers that fit into the significand.\<close>

lemma int_ratio_rounded:
  assumes "0 \<le> a" "a \<le> 2 ^ 53" "0 < b" "b \<le> 2 ^ 53"
  shows "f64_finite (int_ratio a b)" "f64_val (int_ratio a b) = rnd64 (of_int a / of_int b)"
    "0 \<le> f64_val (int_ratio a b)" "\<bar>f64_val (int_ratio a b)\<bar> \<le> 2 ^ 63"
proof -
  have ab: "\<bar>a\<bar> \<le> 2 ^ 63" "\<bar>b\<bar> \<le> 2 ^ 63" "b \<noteq> 0" using assms by simp_all
  note p = int_ratio_props [OF ab]
  show v: "f64_val (int_ratio a b) = rnd64 (of_int a / of_int b)"
    unfolding p(3) using assms by (simp add: rnd64_of_int)
  show "0 \<le> f64_val (int_ratio a b)" unfolding v using rnd64.ge_int [of 0] assms by simp
  show "f64_finite (int_ratio a b)" "\<bar>f64_val (int_ratio a b)\<bar> \<le> 2 ^ 63" by (rule p)+
qed

text \<open>Two roundings move the product by less than the distance to the next fraction of the same denominator.\<close>

lemma scaled_product_error:
  assumes "0 \<le> a" "a \<le> 2 ^ 53" "0 < b" "b \<le> 2 ^ 53" "0 \<le> n" "a * n < 2 ^ 51"
  defines "r \<equiv> f64_val (int_ratio a b)" and "q \<equiv> of_int (a * n) / (of_int b :: rat)"
  shows "\<bar>rnd64 (r * of_int n) - q\<bar> < 1 / of_int b"
proof (cases "a = 0 \<or> n = 0")
  case True
  then have "r * of_int n = 0" "q = 0"
    using int_ratio_rounded(2) [OF assms(1-4)] by (auto simp: r_def q_def rnd64_def)
  then show ?thesis using assms(3) by (simp add: rnd64_def)
next
  case False
  then have a: "1 \<le> a" and n: "1 \<le> n" using assms(1,5) by simp_all
  let ?e = "1 / 2 ^ 53 :: rat"
  define d where "d = of_int a / (of_int b :: rat)"
  have b: "(0::rat) < of_int b" using assms(3) by simp
  have d: "0 < d" using a b by (simp add: d_def)
  have q: "q = d * of_int n" by (simp add: q_def d_def)
  have rd: "\<bar>r - d\<bar> \<le> d / 2 ^ 53"
    using rnd64_error [OF int_quotient_range [OF assms(1,3,4)]] int_ratio_rounded(2) [OF assms(1-4)]
    by (simp add: r_def d_def)
  have n': "(1::rat) \<le> of_int n" using n by simp
  have rlow: "?e \<le> r"
  proof -
    have "?e \<le> d" using int_quotient_range [OF assms(1,3,4)] d by (auto simp: d_def)
    from rnd64_mono [OF this] show ?thesis
      unfolding rnd64_pow_minus_53 r_def d_def int_ratio_rounded(2) [OF assms(1-4)] .
  qed
  have rn: "?e \<le> r * of_int n" using mult_mono [OF rlow n'] rlow by simp
  have x: "\<bar>rnd64 (r * of_int n) - r * of_int n\<bar> \<le> r * of_int n / 2 ^ 53" by (rule rnd64_error) (use rn in simp)
  have "\<bar>r * of_int n - q\<bar> = \<bar>r - d\<bar> * of_int n" using n' by (simp add: q abs_mult flip: left_diff_distrib)
  also have "\<dots> \<le> d / 2 ^ 53 * of_int n" using rd n' by (intro mult_right_mono) auto
  finally have y: "\<bar>r * of_int n - q\<bar> \<le> q / 2 ^ 53" by (simp add: q)
  have q0: "0 < q" using d n' by (simp add: q)
  have "r * of_int n \<le> q + q / 2 ^ 53" using y by linarith
  also have "\<dots> \<le> 2 * q" using q0 by simp
  finally have "r * of_int n / 2 ^ 53 \<le> 2 * q / 2 ^ 53" by (rule divide_right_mono) simp
  with x y have "\<bar>rnd64 (r * of_int n) - q\<bar> \<le> 3 * q / 2 ^ 53" by linarith
  also have "\<dots> < 4 * q / 2 ^ 53" using q0 by simp
  also have "4 * q / 2 ^ 53 = of_int (a * n) / 2 ^ 51 / of_int b" by (simp add: q_def)
  also have "\<dots> < 1 / of_int b"
  proof (rule divide_strict_right_mono [OF _ b])
    have "(of_int (a * n) :: rat) < of_int (2 ^ 51)" using assms(6) by (simp only: of_int_less_iff)
    then show "of_int (a * n) / 2 ^ 51 < (1 :: rat)" by simp
  qed
  finally show ?thesis .
qed

text \<open>The exact ceiling of a quotient of integers.\<close>

definition ceil_div :: "int \<Rightarrow> int \<Rightarrow> int" where
  "ceil_div a b = - ((- a) div b)"

lemma ceil_div_bounds:
  assumes "0 < b"
  shows "(ceil_div a b - 1) * b < a" "a \<le> ceil_div a b * b" "\<not> b dvd a \<Longrightarrow> a < ceil_div a b * b"
proof -
  have e: "ceil_div a b * b = a + (- a) mod b"
    using div_mult_mod_eq [of "- a" b] unfolding ceil_div_def by linarith
  have m: "0 \<le> (- a) mod b" "(- a) mod b < b" using assms by simp_all
  show "(ceil_div a b - 1) * b < a" "a \<le> ceil_div a b * b" using e m by (simp_all add: left_diff_distrib)
  show "a < ceil_div a b * b" if "\<not> b dvd a"
  proof -
    have "(- a) mod b \<noteq> 0" using that by (simp add: mod_eq_0_iff_dvd)
    then show ?thesis using e m(1) by linarith
  qed
qed

lemma near_ceiling:
  fixes x :: rat
  assumes "0 < b" "\<bar>x - of_int a / of_int b\<bar> < 1 / of_int b"
  shows "\<lceil>x\<rceil> = ceil_div a b \<or> b dvd a \<and> \<lceil>x\<rceil> = ceil_div a b + 1"
proof -
  let ?c = "ceil_div a b"
  have b: "(0::rat) < of_int b" using assms(1) by simp
  have xb: "of_int a - 1 < x * of_int b" "x * of_int b < of_int a + 1"
    using assms(2) b by (auto simp: abs_less_iff field_simps)
  have "(?c - 1) * b \<le> a - 1" using ceil_div_bounds(1) [OF assms(1), of a] by simp
  then have "(of_int ((?c - 1) * b) :: rat) \<le> of_int (a - 1)" by (simp only: of_int_le_iff)
  then have "(of_int ?c - 1) * of_int b < x * of_int b" using xb(1) by simp
  then have lo: "of_int ?c - 1 < x" using b by (simp add: mult_less_cancel_right)
  have "of_int a \<le> (of_int (?c * b) :: rat)" using ceil_div_bounds(2) [OF assms(1), of a] by (simp only: of_int_le_iff)
  then have "x * of_int b < of_int ?c * of_int b + 1" using xb(2) by simp
  also have "\<dots> \<le> (of_int ?c + 1) * of_int b" using assms(1) by (simp add: distrib_right)
  finally have hi: "x < of_int ?c + 1" using b by (simp add: mult_less_cancel_right)
  show ?thesis
  proof (cases "b dvd a")
    case True
    then show ?thesis using lo hi by (simp add: ceiling_eq_iff) linarith
  next
    case False
    then have "a + 1 \<le> ?c * b" using ceil_div_bounds(3) [OF assms(1), of a] by simp
    then have "(of_int (a + 1) :: rat) \<le> of_int (?c * b)" by (simp only: of_int_le_iff)
    then have "x * of_int b < of_int ?c * of_int b" using xb(2) by simp
    then have "x < of_int ?c" using b by (simp add: mult_less_cancel_right)
    then show ?thesis using lo by (auto simp: ceiling_eq_iff)
  qed
qed

lemma scaled_count_exact:
  assumes "0 \<le> a" "a \<le> 2 ^ 53" "0 < b" "b \<le> 2 ^ 53" "0 \<le> n" "n \<le> 2 ^ 53" "a * n < 2 ^ 51"
    "ceil_div (a * n) b < 2 ^ 31 - 1"
  shows "sint (scaled_count (int_ratio a b) n) = ceil_div (a * n) b \<or>
     b dvd a * n \<and> sint (scaled_count (int_ratio a b) n) = ceil_div (a * n) b + 1"
proof -
  note r = int_ratio_rounded [OF assms(1-4)]
  define c where "c = \<lceil>rnd64 (f64_val (int_ratio a b) * of_int n)\<rceil>"
  have c: "c = ceil_div (a * n) b \<or> b dvd a * n \<and> c = ceil_div (a * n) b + 1"
    unfolding c_def using near_ceiling [OF assms(3) scaled_product_error [OF assms(1-5,7)]] .
  have "0 \<le> c" unfolding c_def by (rule rnd64.ceil_ge) (use r(3) assms(5) in auto)
  moreover have "c < 2147483648" using c assms(8) by auto
  ultimately have "sint (scaled_count (int_ratio a b) n) = c"
    using scaled_count_cases [OF r(1,4) assms(5,6)] by (simp add: c_def)
  then show ?thesis using c by simp
qed
section \<open>The tolerance\<close>

text \<open>The default tolerance, one tenth rounded, and its two neighbours' worth of distance.\<close>

definition tenth :: rat where "tenth = 3602879701896397 / 36028797018963968"

lemma tenth_bounds: "1 / 10 < tenth" "tenth < 1 / 10 + 1 / 2 ^ 56"
  by (simp_all add: tenth_def)

lemma exact_55: "\<bar>m\<bar> \<le> 2 ^ 53 \<Longrightarrow> rnd64 (of_int m / 36028797018963968) = of_int m / 36028797018963968"
  using rnd64_exact [of m "- 55"] by (simp add: power_int_minus inverse_eq_divide)

lemma rnd64_nine_tenths: "rnd64 (9 / 10) = 8106479329266893 / 9007199254740992"
proof -
  have "rnd_pos (9 / 10) = of_int 8106479329266893 * 2 powi (- 53)"
    by (rule rnd_pos_eval [where e = "- 1"]) (simp_all add: power_int_minus)
  then show ?thesis by (simp add: rnd64_def power_int_minus)
qed

lemma rnd64_eleven_tenths: "rnd64 (11 / 10) = 2476979795053773 / 2251799813685248"
proof -
  have "rnd_pos (11 / 10) = of_int 4953959590107546 * 2 powi (- 52)"
    by (rule rnd_pos_eval [where e = 0]) (simp_all add: power_int_minus)
  then show ?thesis by (simp add: rnd64_def power_int_minus)
qed

text \<open>The distance from one, as the code computes it, of a rounded ratio \<open>d\<close>.\<close>

definition off_one :: "rat \<Rightarrow> rat" where
  "off_one d = rnd64 (1 - rnd64 d)"

lemma off_one_antimono: "d \<le> e \<Longrightarrow> off_one e \<le> off_one d"
  unfolding off_one_def by (intro rnd64_mono diff_left_mono)

lemma off_one_nine_tenths: "off_one (9 / 10) \<le> tenth"
  using exact_55 [of 3602879701896396] by (simp add: off_one_def rnd64_nine_tenths tenth_def)

lemma off_one_eleven_tenths: "off_one (11 / 10) < - tenth"
  using exact_55 [of "- 3602879701896400"] by (simp add: off_one_def rnd64_eleven_tenths tenth_def)

text \<open>A ratio of integers that misses a boundary misses it by more than the roundings.\<close>

lemma off_one_above:
  assumes "0 \<le> a" "0 < b" "b \<le> 2 ^ 48" "10 * a < 9 * b"
  shows "tenth < off_one (of_int a / of_int b)"
proof -
  let ?d = "of_int a / of_int b :: rat"
  have b: "(0::rat) < of_int b" using assms(2) by simp
  have "(of_int (10 * a + 1) :: rat) \<le> of_int (9 * b)" using assms(4) by (simp only: of_int_le_iff)
  then have d: "?d \<le> 9 / 10 - 1 / 10 / of_int b" using b by (simp add: field_simps)
  have "(of_int b :: rat) \<le> of_int (2 ^ 48)" using assms(3) by (simp only: of_int_le_iff)
  then have "1 / 10 / 2 ^ 48 \<le> 1 / 10 / (of_int b :: rat)" using b by (intro divide_left_mono) simp_all
  then have d': "?d \<le> 9 / 10 - 1 / 10 / 2 ^ 48" using d by linarith
  have "\<bar>rnd64 ?d - ?d\<bar> \<le> ?d / 2 ^ 53"
    by (rule rnd64_error [OF int_quotient_range]) (use assms in simp_all)
  moreover have "?d / 2 ^ 53 \<le> 1 / 2 ^ 53"
  proof (rule divide_right_mono)
    have "9 / 10 - 1 / 10 / 2 ^ 48 \<le> (1 :: rat)" by simp
    with d' show "?d \<le> 1" by (rule order_trans)
  qed simp
  ultimately have "rnd64 ?d \<le> 9 / 10 - 1 / 10 / 2 ^ 48 + 1 / 2 ^ 53" using d' by linarith
  moreover have "9 / 10 - 1 / 10 / 2 ^ 48 + 1 / 2 ^ 53 \<le> 1 - of_int 3602879701896398 / (36028797018963968 :: rat)" by simp
  ultimately have "of_int 3602879701896398 / 36028797018963968 \<le> 1 - rnd64 ?d" by linarith
  then have "rnd64 (of_int 3602879701896398 / 36028797018963968) \<le> off_one ?d"
    unfolding off_one_def by (rule rnd64_mono)
  then show ?thesis using exact_55 [of 3602879701896398] by (simp add: tenth_def)
qed

lemma off_one_below:
  assumes "0 < b" "10 * a < 11 * b" "b \<le> 2 ^ 48" "0 \<le> a"
  shows "- tenth \<le> off_one (of_int a / of_int b)"
proof -
  let ?d = "of_int a / of_int b :: rat"
  have b: "(0::rat) < of_int b" using assms(1) by simp
  have "(of_int (10 * a + 1) :: rat) \<le> of_int (11 * b)" using assms(2) by (simp only: of_int_le_iff)
  then have d: "?d \<le> 11 / 10 - 1 / 10 / of_int b" using b by (simp add: field_simps)
  have "(of_int b :: rat) \<le> of_int (2 ^ 48)" using assms(3) by (simp only: of_int_le_iff)
  then have "1 / 10 / 2 ^ 48 \<le> 1 / 10 / (of_int b :: rat)" using b by (intro divide_left_mono) simp_all
  then have d': "?d \<le> 11 / 10 - 1 / 10 / 2 ^ 48" using d by linarith
  have "\<bar>rnd64 ?d - ?d\<bar> \<le> ?d / 2 ^ 53"
    by (rule rnd64_error [OF int_quotient_range]) (use assms in simp_all)
  moreover have "?d / 2 ^ 53 \<le> 2 / 2 ^ 53"
  proof (rule divide_right_mono)
    have "11 / 10 - 1 / 10 / 2 ^ 48 \<le> (2 :: rat)" by simp
    with d' show "?d \<le> 2" by (rule order_trans)
  qed simp
  ultimately have "rnd64 ?d \<le> 11 / 10 - 1 / 10 / 2 ^ 48 + 2 / 2 ^ 53" using d' by linarith
  moreover have "11 / 10 - 1 / 10 / 2 ^ 48 + 2 / 2 ^ 53 \<le> 1 + tenth" by (simp add: tenth_def)
  ultimately have "- tenth \<le> 1 - rnd64 ?d" by linarith
  then have "rnd64 (- tenth) \<le> off_one ?d" unfolding off_one_def by (rule rnd64_mono)
  then show ?thesis using exact_55 [of "- 3602879701896397"] by (simp add: tenth_def)
qed

lemma within_default_tolerance:
  assumes "f64_finite r" "\<bar>1 - f64_val r\<bar> \<le> huge"
  shows "within_tolerance defaultTolerance r \<longleftrightarrow> \<bar>rnd64 (1 - f64_val r)\<bar> \<le> tenth"
proof -
  have "f64_val (f64_sub (f64_of_int 1) r) = rnd64 (1 - f64_val r)" "f64_finite (f64_sub (f64_of_int 1) r)"
    using f64_sub_val [of "f64_of_int 1" r] assms by (simp_all add: f64_of_int_exact)
  then show ?thesis
    unfolding within_tolerance_def by (simp add: less_eq_f64_val f64_abs_val defaultTolerance_eq tenth_def)
qed

text \<open>The band of the default tolerance, in integers: the lower boundary is inside, the upper one is not.\<close>

lemma default_band:
  assumes "0 \<le> a" "a \<le> 2 ^ 53" "0 < b" "b \<le> 2 ^ 48"
  shows "within_tolerance defaultTolerance (int_ratio a b) \<longleftrightarrow> 9 * b \<le> 10 * a \<and> 10 * a < 11 * b"
proof -
  let ?d = "of_int a / of_int b :: rat"
  have "b \<le> 2 ^ 53" using assms(4) by simp
  note r = int_ratio_rounded [OF assms(1-3) this]
  have "\<bar>1 - f64_val (int_ratio a b)\<bar> \<le> 2 ^ 64" using r(4) by simp
  also have "\<dots> \<le> huge" unfolding huge_def by (rule power_increasing) simp_all
  finally have w: "within_tolerance defaultTolerance (int_ratio a b) \<longleftrightarrow> \<bar>off_one ?d\<bar> \<le> tenth"
    unfolding off_one_def r(2) [symmetric] by (rule within_default_tolerance [OF r(1)])
  have b: "(0::rat) < of_int b" using assms(3) by simp
  consider "10 * a < 9 * b" | "11 * b \<le> 10 * a" | "9 * b \<le> 10 * a" "10 * a < 11 * b" by linarith
  then show ?thesis
  proof cases
    case 1
    from off_one_above [OF assms(1,3,4) 1] have "\<not> \<bar>off_one ?d\<bar> \<le> tenth" by linarith
    then show ?thesis using 1 by (simp add: w)
  next
    case 2
    then have "(of_int (11 * b) :: rat) \<le> of_int (10 * a)" by (simp only: of_int_le_iff)
    then have "11 / 10 \<le> ?d" using b by (simp add: field_simps)
    from off_one_antimono [OF this] off_one_eleven_tenths have "\<not> \<bar>off_one ?d\<bar> \<le> tenth" by linarith
    then show ?thesis using 2 by (simp add: w)
  next
    case 3
    then have "(of_int (9 * b) :: rat) \<le> of_int (10 * a)" by (simp only: of_int_le_iff)
    then have "9 / 10 \<le> ?d" using b by (simp add: field_simps)
    from off_one_antimono [OF this] off_one_nine_tenths off_one_below [OF assms(3) 3(2) assms(4,1)]
    have "\<bar>off_one ?d\<bar> \<le> tenth" by linarith
    then show ?thesis using 3 by (simp add: w)
  qed
qed

section \<open>The calculations\<close>

text \<open>What a metric with one usage and one target should propose, in integers.\<close>

definition ideal_count :: "int \<Rightarrow> int \<Rightarrow> int \<Rightarrow> int" where
  "ideal_count usage target cur =
    (if 9 * target \<le> 10 * usage \<and> 10 * usage < 11 * target then cur else ceil_div (usage * cur) target)"

text \<open>Usage, target and count in the range in which the arithmetic is exact enough.\<close>

definition moderate :: "int \<Rightarrow> int \<Rightarrow> int \<Rightarrow> bool" where
  "moderate usage target cur \<longleftrightarrow>
     0 \<le> usage \<and> usage \<le> 2 ^ 53 \<and> 0 < target \<and> target \<le> 2 ^ 48 \<and> 0 \<le> cur \<and> usage * cur < 2 ^ 51 \<and>
     ceil_div (usage * cur) target < 2 ^ 31 - 1"

text \<open>The count proposed is the ideal one, or one more where the ideal one is a whole quotient.\<close>

definition nearly_ideal :: "int \<Rightarrow> int \<Rightarrow> int \<Rightarrow> int \<Rightarrow> bool" where
  "nearly_ideal usage target cur n \<longleftrightarrow>
     n = ideal_count usage target cur \<or> target dvd usage * cur \<and> n = ideal_count usage target cur + 1"

lemma ratio_replicas_ideal:
  fixes cur :: int32
  assumes "moderate usage target (sint cur)"
  shows "nearly_ideal usage target (sint cur)
    (sint (if within_tolerance defaultTolerance (int_ratio usage target) then cur
           else scaled_count (int_ratio usage target) (sint cur)))"
proof -
  have m: "0 \<le> usage" "usage \<le> 2 ^ 53" "0 < target" "target \<le> 2 ^ 48" "target \<le> 2 ^ 53" "0 \<le> sint cur"
    "sint cur \<le> 2 ^ 53" "usage * sint cur < 2 ^ 51" "ceil_div (usage * sint cur) target < 2 ^ 31 - 1"
    using assms sint32_range [of cur] by (auto simp: moderate_def)
  show ?thesis
    using scaled_count_exact [OF m(1-3,5-9)]
    by (auto simp: default_band [OF m(1-4)] nearly_ideal_def ideal_count_def)
qed


lemma object_replicas_ideal:
  assumes "run_state (GetObjectMetric c name ns ref) w = (Inr (load, ts), w')" "tolerance c = defaultTolerance"
    "moderate (sint load) (sint target) (sint cur)"
  shows "\<exists>n. run_state (GetObjectMetricReplicas c cur target name ns ref) w = (Inr (n, load, ts), w') \<and>
     nearly_ideal (sint load) (sint target) (sint cur) (sint n)"
  using ratio_replicas_ideal [OF assms(3)] assms(1,2)
  by (simp add: GetObjectMetricReplicas_def Let_def split: if_splits flip: int_ratio_def)

lemma external_replicas_ideal:
  assumes "LabelSelectorAsSelector c sel = Inr ls" "run_state (GetExternalMetric c name ns ls) w = (Inr (values, ts), w')"
    "tolerance c = defaultTolerance" "moderate (sint (sum_values values 0)) (sint target) (sint cur)"
  shows "\<exists>n. run_state (GetExternalMetricReplicas c cur target name ns sel) w = (Inr (n, sum_values values 0, ts), w') \<and>
     nearly_ideal (sint (sum_values values 0)) (sint target) (sint cur) (sint n)"
  using ratio_replicas_ideal [OF assms(4)] assms(1-3)
  by (simp add: GetExternalMetricReplicas_def Let_def split: if_splits flip: int_ratio_def)

text \<open>The additional replica does appear: 55 percent of the target on a hundred replicas asks for 56.\<close>

lemma rnd64_fifty_five: "rnd64 (11 / 20) = 2476979795053773 / 4503599627370496"
proof -
  have "rnd_pos (11 / 20) = of_int 4953959590107546 * 2 powi (- 53)"
    by (rule rnd_pos_eval [where e = "- 1"]) (simp_all add: power_int_minus)
  then show ?thesis by (simp add: rnd64_def power_int_minus)
qed

lemma rnd64_times_hundred: "rnd64 (61924494876344325 / 1125899906842624) = 7740561859543041 / 140737488355328"
proof -
  have "rnd_pos (61924494876344325 / 1125899906842624) = of_int 7740561859543041 * 2 powi (- 47)"
    by (rule rnd_pos_eval [where e = 5]) (simp_all add: power_int_minus)
  then show ?thesis by (simp add: rnd64_def power_int_minus)
qed

lemma ceiling_fifty_six: "\<lceil>7740561859543041 / 140737488355328 :: rat\<rceil> = 56"
  by (simp add: ceiling_eq_iff)

lemma one_replica_more: "scaled_count (int_ratio 550 1000) 100 = 56"
  by (simp add: ceiling_fifty_six int_ratio_def f64_eval f64_round_def rnd64_fifty_five rnd64_times_hundred scaled_count_def Let_def)

section \<open>Property\<close>

text \<open>A calculator whose object metric has the value 550, for a hundred replicas with the target 1000.\<close>

definition depth_ref :: CrossVersionObjectReference where
  "depth_ref = \<lparr>ref_Kind = ''Service'', ref_Name = ''queue'', ref_APIVersion = ''v1''\<rparr>"

definition depth_calc :: "unit ReplicaCalculator" where
  "depth_calc = \<lparr>GetResourceMetric = (\<lambda>_ _ _. State_Monad.return (Inl ''none'')),
     GetRawMetric = (\<lambda>_ _ _. State_Monad.return (Inl ''none'')),
     GetObjectMetric = (\<lambda>_ _ _. State_Monad.return (Inr (550, 7))),
     GetExternalMetric = (\<lambda>_ _ _. State_Monad.return (Inl ''none'')),
     ListPods = (\<lambda>_ _. State_Monad.return (Inr [])), LabelSelectorAsSelector = (\<lambda>_. Inr []),
     MilliValue = (\<lambda>q. word_of_int \<lceil>1000 * q\<rceil>), format_selector = (\<lambda>_. []), tolerance = defaultTolerance\<rparr>"

text \<open>C26. The float64 arithmetic of an object or external metric, told in integers: within the band from nine tenths of the
  target (inclusive) to eleven tenths (exclusive) the count stays; outside of it the proposal is the exact ceiling of
  usage times count over target, or, only when that quotient is a whole number, one replica more.\<close>

theorem metric_replicas_nearly_ideal:
  assumes "tolerance c = defaultTolerance" "moderate (sint load) (sint target) (sint cur)"
  shows "let exact = (if 9 * sint target \<le> 10 * sint load \<and> 10 * sint load < 11 * sint target then sint cur
                      else - ((- (sint load * sint cur)) div sint target));
       ok = (\<lambda>n. n = exact \<or> sint target dvd sint load * sint cur \<and> n = exact + 1)
     in (run_state (GetObjectMetric c name ns ref) w = (Inr (load, ts), w') \<longrightarrow>
         (\<exists>n. run_state (GetObjectMetricReplicas c cur target name ns ref) w = (Inr (n, load, ts), w') \<and> ok (sint n))) \<and>
        (LabelSelectorAsSelector c sel = Inr ls \<and> run_state (GetExternalMetric c name ns ls) w = (Inr (values, ts), w') \<and>
           sum_values values 0 = load \<longrightarrow>
         (\<exists>n. run_state (GetExternalMetricReplicas c cur target name ns sel) w = (Inr (n, load, ts), w') \<and> ok (sint n)))"
  using object_replicas_ideal [OF _ assms(1,2)] external_replicas_ideal [OF _ _ assms(1)] assms(2)
  unfolding nearly_ideal_def ideal_count_def ceil_div_def Let_def by blast

theorem metric_replicas_nearly_ideal_witness:
  "(\<exists>n. run_state (GetObjectMetricReplicas depth_calc 100 1000 ''depth'' ''prod'' depth_ref) () = (Inr (n, 550, 7), ()) \<and>
      (sint n = 55 \<or> sint n = 56)) \<and> sint (scaled_count (f64_div (f64_of_int 550) (f64_of_int 1000)) 100) = 56"
proof -
  have "tolerance depth_calc = defaultTolerance"
    "run_state (GetObjectMetric depth_calc ''depth'' ''prod'' depth_ref) () = (Inr (550, 7), ())"
    by (simp_all add: depth_calc_def)
  moreover have "moderate (sint (550 :: int64)) (sint (1000 :: int64)) (sint (100 :: int32))"
    by (simp add: moderate_def ceil_div_def)
  ultimately have "\<exists>n. run_state (GetObjectMetricReplicas depth_calc 100 1000 ''depth'' ''prod'' depth_ref) () = (Inr (n, 550, 7), ()) \<and>
      (sint n = 55 \<or> sint n = 56)"
    using metric_replicas_nearly_ideal [of depth_calc 550 1000 100 "''depth''" "''prod''" depth_ref "()" 7 "()", unfolded Let_def, THEN conjunct1]
    by simp
  then show ?thesis using one_replica_more by (simp add: int_ratio_def)
qed

end
