(* ===== verification/ObjectMetric.thy ===== *)
theory ObjectMetric
  imports Approach RatioAccuracy
begin

text \<open>
  The most common setting from end to end: a CHPA with one object metric.  The pieces are put together: what the
  calculator makes of the value in floats (theory RatioAccuracy), what the loop over the metrics makes of it, the
  reference of the reconciler, and the limits.

  Proved: the replica count the Deployment is left with, as a formula in integers.
\<close>

lemma nearly_ideal_nonneg: "moderate usage target cur \<Longrightarrow> nearly_ideal usage target cur p \<Longrightarrow> 0 \<le> p"
proof -
  assume m: "moderate usage target cur" and p: "nearly_ideal usage target cur p"
  have "0 \<le> ideal_count usage target cur"
  proof -
    have "(- (usage * cur)) div target \<le> 0" using m by (intro div_nonpos_pos_le0) (simp_all add: moderate_def)
    then show ?thesis using m by (simp add: ideal_count_def ceil_div_def moderate_def)
  qed
  then show "0 \<le> p" using p by (auto simp: nearly_ideal_def)
qed

text \<open>The calculation over a single object metric is the calculation of its count.\<close>

lemma compute_single_object:
  assumes "dep_Spec_Selector (c_deploy c) = Some sel" "LabelSelectorAsSelector (replicaCalc env) (Some sel) = Inr ls"
    "ms_Type m = ''Object''" "ms_Object m = Some src"
    "run_state (GetObjectMetricReplicas (replicaCalc env) (dep_Status_Replicas (c_deploy c)) (MilliValue (replicaCalc env) (oms_TargetValue src))
       (oms_MetricName src) (chpa_Namespace (c_chpa c)) (oms_Target src)) (c_ext c) = (Inr (n, load, ts), w)"
  shows "\<exists>r. fst (run_state (computeReplicasForMetrics env [m]) c) = Inr r \<and> mr_replicas r = n \<and> mr_timestamp r = ts"
proof -
  have "run_state (deployment_selector env) c = (Inr ls, c)"
    by (simp add: deployment_selector_def State_Monad.get_def assms(1,2))
  then show ?thesis
    by (simp add: compute_value State_Monad.get_def metric_proposal_def assms(3,4) object_proposal_def on_ext_def assms(5)
        with_proposal_def no_results_def)
qed

lemma metric_desire_count:
  assumes "0 \<le> sint (mr_replicas r)" "metric_desire now r = (demand, timestamp, name)"
  shows "demand = mr_replicas r" "timestamp = now \<or> timestamp = mr_timestamp r"
  using assms sint_eq_iff [of "mr_replicas r" 0] by (auto simp: metric_desire_def split: if_splits)

lemma object_metric_count:
  assumes run: "run_state (reconcileCHPA env) c = (res, c')" "writes (c_actions c) = []" "run_state (get_scale env) c = (now, c1)"
    and metric: "Metrics (Spec (c_chpa c)) = [m]" "ms_Type m = ''Object''" "ms_Object m = Some src"
      "dep_Spec_Selector (c_deploy c) = Some sel" "LabelSelectorAsSelector (replicaCalc env) (Some sel) = Inr ls"
    and usage: "run_state (GetObjectMetric (replicaCalc env) (oms_MetricName src) (chpa_Namespace (c_chpa c)) (oms_Target src)) (c_ext c1) =
      (Inr (load, ts), w)" "tolerance (replicaCalc env) = defaultTolerance"
      "moderate (sint load) (sint (MilliValue (replicaCalc env) (oms_TargetValue src))) (sint n)"
    and dep: "dep_Spec_Replicas (c_deploy c) = Some n" "dep_Status_Replicas (c_deploy c) = n"
    and spec: "sane_bounds (Spec (c_chpa c))" "growth (Spec (c_chpa c)) k" "within_bounds (Spec (c_chpa c)) n"
    and due: "windows_over (c_chpa c) now" "windows_over (c_chpa c) ts"
  shows "\<exists>p. nearly_ideal (sint load) (sint (MilliValue (replicaCalc env) (oms_TargetValue src))) (sint n) p \<and>
     sint (count_after n (writes (c_actions c'))) = max (lower_bound (Spec (c_chpa c)))
       (min (min (sint (MaxReplicas (Spec (c_chpa c)))) (max (k * sint n) (sint (ScaleUpLimitMinimum (Spec (c_chpa c)))))) p)"
proof -
  let ?t = "MilliValue (replicaCalc env) (oms_TargetValue src)"
  have q: "quiet c c1" using framesD [OF quiet_get_scale, of c env] run(3) by simp
  then have c1: "c_deploy c1 = c_deploy c" "chpa_Namespace (c_chpa c1) = chpa_Namespace (c_chpa c)"
    by (auto simp: quiet_def)
  obtain p where p: "run_state (GetObjectMetricReplicas (replicaCalc env) n ?t (oms_MetricName src) (chpa_Namespace (c_chpa c)) (oms_Target src)) (c_ext c1) =
      (Inr (p, load, ts), w)" "nearly_ideal (sint load) (sint ?t) (sint n) (sint p)"
    using object_replicas_ideal [OF usage] by blast
  obtain r where r: "fst (run_state (computeReplicasForMetrics env [m]) c1) = Inr r" "mr_replicas r = p" "mr_timestamp r = ts"
    using compute_single_object [of c1 sel env ls m src p load ts w] metric dep(2) p(1) by (auto simp: c1)
  obtain c2 where c2: "run_state (computeReplicasForMetrics env (Metrics (Spec (c_chpa c)))) c1 = (Inr r, c2)"
    using r(1) metric(1) by (metis prod.collapse)
  obtain demand timestamp name where d: "metric_desire now r = (demand, timestamp, name)" by (metis surj_pair)
  have "0 \<le> sint (mr_replicas r)" using nearly_ideal_nonneg [OF usage(3) p(2)] by (simp add: r(2))
  from metric_desire_count [OF this d] have "demand = p" "windows_over (c_chpa c) timestamp" using r(2,3) due by auto
  then have "count_after n (writes (c_actions c')) = normalized (c_chpa c) n p"
    using reconcile_count [OF dep run(2,1,3) c2 d _ spec(1,3)] by simp
  then show ?thesis using normalized_growth [OF spec, of p] p(2) by auto
qed

end
