(* ===== verification/TargetMetrics.thy ===== *)
theory TargetMetrics
  imports RatioAccuracy
begin

text \<open>
  A metric whose usage is exactly its target.  calculateResourceReplicas and calcPlainMetricReplicas both guess
  the metrics of the pods that have none, and they differ in the case of a usage ratio of one: the first leaves
  such pods out, the second counts them as idle.

  Proved: the resource metric keeps the count; the plain metric keeps it only while the pods without a metric
  are few, and otherwise proposes fewer replicas than there are pods.
\<close>

section \<open>The plain ratio, without overflow\<close>

lemma GetMetricUtilizationRatio_int:
  assumes "\<forall>e\<in>set m. 0 \<le> sint (snd e)" "sum_list (map (sint \<circ> snd) m) = s" "s < 2 ^ 63"
    "m \<noteq> []" "length m < 2 ^ 63"
  shows "GetMetricUtilizationRatio m t =
    Inr (int_ratio (s div int (length m)) (sint t), word_of_int (s div int (length m)))"
proof -
  let ?n = "int (length m)"
  define mt where "mt = sum_list (map snd m)"
  have s0: "0 \<le> s" unfolding assms(2) [symmetric] using assms(1) by (intro sum_list_nonneg) auto
  have s: "s < 9223372036854775808" using assms(3) by simp
  have total: "sum_list (map sint (map snd m)) = s" using assms(2) by (simp add: comp_def)
  have mt: "sint mt = s"
    using sint_sum_list64 [of "map snd m"] assms(1) s unfolding total mt_def by auto
  have k: "1 \<le> ?n" using assms(4) by (cases m) auto
  have n: "sint (of_nat (length m) :: int64) = ?n" by (rule sint_of_nat64 [OF assms(5)])
  have nz: "(of_nat (length m) :: int64) \<noteq> 0" using n k by (auto simp: sint_eq_iff)
  have q: "0 \<le> s div ?n" "s div ?n \<le> s" using zdiv_mono2 [of s 1 ?n] k s0 by (simp_all add: div_int_pos_iff)
  have "sint (word_of_int (s div ?n) :: int64) = s div ?n" using q s by (intro sint64_of_int) linarith+
  moreover have "div64 mt (of_nat (length m)) = Inr (word_of_int (s div ?n))"
    using nz mt n sdiv_nonneg [OF s0, of ?n] assms(4) by (simp add: div64_def)
  ultimately show ?thesis
    by (simp add: GetMetricUtilizationRatio_def metrics_total_eq int_ratio_def flip: mt_def)
qed

text \<open>Idle pods lengthen the map and leave its total alone.\<close>

lemma update_new: "k \<notin> fst ` set m \<Longrightarrow> AList.update k v m = m @ [(k, v)]"
  by (induction m) auto

lemma set_metrics_new:
  assumes "distinct names" "set names \<inter> fst ` set m = {}"
  shows "set_metrics names f m = m @ map (\<lambda>p. (p, f p)) names"
  using assms
proof (induction names arbitrary: m)
  case (Cons p names)
  then have "set names \<inter> fst ` set (m @ [(p, f p)]) = {}" by auto
  with Cons show ?case by (simp add: update_new)
qed simp

lemma sum_idle: "sum_list (map (sint \<circ> snd) (m @ map (\<lambda>p. (p, 0 :: int64)) names)) = sum_list (map (sint \<circ> snd) m)"
  by (induction names) simp_all

section \<open>A single missing pod\<close>

text \<open>Outside the tolerance one missing pod is one of at most nine.  There the rounded product does not exceed
  the number of the others.\<close>

lemma rnd64_times_5: "rnd64 (18014398509481985 / 4503599627370496) = 4"
proof -
  have "rnd_pos (18014398509481985 / 4503599627370496) = of_int 4503599627370496 * 2 powi (- 50)"
    by (rule rnd_pos_eval [where e = 2]) (simp_all add: power_int_minus)
  then show ?thesis by (simp add: rnd64_def power_int_minus)
qed

lemma rnd64_times_6: "rnd64 (22517998136852481 / 4503599627370496) = 5"
proof -
  have "rnd_pos (22517998136852481 / 4503599627370496) = of_int 5629499534213120 * 2 powi (- 50)"
    by (rule rnd_pos_eval [where e = 2]) (simp_all add: power_int_minus)
  then show ?thesis by (simp add: rnd64_def power_int_minus)
qed

lemma rnd64_ninths:
  "rnd64 (1 / 2) = 1 / 2" "rnd64 (2 / 3) = 6004799503160661 / 9007199254740992" "rnd64 (3 / 4) = 3 / 4"
  "rnd64 (4 / 5) = 3602879701896397 / 4503599627370496" "rnd64 (5 / 6) = 7505999378950827 / 9007199254740992"
  "rnd64 (6 / 7) = 7720456504063707 / 9007199254740992" "rnd64 (7 / 8) = 7 / 8"
  "rnd64 (8 / 9) = 2001599834386887 / 2251799813685248"
proof -
  have r: "rnd64 q = of_int m / 9007199254740992"
    if "1 / 2 \<le> q" "q < 1" "of_int m - 1 / 2 < q * 9007199254740992" "q * 9007199254740992 < of_int m + 1 / 2" for q :: rat and m
  proof -
    have "rnd_pos q = of_int m * 2 powi (- 53)"
      by (rule rnd_pos_eval [where e = "- 1"]) (use that in \<open>simp_all add: power_int_minus\<close>)
    then show ?thesis using that(1) by (simp add: rnd64_def power_int_minus)
  qed
  show "rnd64 (1 / 2) = 1 / 2" using r [of "1 / 2" 4503599627370496] by simp
  show "rnd64 (2 / 3) = 6004799503160661 / 9007199254740992" using r [of "2 / 3" 6004799503160661] by simp
  show "rnd64 (3 / 4) = 3 / 4" using r [of "3 / 4" 6755399441055744] by simp
  show "rnd64 (4 / 5) = 3602879701896397 / 4503599627370496" using r [of "4 / 5" 7205759403792794] by simp
  show "rnd64 (5 / 6) = 7505999378950827 / 9007199254740992" using r [of "5 / 6" 7505999378950827] by simp
  show "rnd64 (6 / 7) = 7720456504063707 / 9007199254740992" using r [of "6 / 7" 7720456504063707] by simp
  show "rnd64 (7 / 8) = 7 / 8" using r [of "7 / 8" 7881299347898368] by simp
  show "rnd64 (8 / 9) = 2001599834386887 / 2251799813685248" using r [of "8 / 9" 8006399337547548] by simp
qed

lemma one_missing_pod:
  assumes "1 \<le> k" "k \<le> 8"
  shows "rnd64 (rnd64 (of_int k / of_int (k + 1)) * of_int (k + 1)) \<le> of_int k"
proof -
  have le: "rnd64 x \<le> of_int k" if "x \<le> of_int k" for x using rnd64.le_int [OF _ that] assms by simp
  consider "k = 4" | "k = 5" | "k \<in> {1, 2, 3, 6, 7, 8}" using assms by force
  then show ?thesis
  proof cases
    case 3
    then show ?thesis by (intro le) (auto simp: rnd64_ninths)
  qed (simp_all add: rnd64_ninths rnd64_times_5 rnd64_times_6)
qed

section \<open>Plain metrics at their target\<close>

lemma int_ratio_one:
  assumes "0 < t" "t \<le> 2 ^ 53"
  shows "f64_finite (int_ratio t t)" "f64_val (int_ratio t t) = 1" "\<not> f64_of_int 1 < int_ratio t t" "\<not> int_ratio t t < f64_of_int 1"
proof -
  show f: "f64_finite (int_ratio t t)" using int_ratio_rounded(1) [of t t] assms by simp
  have "rnd64 1 = 1" using rnd64_exact [of 1 0] by simp
  then show v: "f64_val (int_ratio t t) = 1" using int_ratio_rounded(2) [of t t] assms by simp
  show "\<not> f64_of_int 1 < int_ratio t t" "\<not> int_ratio t t < f64_of_int 1"
    using f v by (simp_all add: one_less less_one)
qed

text \<open>The count proposed for \<open>k\<close> pods at the target and \<open>d\<close> idle ones, outside the tolerance.\<close>

lemma idle_pods_count:
  assumes "1 \<le> k" "1 \<le> d" "0 < t" "(k + d) * t < 2 ^ 49" "k + d < 2 ^ 31 - 1"
  defines "u \<equiv> k * t div (k + d)"
  defines "n \<equiv> sint (scaled_count (int_ratio u t) (k + d))"
  assumes out: "10 * u < 9 * t"
  shows "n = ceil_div (u * (k + d)) t \<or> t dvd u * (k + d) \<and> n = ceil_div (u * (k + d)) t + 1" "n < k + d"
proof -
  have "0 \<le> k * t mod (k + d)" using assms(1,2) by simp
  then have u0: "0 \<le> u" and ut: "u * (k + d) \<le> k * t"
    using assms(1-3) div_mult_mod_eq [of "k * t" "k + d"] unfolding u_def by (simp add: div_int_pos_iff, linarith)
  have kt: "k * t < (k + d) * t" using assms(2,3) by (simp add: distrib_right)
  have "t * 1 \<le> t * (k + d)" using assms(1-3) by (intro mult_left_mono) simp_all
  then have t: "t \<le> 2 ^ 53" using assms(4) by (simp add: mult.commute)
  have "u \<le> 2 ^ 53" using out t assms(3) by linarith
  have c: "ceil_div (u * (k + d)) t \<le> k"
  proof (rule ccontr)
    assume "\<not> ceil_div (u * (k + d)) t \<le> k"
    then have "k * t \<le> (ceil_div (u * (k + d)) t - 1) * t" using assms(3) by (intro mult_right_mono) simp_all
    then show False using ceil_div_bounds(1) [OF assms(3), of "u * (k + d)"] ut by linarith
  qed
  show n: "n = ceil_div (u * (k + d)) t \<or> t dvd u * (k + d) \<and> n = ceil_div (u * (k + d)) t + 1"
    unfolding n_def
  proof (rule scaled_count_exact [OF u0 \<open>u \<le> 2 ^ 53\<close> assms(3) t])
    show "0 \<le> k + d" "k + d \<le> 2 ^ 53" using assms(1,2,5) by simp_all
    have "(2 :: int) ^ 49 < 2 ^ 51" by simp
    then show "u * (k + d) < 2 ^ 51" using ut kt assms(4) by linarith
    show "ceil_div (u * (k + d)) t < 2 ^ 31 - 1" using c assms(2,5) by linarith
  qed
  show "n < k + d"
  proof (cases "u * (k + d) = k * t \<and> d = 1")
    case False
    have "n \<le> k" if "d = 1"
    proof (rule ccontr)
      assume "\<not> n \<le> k"
      then have "t dvd u * (k + d)" "ceil_div (u * (k + d)) t = k" using n c by auto
      then obtain q where q: "u * (k + d) = q * t" and "ceil_div (q * t) t = k" by (metis dvdE mult.commute)
      moreover have "ceil_div (q * t) t = q" using assms(3) by (simp add: ceil_div_def flip: mult_minus_left)
      ultimately show False using False that by simp
    qed
    then show ?thesis using n c assms(2) by (cases "d = 1") auto
  next
    case True
    then have kt1: "u * (k + 1) = k * t" by metis
    then have "of_int (u * (k + 1)) = (of_int (k * t) :: rat)" by (simp only:)
    moreover have "of_int (k + 1) \<noteq> (0 :: rat)" using assms(1) by (simp only: of_int_eq_0_iff)
    ultimately have q: "of_int u / of_int t = (of_int k / of_int (k + 1) :: rat)"
      using assms(3) by (simp add: frac_eq_eq)
    have "10 * u * (k + 1) < 9 * t * (k + 1)" using out assms(1) by (intro mult_strict_right_mono) simp_all
    also have "10 * u * (k + 1) = t * (10 * k)" using arg_cong [OF kt1, of "(*) 10"] by (simp only: mult.commute mult.left_commute)
    also have "9 * t * (k + 1) = t * (9 * (k + 1))" by simp
    finally have "k \<le> 8" using assms(3) by (simp add: mult_less_cancel_left)
    from one_missing_pod [OF assms(1) this]
    have "\<lceil>rnd64 (f64_val (int_ratio u t) * of_int (k + d))\<rceil> \<le> k"
      using int_ratio_rounded(2) [OF u0 \<open>u \<le> 2 ^ 53\<close> assms(3) t] True q by (simp add: ceiling_le_iff)
    then have "n \<le> k"
      unfolding n_def using scaled_count_cases [of "int_ratio u t" "k + d"]
        int_ratio_rounded [OF u0 \<open>u \<le> 2 ^ 53\<close> assms(3) t] assms(1,2,5) by auto
    then show ?thesis using assms(2) by simp
  qed
qed

lemma plain_at_target:
  fixes t :: int64
  assumes "\<forall>e\<in>set (pg_metrics g). 0 \<le> sint (snd e)" "sum_list (map (sint \<circ> snd) (pg_metrics g)) = k * sint t"
    "k = int (length (pg_metrics g))" "d = int (length (pg_missingPods g))" "1 \<le> k" "1 \<le> d"
    "distinct (pg_missingPods g)" "set (pg_missingPods g) \<inter> fst ` set (pg_metrics g) = {}"
    "0 < sint t" "(k + d) * sint t < 2 ^ 49" "k + d < 2 ^ 31 - 1"
  defines "u \<equiv> k * sint t div (k + d)"
  shows "plain_replicas defaultTolerance cur t g =
     Inr (if 9 * sint t \<le> 10 * u then cur else scaled_count (int_ratio u (sint t)) (k + d), t)"
proof -
  let ?m = "plain_fill g t (int_ratio (sint t) (sint t)) False"
  have kt: "k * sint t < (k + d) * sint t" "0 \<le> k * sint t" using assms(5,6,9) by (simp_all add: distrib_right)
  have "sint t * 1 \<le> sint t * (k + d)" using assms(5,6,9) by (intro mult_left_mono) simp_all
  also have "\<dots> < 2 ^ 49" using assms(10) by (simp add: mult.commute)
  finally have t: "sint t \<le> 2 ^ 53" by simp
  note one = int_ratio_one [OF assms(9) t]
  have ne: "pg_metrics g \<noteq> []" "pg_missingPods g \<noteq> []" using assms(3-6) by auto
  have m: "?m = pg_metrics g @ map (\<lambda>p. (p, 0)) (pg_missingPods g)"
    using one(4) ne(2) by (simp add: plain_fill_def set_metrics_new [OF assms(7,8)])
  then have len: "int (length ?m) = k + d" using assms(3,4) by simp
  have q: "k * sint t div k = sint t" using assms(5) by simp
  have "k * sint t < 2 ^ 63" "length (pg_metrics g) < 2 ^ 63" using kt assms(3,6,10,11) by simp_all
  then have r1: "GetMetricUtilizationRatio (pg_metrics g) t = Inr (int_ratio (sint t) (sint t), t)"
    using GetMetricUtilizationRatio_int [OF assms(1,2) _ ne(1), of t]
    unfolding assms(3) [symmetric] q by (simp add: sint_eq_iff sint64_of_int sint64_range)
  have "(2 :: int) ^ 49 < 2 ^ 63" by simp
  then have "k * sint t < 2 ^ 63" using kt assms(10) by linarith
  moreover have "\<forall>e\<in>set ?m. 0 \<le> sint (snd e)" using assms(1) m by auto
  moreover have "sum_list (map (sint \<circ> snd) ?m) = k * sint t" unfolding m sum_idle assms(2) ..
  moreover have "?m \<noteq> []" "length ?m < 2 ^ 63" using m ne len assms(11) by simp_all
  ultimately have r2: "GetMetricUtilizationRatio ?m t = Inr (int_ratio u (sint t), word_of_int u)"
    using GetMetricUtilizationRatio_int [of ?m "k * sint t" t] len by (simp add: u_def)
  have u: "0 \<le> u" "u \<le> sint t"
  proof -
    show "0 \<le> u" using kt assms(5,6) by (simp add: u_def div_int_pos_iff)
    have "u \<le> (k + d) * sint t div (k + d)" unfolding u_def using kt(1) assms(5,6) by (intro zdiv_mono1) simp_all
    then show "u \<le> sint t" using assms(5,6) by simp
  qed
  have "sint t \<le> 2 ^ 48"
  proof -
    have "sint t * 2 \<le> sint t * (k + d)" using assms(5,6,9) by (intro mult_left_mono) simp_all
    also have "\<dots> < 2 ^ 49" using assms(10) by (simp add: mult.commute)
    finally show ?thesis by simp
  qed
  then have "within_tolerance defaultTolerance (int_ratio u (sint t)) \<longleftrightarrow> 9 * sint t \<le> 10 * u"
    using default_band [of u "sint t"] u t assms(9) by simp
  then show ?thesis
    unfolding plain_replicas_def r1 using one(3,4) ne r2 len by (simp add: Let_def)
qed

section \<open>The pods behind the groups\<close>

definition serving :: "Pod \<Rightarrow> bool" where
  "serving pod \<longleftrightarrow> pod_Phase pod = ''Running'' \<and> IsPodReady pod"

lemma plain_pod_loop_serving:
  assumes "\<forall>pod\<in>set pods. serving pod" "distinct (pg_missingPods g)"
  shows "pg_metrics (plain_pod_loop pods g) = pg_metrics g \<and>
    distinct (pg_missingPods (plain_pod_loop pods g)) \<and>
    set (pg_missingPods (plain_pod_loop pods g)) =
      set (pg_missingPods g) \<union> (pod_Name ` set pods - fst ` set (pg_metrics g))"
  using assms
proof (induction pods g rule: plain_pod_loop.induct)
  case (2 pod pods g)
  have step: "distinct (pg_missingPods (plain_pod_step pod g))" "pg_metrics (plain_pod_step pod g) = pg_metrics g"
    using "2.prems" by (auto simp: serving_def plain_pod_step_def)
  have "set (pg_missingPods (plain_pod_step pod g)) = set (pg_missingPods g) \<union> ({pod_Name pod} - fst ` set (pg_metrics g))"
    using "2.prems" by (auto simp: serving_def plain_pod_step_def map_of_eq_None_iff)
  then show ?case using "2.IH" [OF _ step(1)] "2.prems"(1) step(2) by auto
qed auto

lemma plain_calc_at_target:
  fixes t :: int64
  assumes "\<forall>pod\<in>set pods. serving pod" "distinct (map pod_Name pods)" "wf_map m" "fst ` set m \<subseteq> pod_Name ` set pods"
    "\<forall>e\<in>set m. 0 \<le> sint (snd e)" "sum_list (map (sint \<circ> snd) m) = k * sint t"
    "k = int (length m)" "n = int (length pods)" "1 \<le> k" "k < n" "0 < sint t" "n * sint t < 2 ^ 49" "n < 2 ^ 31 - 1"
  defines "u \<equiv> k * sint t div n"
  shows "plain_calc defaultTolerance cur t pods m =
     Inr (if 9 * sint t \<le> 10 * u then cur else scaled_count (int_ratio u (sint t)) n, t)"
proof -
  let ?g = "plain_pod_loop pods (no_groups m)"
  have loop: "pg_metrics ?g = m" "distinct (pg_missingPods ?g)"
    "set (pg_missingPods ?g) = pod_Name ` set pods - fst ` set m"
    using plain_pod_loop_serving [OF assms(1), of "no_groups m"] by (simp_all add: no_groups_def)
  have "card (pod_Name ` set pods) = length pods" using distinct_card [OF assms(2)] by simp
  moreover have "card (fst ` set m) = length m" using distinct_card [of "map fst m"] assms(3) by (simp add: wf_map_def)
  moreover have "length (pg_missingPods ?g) = card (pod_Name ` set pods - fst ` set m)"
    using distinct_card [OF loop(2)] loop(3) by simp
  ultimately have d: "int (length (pg_missingPods ?g)) = n - k"
    using card_Diff_subset [OF _ assms(4)] card_mono [OF _ assms(4)] assms(7,8) by (simp add: of_nat_diff)
  have "pods \<noteq> []" using assms(8-10) by auto
  then have "plain_calc defaultTolerance cur t pods m = plain_replicas defaultTolerance cur t ?g" by (simp add: plain_calc_def)
  also have "\<dots> = Inr (if 9 * sint t \<le> 10 * u then cur else scaled_count (int_ratio u (sint t)) n, t)"
    using plain_at_target [of ?g k t "n - k" cur] assms(5-13) loop d Diff_disjoint unfolding u_def by (simp add: Int_commute)
  finally show ?thesis .
qed

section \<open>Property\<close>

text \<open>C37. A metric exactly at its target, with pods that have no metric.  A resource metric keeps the current count,
  whatever the groups of pods are.  A plain metric, on \<open>n\<close> serving pods of which \<open>k < n\<close> have a metric and these
  average the target exactly, counts the others as idle: while the truncated average over all \<open>n\<close> is at least nine
  tenths of the target (one missing pod of ten) the current count is kept, but below that the proposal is smaller
  than the number of pods, namely the exact ceiling of that average times \<open>n\<close> over the target, or one more where the
  quotient is whole.  The bounds on \<open>n\<close> keep the sums inside the exact range of the floats.\<close>

theorem metrics_at_target:
  shows "(GetResourceUtilizationRatio (pg_metrics g) (pg_requests g) p = Inr (r, v, raw) \<and> f64_finite r \<and> f64_val r = 1 \<and>
       pg_metrics g \<noteq> [] \<and> f64_finite tol \<and> 0 \<le> f64_val tol \<longrightarrow>
       resource_replicas tol cur p g = Inr (cur, v, raw)) \<and>
    ((\<forall>pod\<in>set pods. pod_Phase pod = ''Running'' \<and> IsPodReady pod) \<and> distinct (map pod_Name pods) \<and> distinct (map fst m) \<and>
       fst ` set m \<subseteq> pod_Name ` set pods \<and> (\<forall>e\<in>set m. 0 \<le> sint (snd e)) \<and> k = int (length m) \<and> n = int (length pods) \<and>
       sum_list (map (sint \<circ> snd) m) = k * sint t \<and> 1 \<le> k \<and> k < n \<and> 0 < sint t \<and> n * sint t < 2 ^ 49 \<and> n < 2 ^ 31 - 1 \<longrightarrow>
     (let average = k * sint t div n; ceiling = - ((- (average * n)) div sint t) in
      \<exists>count. plain_calc defaultTolerance cur t pods m = Inr (count, t) \<and>
        (if 9 * sint t \<le> 10 * average then count = cur
         else sint count < n \<and> (sint count = ceiling \<or> sint t dvd average * n \<and> sint count = ceiling + 1))))"
proof (intro conjI impI)
  assume a: "(\<forall>pod\<in>set pods. pod_Phase pod = ''Running'' \<and> IsPodReady pod) \<and> distinct (map pod_Name pods) \<and> distinct (map fst m) \<and>
       fst ` set m \<subseteq> pod_Name ` set pods \<and> (\<forall>e\<in>set m. 0 \<le> sint (snd e)) \<and> k = int (length m) \<and> n = int (length pods) \<and>
       sum_list (map (sint \<circ> snd) m) = k * sint t \<and> 1 \<le> k \<and> k < n \<and> 0 < sint t \<and> n * sint t < 2 ^ 49 \<and> n < 2 ^ 31 - 1"
  let ?u = "k * sint t div n"
  from a have "plain_calc defaultTolerance cur t pods m =
     Inr (if 9 * sint t \<le> 10 * ?u then cur else scaled_count (int_ratio ?u (sint t)) n, t)"
    using plain_calc_at_target [of pods m k t n cur] unfolding serving_def wf_map_def by blast
  moreover from a have ar: "1 \<le> k" "1 \<le> n - k" "0 < sint t" "(k + (n - k)) * sint t < 2 ^ 49" "k + (n - k) < 2 ^ 31 - 1"
    by auto
  have "sint c < n \<and> (sint c = ceil_div (?u * n) (sint t) \<or> sint t dvd ?u * n \<and> sint c = ceil_div (?u * n) (sint t) + 1)"
    if "\<not> 9 * sint t \<le> 10 * ?u" "c = scaled_count (int_ratio ?u (sint t)) n" for c
    using idle_pods_count [OF ar] that by simp
  ultimately show "let average = k * sint t div n; ceiling = - ((- (average * n)) div sint t) in
      \<exists>count. plain_calc defaultTolerance cur t pods m = Inr (count, t) \<and>
        (if 9 * sint t \<le> 10 * average then count = cur
         else sint count < n \<and> (sint count = ceiling \<or> sint t dvd average * n \<and> sint count = ceiling + 1))"
    unfolding Let_def ceil_div_def by auto
qed (use resource_at_target_keeps_count in blast)

text \<open>One of two resource pods without a metric: the count stays at two.  One of two plain pods: it falls to one.\<close>

definition at_target_pod :: "string \<Rightarrow> Pod" where
  "at_target_pod name = \<lparr>pod_Name = name, pod_Phase = ''Running'',
     pod_Conditions = [\<lparr>pc_Type = ''Ready'', pc_Status = ''True''\<rparr>], pod_Containers = []\<rparr>"

theorem metrics_at_target_witness:
  "resource_replicas defaultTolerance 2 50 \<lparr>pg_metrics = [(''a'', 5)], pg_requests = [(''a'', 10), (''b'', 10)],
     pg_readyPodCount = 1, pg_unreadyPods = [], pg_missingPods = [''b'']\<rparr> = Inr (2, 50, 5) \<and>
   (\<exists>count. plain_calc defaultTolerance 2 10 [at_target_pod ''a'', at_target_pod ''b''] [(''a'', 10)] = Inr (count, 10) \<and> sint count = 1)"
proof (rule conjI)
  show "resource_replicas defaultTolerance 2 50 \<lparr>pg_metrics = [(''a'', 5)], pg_requests = [(''a'', 10), (''b'', 10)],
     pg_readyPodCount = 1, pg_unreadyPods = [], pg_missingPods = [''b'']\<rparr> = Inr (2, 50, 5)"
    by (rule metrics_at_target [where r = "F_Num 1", THEN conjunct1, THEN mp])
       (simp add: GetResourceUtilizationRatio_def div64_def Let_def int32_of_int64_def f64_eval signed_divide_int_def
         defaultTolerance_eq)
  show "\<exists>count. plain_calc defaultTolerance 2 10 [at_target_pod ''a'', at_target_pod ''b''] [(''a'', 10)] = Inr (count, 10) \<and> sint count = 1"
    using metrics_at_target [where cur = 2 and pods = "[at_target_pod ''a'', at_target_pod ''b'']" and m = "[(''a'', 10)]"
        and k = 1 and n = 2 and t = 10, THEN conjunct2]
    by (auto simp: at_target_pod_def IsPodReady_def Let_def)
qed

end
