(* ===== verification/StatusShape.thy ===== *)
theory StatusShape
  imports EntryPoint
begin

text \<open>
  The shape of a status the controller writes: every condition is one of the vocabulary (type, status and
  reason, as the theory ControllerFacts lists them), and no type occurs twice, so that there are at
  most three.

  Proved: a call of \<open>Reconcile\<close> that reads a CHPA of that shape writes one of that shape; a fresh CHPA has it.
\<close>

definition documented :: "Condition \<Rightarrow> bool" where
  "documented e \<longleftrightarrow> vocabulary (cond_Type e) (cond_Status e) (cond_Reason e)"

definition well_shaped :: "Condition list \<Rightarrow> bool" where
  "well_shaped cs \<longleftrightarrow> distinct (map cond_Type cs) \<and> list_all documented cs"

lemma vocabulary_types: "vocabulary t st r \<Longrightarrow> t \<in> {''AbleToScale'', ''ScalingActive'', ''ScalingLimited''} \<and> st \<in> {''True'', ''False''}"
  by (induction rule: vocabulary.induct) simp_all

lemma well_shaped_length:
  assumes "well_shaped cs"
  shows "length cs \<le> 3"
proof -
  have "set (map cond_Type cs) \<subseteq> {''AbleToScale'', ''ScalingActive'', ''ScalingLimited''}"
    using assms vocabulary_types by (fastforce simp: well_shaped_def list_all_iff documented_def)
  then have "card (set (map cond_Type cs)) \<le> card {''AbleToScale'', ''ScalingActive'', ''ScalingLimited''}"
    by (intro card_mono) simp_all
  moreover have "card (set (map cond_Type cs)) = length cs"
    using assms distinct_card [of "map cond_Type cs"] by (simp add: well_shaped_def)
  ultimately show ?thesis by simp
qed

text \<open>Setting a condition of the vocabulary keeps the shape.\<close>

lemma in_set_update: "x \<in> set (xs[i := y]) \<Longrightarrow> x = y \<or> x \<in> set xs"
  using set_update_subset_insert [of xs i y] by blast

lemma setConditionInList_shape:
  assumes "well_shaped cs" "vocabulary t st r"
  shows "well_shaped (fst (run_state (setConditionInList now cs t st r m) s))"
proof -
  let ?cs = "fst (run_state (setConditionInList now cs t st r m) s)"
  have "list_all documented ?cs"
  proof (cases "find_condition cs t")
    case None
    then show ?thesis using assms by (simp add: setConditionInList_absent well_shaped_def documented_def)
  next
    case (Some i)
    with find_condition_Some [OF Some] have "cond_Type (cs ! i) = t" by simp
    then show ?thesis
      using assms by (auto simp: setConditionInList_present [OF Some] well_shaped_def documented_def list_all_iff dest!: in_set_update)
  qed
  moreover have "distinct (map cond_Type ?cs)" by (rule setConditionInList_distinct) (use assms(1) in \<open>simp add: well_shaped_def\<close>)
  ultimately show ?thesis by (simp add: well_shaped_def)
qed

section \<open>Along a run\<close>

fun first_update :: "action list \<Rightarrow> CHPA option" where
  "first_update [] = None"
| "first_update (UpdateCHPA x # as) = Some x"
| "first_update (a # as) = first_update as"

lemma first_update_append: "first_update (as @ bs) = (case first_update as of None \<Rightarrow> first_update bs | Some x \<Rightarrow> Some x)"
  by (induction as rule: first_update.induct) simp_all

text \<open>Up to the first update of the CHPA the conditions in memory keep their shape, and so has it what is written.\<close>

definition shaped :: "'w ctx \<Rightarrow> 'w ctx \<Rightarrow> bool" where
  "shaped c c' \<longleftrightarrow> (\<exists>as. c_actions c' = c_actions c @ as \<and>
     (well_shaped (Conditions (Status (c_chpa c))) \<longrightarrow>
        well_shaped (Conditions (Status (case first_update as of None \<Rightarrow> c_chpa c' | Some x \<Rightarrow> x)))))"

lemma shaped_same:
  "c_actions c' = c_actions c @ as \<Longrightarrow> first_update as = None \<Longrightarrow> Conditions (Status (c_chpa c')) = Conditions (Status (c_chpa c)) \<Longrightarrow>
   shaped c c'"
  by (auto simp: shaped_def)

lemma shaped_refl: "shaped c c"
  by (rule shaped_same [of _ _ "[]"]) simp_all

lemma shaped_trans:
  assumes "shaped c c'" "shaped c' c''"
  shows "shaped c c''"
proof -
  obtain as bs where "c_actions c' = c_actions c @ as" "c_actions c'' = c_actions c' @ bs"
    "well_shaped (Conditions (Status (c_chpa c))) \<longrightarrow>
        well_shaped (Conditions (Status (case first_update as of None \<Rightarrow> c_chpa c' | Some x \<Rightarrow> x)))"
    "well_shaped (Conditions (Status (c_chpa c'))) \<longrightarrow>
        well_shaped (Conditions (Status (case first_update bs of None \<Rightarrow> c_chpa c'' | Some x \<Rightarrow> x)))"
    using assms unfolding shaped_def by blast
  then show ?thesis
    unfolding shaped_def by (intro exI [of _ "as @ bs"]) (auto simp: first_update_append split: option.splits)
qed

lemma shaped_frame: "frame shaped"
  by unfold_locales (auto intro: shaped_refl shaped_trans)

lemma setCondition_shaped:
  assumes "vocabulary t st r"
  shows "frames shaped (setCondition env t st r m)"
proof (rule framesI)
  fix c :: "'a ctx"
  let ?m = "setConditionInList (on_ext (time_now env)) (Conditions (Status (c_chpa c))) t st r m"
  have "frame (\<lambda>(c :: 'a ctx) c'. c_actions c' = c_actions c \<and> c_chpa c' = c_chpa c)" by unfold_locales auto
  moreover have "frames (\<lambda>(c :: 'a ctx) c'. c_actions c' = c_actions c \<and> c_chpa c' = c_chpa c) (on_ext (time_now env))"
    by (rule framesI, unfold wp_on_ext) (simp add: wp_def)
  ultimately have "frames (\<lambda>c c'. c_actions c' = c_actions c \<and> c_chpa c' = c_chpa c) ?m"
    unfolding setConditionInList_def Let_def by (intro frame.intros)
  moreover have "wp ?m (\<lambda>cs _. well_shaped (Conditions (Status (c_chpa c))) \<longrightarrow> well_shaped cs) c"
    using setConditionInList_shape [OF _ assms] by (auto simp: wp_def)
  ultimately have "wp ?m (\<lambda>cs c'. (c_actions c' = c_actions c \<and> c_chpa c' = c_chpa c) \<and>
      (well_shaped (Conditions (Status (c_chpa c))) \<longrightarrow> well_shaped cs)) c"
    unfolding frames_def wp_def by auto
  then show "wp (setCondition env t st r m) (\<lambda>_. shaped c) c"
    unfolding setCondition_def wp_simps
    by (rule wp_mono) (auto simp: wp_simps shaped_def intro!: exI [of _ "[]"])
qed

lemma shaped_steps: "steps (\<lambda>_ _. True) shaped env"
proof unfold_locales
  fix c c' c'' :: "'a ctx"
  show "reads_keep (\<lambda>_ _. True) env" by (simp add: reads_keep_def frames_def)
  show "shaped c c" by (rule shaped_refl)
  show "shaped c c' \<Longrightarrow> shaped c' c'' \<Longrightarrow> shaped c c''" by (rule shaped_trans)
  show "shaped c (c\<lparr>c_ext := w\<rparr>)" for w by (rule shaped_same [of _ _ "[]"]) simp_all
  show "shaped c (c\<lparr>c_actions := c_actions c @ [Event t r m]\<rparr>)" for t r m by (rule shaped_same [of _ _ "[Event t r m]"]) simp_all
qed (simp_all add: setCondition_shaped)

lemma shaped_on_ext: "frames shaped (on_ext m)"
  by (rule steps.step_on_ext [OF shaped_steps]) (simp add: frames_def)

lemma shaped_update: "frames shaped (updateStatusIfNeeded env old)"
proof (rule framesI)
  fix c :: "'a ctx"
  have "shaped c (c\<lparr>c_actions := c_actions c @ [UpdateCHPA (c_chpa c)], c_ext := w, c_chpa := y\<rparr>)" for w y
    unfolding shaped_def by (intro exI [of _ "[UpdateCHPA (c_chpa c)]"]) simp
  then show "wp (updateStatusIfNeeded env old) (\<lambda>_. shaped c) c"
    unfolding wp_updateStatusIfNeeded by (simp add: shaped_refl wp_def)
qed

lemma shaped_setStatus: "frames shaped (setStatus env cur des ms b)"
proof -
  have m: "frames shaped (modify_status f)" if "\<And>s. Conditions (f s) = Conditions s" for f :: "CHPAStatus \<Rightarrow> CHPAStatus"
    by (rule framesI) (simp add: wp_simps shaped_same [of _ _ "[]"] that)
  show ?thesis unfolding setStatus_def by (intro frame.intros [OF shaped_frame] shaped_on_ext m) simp_all
qed

lemma shaped_setCurrent: "frames shaped (setCurrentReplicasInStatus env cur)"
  unfolding setCurrentReplicasInStatus_def by (intro frame.intros [OF shaped_frame] shaped_setStatus)

lemma shaped_rescale: "frames shaped (rescale_deployment env n)"
proof -
  have "frames shaped (act (UpdateDeployment d))" for d :: Deployment
    by (rule framesI) (simp add: wp_simps shaped_same [of _ _ "[UpdateDeployment d]"])
  moreover have "frames shaped (set_deploy_replicas n)"
    by (rule framesI) (simp add: wp_simps shaped_same [of _ _ "[]"])
  ultimately show ?thesis unfolding rescale_deployment_def by (intro frame.intros [OF shaped_frame] shaped_on_ext)
qed

lemma shaped_body: "frames shaped (reconcileCHPA env)"
proof -
  note steps = shaped_steps [of env]
  note s = steps.step_intros [OF steps] steps.step_compute [OF steps] steps.step_normalize [OF steps] shaped_on_ext
    steps.step_backoff [OF steps] steps.step_failed_update [OF steps] shaped_update shaped_setStatus shaped_setCurrent shaped_rescale
  show ?thesis
    unfolding reconcileCHPA_def reconcile_body_def decide_def metrics_decision_def apply_decision_def finish_status_def Let_def
    by (intro s)
qed

lemma shaped_process: "frames shaped (process_deployment env)"
proof -
  note steps = shaped_steps [of env]
  have "frames shaped (State_Monad.update (\<lambda>c. c\<lparr>c_deploy := d\<rparr>))" for d
    by (rule framesI) (simp add: wp_simps shaped_same [of _ _ "[]"])
  then show ?thesis
    unfolding process_deployment_def by (intro steps.step_intros [OF steps] shaped_on_ext shaped_body)
qed

text \<open>There is at most one update of the CHPA, so the first is any.\<close>

lemma first_update_writes: "first_update (writes as) = first_update as"
  by (induction as rule: first_update.induct) simp_all

lemma permitted_first_update:
  "permitted P env chpa dep ws \<Longrightarrow> UpdateCHPA x \<in> set ws \<Longrightarrow> first_update ws = Some x"
  by (auto simp: permitted_def)

lemma Reconcile_shape:
  assumes run: "run_state (Reconcile env ns name) c = (out, c')" and c: "c_actions c = []"
    and x0: "fst (run_state (get_chpa env ns name) (c_ext c)) = Inr x0" "well_shaped (Conditions (Status x0))"
    and x: "UpdateCHPA x \<in> set (c_actions c')"
  shows "well_shaped (Conditions (Status x))"
proof -
  obtain w where r: "run_state (get_chpa env ns name) (c_ext c) = (Inr x0, w)" using x0(1) by (metis prod.collapse)
  have bind: "wp (on_ext (get_chpa env ns name)) K c = K (Inr x0) (c\<lparr>c_ext := w\<rparr>)" for K
    unfolding wp_on_ext by (simp add: wp_def r)
  let ?c1 = "c\<lparr>c_ext := w, c_chpa := setCHPADefaults x0\<rparr>"
  note steps = shaped_steps [of env]
  have "frames shaped (case checkCHPAValidity (sprintf0 env) (setCHPADefaults x0) of
       Inl err \<Rightarrow> do {
         record_event ''Warning'' ''FailedSpecCheck'' err;
         setCondition env ''AbleToScale'' ''False'' ''FailedSpecCheck'' (''Invalid CHPA specification: '' @ err);
         State_Monad.return (resStop, None)
       }
     | Inr _ \<Rightarrow> process_deployment env)"
    by (intro steps.step_intros [OF steps] shaped_process)
  then have "wp (Reconcile env ns name) (\<lambda>_. shaped ?c1) c"
    unfolding Reconcile_def wp_bind bind sum.case wp_update by (rule frames_wp) simp
  then have s: "shaped ?c1 c'" by (simp add: wp_def run)
  have "\<exists>ws. writes (c_actions c') = ws \<and> (ws = [] \<or> (\<exists>chpa dep. permitted (\<lambda>_. True) env chpa dep ws))"
    using wp_Reconcile [OF dated_any, of env ns name c] c by (auto simp: wp_def run)
  moreover have "UpdateCHPA x \<in> set (writes (c_actions c'))" using x by (simp add: writes_def)
  ultimately have "first_update (writes (c_actions c')) = Some x" using permitted_first_update by fastforce
  then have "first_update (c_actions c') = Some x" by (simp add: first_update_writes)
  with s x0(2) c show ?thesis by (auto simp: shaped_def setCHPADefaults_def)
qed

end
