(* ===== verification/IgnoredField.thy ===== *)
theory IgnoredField
  imports EntryPoint
begin

text \<open>
  A field of the specification that is documented and defaulted but never read: the tolerance.  The calculator
  is built with a constant instead.

  \<open>blind h m\<close> says that a run of \<open>m\<close> from the state changed by \<open>h\<close> has the result of the run from the state
  itself, and ends in its final state changed by \<open>h\<close>: what \<open>h\<close> changes has no influence on \<open>m\<close>.  Proved: \<open>reconcileCHPA\<close> is
  blind to a change of the tolerance, for every server that stores the field as it is given.
\<close>

section \<open>Programs that do not see a change of the state\<close>

definition blind :: "('s \<Rightarrow> 's) \<Rightarrow> ('s, 'a) state \<Rightarrow> bool" where
  "blind h m \<longleftrightarrow> (\<forall>s. run_state m (h s) = (fst (run_state m s), h (snd (run_state m s))))"

lemma blindI: "(\<And>s. run_state m (h s) = (fst (run_state m s), h (snd (run_state m s)))) \<Longrightarrow> blind h m"
  by (simp add: blind_def)

lemma blindD: "blind h m \<Longrightarrow> run_state m (h s) = (fst (run_state m s), h (snd (run_state m s)))"
  by (simp add: blind_def)

lemma blind_return: "blind h (State_Monad.return a)"
  by (simp add: blind_def)

lemma blind_bind: "blind h m \<Longrightarrow> (\<And>a. blind h (f a)) \<Longrightarrow> blind h (State_Monad.bind m f)"
  by (simp add: blind_def split: prod.splits)

text \<open>What is read of the state must not depend on the change.\<close>

lemma blind_get_bind: "(\<And>s. f (h s) = f s) \<Longrightarrow> (\<And>s. blind h (f s)) \<Longrightarrow> blind h (State_Monad.bind State_Monad.get f)"
  by (simp add: blind_def State_Monad.get_def)

lemma blind_update: "(\<And>s. f (h s) = h (f s)) \<Longrightarrow> blind h (State_Monad.update f)"
  by (simp add: blind_def State_Monad.update_def State_Monad.get_def State_Monad.set_def)

lemma blind_if: "blind h m \<Longrightarrow> blind h n \<Longrightarrow> blind h (if b then m else n)"
  by simp

lemma blind_case_sum:
  "(\<And>e. blind h (f e)) \<Longrightarrow> (\<And>v. blind h (g v)) \<Longrightarrow> blind h (case r of Inl e \<Rightarrow> f e | Inr v \<Rightarrow> g v)"
  by (cases r) simp_all

lemma blind_case_option: "blind h f \<Longrightarrow> (\<And>v. blind h (g v)) \<Longrightarrow> blind h (case r of None \<Rightarrow> f | Some v \<Rightarrow> g v)"
  by (cases r) simp_all

lemma blind_case_prod: "(\<And>a b. blind h (f a b)) \<Longrightarrow> blind h (case p of (a, b) \<Rightarrow> f a b)"
  by (cases p) simp

lemma blind_case_fault: "(\<And>x. blind h (f x)) \<Longrightarrow> (\<And>p. blind h (g p)) \<Longrightarrow> blind h (case e of Err x \<Rightarrow> f x | Panic p \<Rightarrow> g p)"
  by (cases e) simp_all

lemmas blind_intros = blind_return blind_bind blind_if blind_case_sum blind_case_option blind_case_prod blind_case_fault

section \<open>The change of the tolerance\<close>

definition retolerated :: "f64 \<Rightarrow> CHPA \<Rightarrow> CHPA" where
  "retolerated t x = x\<lparr>Spec := (Spec x)\<lparr>Tolerance := t\<rparr>\<rparr>"

fun retold :: "f64 \<Rightarrow> action \<Rightarrow> action" where
  "retold t (UpdateCHPA x) = UpdateCHPA (retolerated t x)"
| "retold t a = a"

definition in_memory :: "f64 \<Rightarrow> 'w ctx \<Rightarrow> 'w ctx" where
  "in_memory t c = c\<lparr>c_chpa := retolerated t (c_chpa c), c_actions := map (retold t) (c_actions c)\<rparr>"

text \<open>The server treats the field as data: it answers the changed object with its answer, changed likewise.\<close>

definition stores_tolerance :: "'w env \<Rightarrow> f64 \<Rightarrow> bool" where
  "stores_tolerance env t \<longleftrightarrow> (\<forall>x w. run_state (update_chpa env (retolerated t x)) w =
     (let ((e, y), w') = run_state (update_chpa env x) w in ((e, retolerated t y), w')))"

lemma retolerated_sel [simp]:
  "Status (retolerated t x) = Status x" "chpa_Namespace (retolerated t x) = chpa_Namespace x"
  "Metrics (Spec (retolerated t x)) = Metrics (Spec x)"
  "MinReplicas (Spec (retolerated t x)) = MinReplicas (Spec x)" "MaxReplicas (Spec (retolerated t x)) = MaxReplicas (Spec x)"
  "DownscaleForbiddenWindowSeconds (Spec (retolerated t x)) = DownscaleForbiddenWindowSeconds (Spec x)"
  "UpscaleForbiddenWindowSeconds (Spec (retolerated t x)) = UpscaleForbiddenWindowSeconds (Spec x)"
  "ScaleUpLimitFactor (Spec (retolerated t x)) = ScaleUpLimitFactor (Spec x)"
  "ScaleUpLimitMinimum (Spec (retolerated t x)) = ScaleUpLimitMinimum (Spec x)"
  by (simp_all add: retolerated_def)

lemma in_memory_sel [simp]:
  "c_chpa (in_memory t c) = retolerated t (c_chpa c)" "c_deploy (in_memory t c) = c_deploy c"
  "c_actions (in_memory t c) = map (retold t) (c_actions c)" "c_ext (in_memory t c) = c_ext c"
  by (simp_all add: in_memory_def)

lemma pure_decisions [simp]:
  "shouldScale (retolerated t x) = shouldScale x"
  "convertDesiredReplicasWithRules (retolerated t x) = convertDesiredReplicasWithRules x"
  by (simp_all add: shouldScale_def convertDesiredReplicasWithRules_def calculateScaleUpLimit_def fun_eq_iff
      cong: option.case_cong)

lemma updates_retold: "UpdateDeployment d \<in> set (writes (map (retold t) as)) \<longleftrightarrow> UpdateDeployment d \<in> set (writes as)"
proof -
  have "retold t a = UpdateDeployment d \<longleftrightarrow> a = UpdateDeployment d" for a by (cases a) simp_all
  then show ?thesis by (force simp: writes_def)
qed

lemmas blind_reads = in_memory_sel retolerated_sel pure_decisions

section \<open>The steps\<close>

lemma blind_on_ext: "blind (in_memory t) (on_ext m)"
  by (rule blindI) (simp add: on_ext_def in_memory_def split: prod.splits)

lemma blind_event: "blind (in_memory t) (record_event ty r m)"
  unfolding record_event_def act_def by (rule blind_update) (simp add: in_memory_def)

lemma blind_modify: "blind (in_memory t) (modify_status f)"
  unfolding modify_status_def by (rule blind_update) (simp add: in_memory_def retolerated_def)

lemma blind_setCondition: "blind (in_memory t) (setCondition env ct st r m)"
  unfolding setCondition_def setConditionInList_def Let_def
  by (rule blind_get_bind, unfold blind_reads) (rule refl, intro blind_intros blind_on_ext blind_modify)

lemma blind_updateCHPA:
  assumes "stores_tolerance env t"
  shows "blind (in_memory t) (updateCHPA env)"
proof (rule blindI)
  fix c :: "'a ctx"
  obtain e y w where r: "run_state (update_chpa env (c_chpa c)) (c_ext c) = ((e, y), w)" by (metis surj_pair)
  then have "run_state (update_chpa env (retolerated t (c_chpa c))) (c_ext c) = ((e, retolerated t y), w)"
    using assms by (simp add: stores_tolerance_def)
  with r show "run_state (updateCHPA env) (in_memory t c) =
      (fst (run_state (updateCHPA env) c), in_memory t (snd (run_state (updateCHPA env) c)))"
    by (simp add: updateCHPA_def act_def on_ext_def State_Monad.get_def State_Monad.update_def State_Monad.set_def in_memory_def)
qed

lemma blind_updateStatus:
  assumes "stores_tolerance env t"
  shows "blind (in_memory t) (updateStatusIfNeeded env old)"
  unfolding updateStatusIfNeeded_def
  by (rule blind_get_bind, unfold blind_reads) (rule refl, intro blind_intros blind_updateCHPA [OF assms])

lemma blind_setStatus: "blind (in_memory t) (setStatus env cur des ms b)"
  unfolding setStatus_def by (intro blind_intros blind_on_ext blind_modify)

lemma blind_setCurrent: "blind (in_memory t) (setCurrentReplicasInStatus env cur)"
  unfolding setCurrentReplicasInStatus_def by (rule blind_get_bind, unfold blind_reads) (rule refl, rule blind_setStatus)

lemma blind_rescale: "blind (in_memory t) (rescale_deployment env n)"
proof -
  have "blind (in_memory t) (set_deploy_replicas n)"
    unfolding set_deploy_replicas_def by (rule blind_update) (simp add: in_memory_def)
  moreover have "blind (in_memory t) (act (UpdateDeployment d))" for d
    unfolding act_def by (rule blind_update) (simp add: in_memory_def)
  ultimately show ?thesis
    unfolding rescale_deployment_def by (intro blind_get_bind blind_intros blind_on_ext) (simp_all)
qed

lemma blind_fail_metric: "blind (in_memory t) (fail_metric env r e s x)"
  unfolding fail_metric_def by (intro blind_intros blind_event blind_setCondition)

lemma blind_with_proposal: "blind (in_memory t) (with_proposal env r x y f)"
  unfolding with_proposal_def by (intro blind_intros blind_fail_metric)

lemma blind_metric_proposal: "blind (in_memory t) (metric_proposal env ns sel cur m)"
  unfolding metric_proposal_def object_proposal_def pods_proposal_def resource_proposal_def external_proposal_def Let_def
  by (intro blind_intros blind_fail_metric blind_with_proposal blind_on_ext)

lemma blind_selector: "blind (in_memory t) (deployment_selector env)"
  unfolding deployment_selector_def Let_def
  by (rule blind_get_bind, unfold blind_reads) (rule refl, intro blind_intros blind_event blind_setCondition)

lemma blind_compute_loop: "blind (in_memory t) (compute_loop env cur i ms m)"
proof (induction ms arbitrary: i m)
  case Nil
  show ?case by (simp add: blind_return)
next
  case (Cons a ms)
  show ?case unfolding compute_loop.simps
    by (intro blind_get_bind blind_intros blind_selector blind_metric_proposal Cons.IH) simp
qed

lemma blind_compute: "blind (in_memory t) (computeReplicasForMetrics env ms)"
  unfolding computeReplicasForMetrics_def
  by (rule blind_get_bind, unfold blind_reads) (rule refl, intro blind_intros blind_compute_loop blind_setCondition)

lemma blind_normalize: "blind (in_memory t) (normalizeDesiredReplicas env cur d)"
  unfolding normalizeDesiredReplicas_def Let_def
  by (rule blind_get_bind, unfold blind_reads) (rule refl, intro blind_intros blind_setCondition)

lemma blind_backoff: "blind (in_memory t) (backoff_conditions env ts)"
  unfolding backoff_conditions_def Let_def
  by (rule blind_get_bind, unfold blind_reads) (rule refl, intro blind_intros blind_setCondition)

lemma blind_failed_update: "blind (in_memory t) (failed_update_replicas env e)"
  unfolding failed_update_replicas_def by (intro blind_intros blind_event blind_setCondition)

lemmas blind_steps = blind_intros blind_event blind_setCondition blind_on_ext blind_setStatus blind_setCurrent blind_rescale
  blind_compute blind_normalize blind_backoff blind_failed_update

text \<open>The whole of \<open>reconcileCHPA\<close>.\<close>

lemma blind_metrics_decision:
  assumes "stores_tolerance env t"
  shows "blind (in_memory t) (metrics_decision env old cur now)"
  unfolding metrics_decision_def Let_def
  by (rule blind_get_bind, unfold blind_reads) (rule refl, intro blind_get_bind blind_steps blind_updateStatus [OF assms], unfold blind_reads, rule refl)

lemma blind_decide:
  assumes "stores_tolerance env t"
  shows "blind (in_memory t) (decide env old cur now)"
  unfolding decide_def Let_def
  by (rule blind_get_bind, unfold blind_reads) (rule refl, intro blind_steps blind_metrics_decision [OF assms])

lemma blind_apply:
  assumes "stores_tolerance env t"
  shows "blind (in_memory t) (apply_decision env old cur d)"
  unfolding apply_decision_def finish_status_def by (intro blind_steps blind_updateStatus [OF assms])

lemma blind_reconcile:
  assumes "stores_tolerance env t"
  shows "blind (in_memory t) (reconcileCHPA env)"
proof -
  have "blind (in_memory t) (reconcile_body env)"
    unfolding reconcile_body_def Let_def
    by (rule blind_get_bind, unfold blind_reads) (rule refl, intro blind_steps blind_decide [OF assms] blind_apply [OF assms])
  then show ?thesis unfolding reconcileCHPA_def by (intro blind_intros)
qed

end
