(* ===== verification/Spec2Isabelle.thy ===== *)
theory Spec2Isabelle
  imports Samples SavedStatus ChpaTools Manager ObjectMetric TargetMetrics StatusShape IgnoredField
begin

text \<open>
  The Configurable Horizontal Pod Autoscaler: a Kubernetes controller, written in Go, that scales a
  Deployment so that chosen metrics stay at their targets, with limits on the speed of scaling that each
  CHPA object configures for itself.

  The program and its parts.

  The custom resource CHPA names a Deployment, the bounds of its replica count, the metrics with their
  targets, two forbidden windows and a scale-up limit; its status records the counts, the time of the last
  scale, the metrics and a list of conditions (pkg/apis/autoscalers/v1beta1).  \<open>main\<close> (cmd/manager) builds a
  manager, registers the resource in its scheme and adds the controller.  The informer cache announces
  changes of CHPAs; an event handler behind a predicate puts their keys on a work queue; a worker takes a
  key and calls \<open>Reconcile\<close> (pkg/controller/chpa/chpa_controller.go), which fetches the CHPA, fills in
  defaults, checks it, makes it the controller owner of the Deployment and calls \<open>reconcileCHPA\<close>.  That
  asks the replica calculator (replica_calculator.go) for a count per metric, takes the largest, cuts it off
  at the bounds, looks at the windows, writes the Deployment and then the status.

  Foundations.
  \<^item> Prelude: Go's integers, the ways a call can fail (an error value, a panic), integer division, decimals,
    lemmas on words, maps and state-monad programs.
  \<^item> Float64: binary64 with rounding, and the conversions to integers; the locale \<open>rounding\<close>.
  \<^item> StatePrograms: weakest preconditions (\<open>wp\<close>) and frames of state-monad programs; the locale \<open>frame\<close>.
  \<^item> GoMemory: cells, pointers and slices; the locale \<open>deep_copy\<close>.

  The resource.
  \<^item> ChpaTypes: the structs of chpa_types.go and of the Kubernetes types it uses, field by field.
  \<^item> ChpaTools: the \<open>String\<close> methods of chpa_tools.go, and that a printed status can be read back.
  \<^item> DeepCopy: zz_generated.deepcopy.go and the copies of autoscaling/v2beta1 it calls.  A copy reads as its
    original and shares no cell with it.
  \<^item> Scheme: register.go and the registration in chpa_types.go over the type tables of the vendored scheme.

  The decisions, which are pure functions of the specification and of numbers.
  \<^item> ChpaSpec: \<open>setCHPADefaults\<close>, \<open>checkCHPAValidity\<close>, \<open>checkCHPAMetricsValidity\<close>, \<open>updatePredicate\<close>.
  \<^item> ConditionList: \<open>setConditionInList\<close>; the locale \<open>condition_store\<close>.  SavedStatus gives the same operation in
    memory, as the code has it, and refines it to the one on lists.
  \<^item> Utilization, ReplicaCalculator: the vendored utilisation functions and the calculations of
    replica_calculator.go.  ReplicaFacts shows that they do not panic and do not depend on the order of a
    map; ReplicaRatios what they compute, and where the arithmetic overflows; RatioAccuracy how far the
    floats can be from the integers they stand for, and which usages the default tolerance admits;
    TargetMetrics what becomes of a metric exactly at its target when some pods have none.
  \<^item> Scaling: \<open>calculateScaleUpLimit\<close>, \<open>convertDesiredReplicasWithRules\<close>, \<open>shouldScale\<close> and the back-off conditions;
    the locale \<open>clamping\<close>.
  \<^item> OwnerRef: \<open>SetControllerReference\<close> of controller-runtime.

  The reconciler.
  \<^item> Controller, Reconcile: the methods of \<open>ReconcileCHPA\<close>, every branch with its events, conditions and
    writes.  The record \<open>env\<close> is the struct with the clients behind it; the record \<open>ctx\<close> is what a call
    mutates: the CHPA and the Deployment in memory, the world, and the actions taken so far, in order.
  \<^item> ControllerFacts, Proposals, StatusWrites, ReconcileFacts, Bounds, EntryPoint: what each step leaves alone, what the loop over
    the metrics returns, what may be written.  A frame that allows every condition is an instance of the locale
    \<open>plain_steps\<close>; one that allows those the controller does set, listed by the relation \<open>vocabulary\<close>, of the more
    general \<open>steps\<close>.  The abstract specification is
    \<open>permitted\<close> in ReconcileFacts: at most one update of the Deployment, to a count that is \<open>justified\<close> by the
    specification, the status and a time some source returned, and then at most one update of the CHPA
    that changes its status only.  \<open>wp_reconcile_body\<close> is the refinement; Bounds reads limits and windows
    off the specification.
  \<^item> ReferenceDecision: the function \<open>reference\<close> for \<open>reconcileCHPA\<close>, put together from a pure decision (\<open>verdict\<close>), the conditions
    that go with it (\<open>reports\<close>) and what is then stored (\<open>deployment_writes\<close>, \<open>final_status\<close>), which the code
    follows exactly, in its result and in its writes.  \<open>permitted\<close> says what may be written, the reference what is.
  \<^item> LostStatus: the reference for a whole call of \<open>Reconcile\<close> (\<open>call_reference\<close>); it does not depend on the answers
    to status updates.  What follows for a server that refuses them (\<open>refusing\<close>).
  \<^item> Approach: rounds of reconciles under a constant demand (\<open>scaling_round\<close>) and where they lead.
  \<^item> ObjectMetric: calculator, loop, reference and limits put together for a single object metric.
  \<^item> ForbiddenWindows: the windows between the writes of any number of reconciles.
  \<^item> StatusShape: the conditions that can stand in a status the controller writes.
  \<^item> IgnoredField: programs that are blind to a change of the state (\<open>blind\<close>), and that \<open>reconcileCHPA\<close> is to a change
    of the tolerance.

  Around the reconciler.
  \<^item> WorkQueue, ControlLoop: the vendored queue (the locale \<open>work_queue\<close>), the event handler and the worker as
    a step relation on the cache, the pending notifications, the queue and the workers' hands.  Taking a
    key, running \<open>Reconcile\<close> and reporting its result are separate steps between which notifications
    and other clients may act.  The number of workers is the one \<open>New\<close> of controller-runtime makes of the
    options \<open>add\<close> passes, which is one.
  \<^item> Progress: the queue is fair, and no reachable state of the loop is stuck.
  \<^item> Settling: left to itself the loop comes to rest.  The steps that remain (\<open>own_step\<close>) are those of the loop without
    those of other clients and of the clock; each decreases the measure \<open>work\<close>.
  \<^item> Manager: \<open>main\<close>, \<open>AddToManager\<close>, \<open>AddToScheme\<close>, \<open>Add\<close>, \<open>newReconciler\<close>, \<open>add\<close>, \<open>NewReplicaCalculator\<close>.  The relation
    \<open>setup_fails\<close> says at which call the set-up fails and with which error.
  \<^item> Samples: a CHPA, a Deployment and environments on which the properties are applied.

  This theory holds the properties of the reconciler and of the loop as a whole.  The properties that
  concern one part stand in the theory of that part.

  Bounds and termination.  Every \<open>int32\<close> and \<open>int64\<close> is a word of that width and wraps; overflow is excluded by
  a hypothesis where a statement needs it and proved to be impossible elsewhere.  Floats are rounded after
  every operation; a conversion out of range has the result of amd64, for which the Dockerfile builds.  A
  time is a number of nanoseconds.  Every loop of the code ranges over a list or a map and is a structural
  recursion, so that all definitions are total and no fuel is needed.  The control loop runs for ever; it is
  an inductive relation, and its properties hold in every reachable state.  Without further events it stops after
  at most \<open>work\<close> steps: four for each CHPA whose defaults are not yet stored, at most nine for a notification, five for
  an expired delay, four for a key that is due, three for one in a worker's hands.

  What lies outside is an argument.  The API server, the clock, the metrics client, the pod lister, the event
  recorder and the libraries \<open>main\<close> calls are programs over a world of arbitrary type, so that an answer may
  depend on all that happened before.  Most properties assume nothing of them.  Named hypotheses are:
  \<^item> \<open>dated\<close>, \<open>dated_until\<close>: which times the clock and the metric sources return;
  \<^item> \<open>clients_ok\<close>, \<open>sound_env\<close>: the metric clients do not panic, a Deployment read has a count (the API server
    fills it in), a CHPA read is the one in the cache, the sync period is positive;
  \<^item> \<open>announced\<close>: the cache is told of what a reconcile changes;
  \<^item> \<open>storing\<close>: only updates of a CHPA change the stored CHPAs, and they store the object with the specification it was
    given, or nothing; \<open>numeric\<close>: the floats of a specification are not NaN, which JSON cannot express;
  \<^item> \<open>growth\<close>: the scale-up factor is a whole number of at least two (the default is two) and the maximum times the
    factor is an \<open>int32\<close>; \<open>windows_over\<close>: both forbidden windows have passed at a time;
  \<^item> \<open>refusing\<close>: every update of a CHPA fails, and the other calls leave the cached CHPAs alone;
  \<^item> \<open>stores_tolerance\<close>: the server answers an update with another tolerance as it answers the update, but for that
    field;
  \<^item> \<open>moderate\<close>: usage, target and count are so small that the floats are exact up to rounding errors below one
    replica, and the proposal fits an \<open>int32\<close>;
  \<^item> \<open>faithful\<close>: reads change nothing, the clock does not run backwards, updates of the CHPA succeed and store
    the time of the last scale in whole seconds, later reads return what is stored.

  Not modelled: log lines and command-line flags; the conversions, defaults and version priorities of the
  scheme; the locks, metrics, shutdown and rate limiting of the queue (a delay is an arbitrary waiting
  time); the informer and the API server themselves; object metadata the controller does not read.  A run
  of \<open>Reconcile\<close> is one step of the control loop, although notifications may be delivered while it takes
  place: they touch the queue only, which a run does not read.  Tests, manifests of the deployment,
  and the end-to-end scripts are left aside.
\<close>

section \<open>What one reconcile may write\<close>

text \<open>C1. Refinement: whatever the API server, the clock and the metric sources answer, the writes of
  \<open>reconcileCHPA\<close> are a sequence the abstract specification permits: at most one update of the
  Deployment, to a justified count, then at most one update of the CHPA, of its status only.\<close>

theorem reconcile_refines_spec:
  assumes "dated P env" "run_state (reconcileCHPA env) c = (r, c')"
  shows "\<exists>ws. writes (c_actions c') = writes (c_actions c) @ ws \<and> permitted P env (c_chpa c) (c_deploy c) ws"
  by (rule reconcileCHPA_writes [OF assms])

theorem reconcile_refines_spec_witness:
  "\<exists>ws. writes (c_actions (snd (run_state (reconcileCHPA (web_env 3 400000000000)) (web_ctx 3)))) = [] @ ws \<and>
     permitted (\<lambda>u. u \<le> 400000000000) (web_env 3 400000000000) web_chpa (web_deploy 3) ws"
  using reconcile_refines_spec [OF web_dated surjective_pairing, of 3 400000000000 "web_ctx 3"]
  by (simp add: web_ctx_def)

text \<open>C2. Equivalence with a reference: the result of \<open>reconcileCHPA\<close>, with the text of a recovered panic, and all it writes, to the last
  field, are those of the function \<open>reference\<close>.  That asks the clock, the metrics and the server where the code asks
  them, and otherwise only looks up a verdict.  After a panic, which without a count on the Deployment is certain, nothing is
  written.  For a disabled Deployment, one that is to keep its count, or a failed calculation a status is written, otherwise
  the violated bound or the normalised demand of the metrics to the Deployment and then the status.  The reference fixes
  the conditions in it, with their messages and transition times, the metrics, both counts, and the time of the last scale: the reading of
  the clock behind an accepted update of the Deployment, otherwise the old time.  A status equal to the one read is
  not written.\<close>

theorem reconcile_follows_reference:
  "fst (run_state (reconcileCHPA env) c) = fst (reference env c) \<and>
   writes (c_actions (snd (run_state (reconcileCHPA env) c))) = writes (c_actions c) @ snd (reference env c)"
  by (rule reconcile_reference [OF surjective_pairing])

theorem reconcile_follows_reference_witness:
  "fst (run_state (reconcileCHPA (web_env 3 400000000000)) (web_ctx 3)) = None \<and>
   (\<exists>x. writes (c_actions (snd (run_state (reconcileCHPA (web_env 3 400000000000)) (web_ctx 3)))) =
       [UpdateDeployment (scaled_to (web_deploy 3) 6), UpdateCHPA x] \<and>
     LastScaleTime (Status x) = Some 400000000000 \<and> CurrentReplicas (Status x) = 3 \<and> DesiredReplicas (Status x) = 6)"
  using reconcile_follows_reference [of "web_env 3 400000000000" "web_ctx 3"] web_reference by (simp add: web_ctx_def)

text \<open>C3. The count a reconcile writes to the Deployment lies within the bounds of the specification:
  at least one, at least the minimum, at most the maximum (for bounds as the CRD validation admits
  them and a scale-up factor of at least one that does not overflow).\<close>

theorem reconcile_within_bounds:
  assumes "run_state (reconcileCHPA env) c = (r, c')" "writes (c_actions c) = []"
    "UpdateDeployment d \<in> set (writes (c_actions c'))"
    "sane_bounds (Spec (c_chpa c))" "0 \<le> sint (dep_Status_Replicas (c_deploy c))"
    "sane_factor (Spec (c_chpa c)) (dep_Status_Replicas (c_deploy c))"
  shows "\<exists>n. d = (c_deploy c)\<lparr>dep_Spec_Replicas := Some n\<rparr> \<and> 1 \<le> sint n \<and>
     sint n \<le> sint (MaxReplicas (Spec (c_chpa c))) \<and>
     (\<forall>m. MinReplicas (Spec (c_chpa c)) = Some m \<longrightarrow> sint m \<le> sint n)"
proof -
  obtain n where n: "d = scaled_to (c_deploy c) n" "justified (\<lambda>_. True) (c_chpa c) (c_deploy c) n"
    using permitted_deployment [OF reconcileCHPA_permitted [OF dated_any assms(2,1)] assms(3)] by blast
  show ?thesis
    using n justified_le_max [OF n(2) assms(4,5)] justified_ge_min [OF n(2) assms(4-6)]
      lower_bound_props(1,3) [OF assms(4)] order_trans unfolding scaled_to_def by blast
qed

theorem reconcile_within_bounds_witness:
  "\<exists>n. scaled_to (web_deploy 3) 6 = (web_deploy 3)\<lparr>dep_Spec_Replicas := Some n\<rparr> \<and> 1 \<le> sint n \<and> sint n \<le> 10 \<and>
     (\<forall>m. MinReplicas web_spec = Some m \<longrightarrow> sint m \<le> sint n)"
  using reconcile_within_bounds [OF surjective_pairing _ web_scales_up] web_sane
  by (simp add: web_ctx_def web_chpa_def web_deploy_def) (simp add: web_spec_def)

text \<open>C4. The forbidden windows: of a Deployment inside its bounds the count is only changed when, at some
  time the clock or a metric source returned, the window of the direction of the change had passed
  since the last scale.  So no such change happens while every time they return is too early.\<close>

theorem reconcile_respects_windows:
  assumes "dated (\<lambda>u. u \<le> T) env" "run_state (reconcileCHPA env) c = (r, c')" "writes (c_actions c) = []"
    "UpdateDeployment d \<in> set (writes (c_actions c'))"
    "corrective (Spec (c_chpa c)) (dep_Status_Replicas (c_deploy c)) = None"
    "LastScaleTime (Status (c_chpa c)) = Some t"
  shows "\<exists>n. dep_Spec_Replicas d = Some n \<and> n \<noteq> dep_Status_Replicas (c_deploy c) \<and>
     t + window (Spec (c_chpa c)) (dep_Status_Replicas (c_deploy c)) n < T"
proof -
  obtain n where n: "d = scaled_to (c_deploy c) n" "justified (\<lambda>u. u \<le> T) (c_chpa c) (c_deploy c) n"
    using permitted_deployment [OF reconcileCHPA_permitted [OF assms(1,3,2)] assms(4)] by blast
  show ?thesis
    using justified_window(1) [OF n(2) assms(5)] justified_window(2) [OF n(2) assms(5,6)]
    by (auto simp: n(1) scaled_to_def intro: order_less_le_trans)
qed

theorem reconcile_respects_windows_witness:
  "\<exists>n. dep_Spec_Replicas (scaled_to (web_deploy 3) 6) = Some n \<and> n \<noteq> 3 \<and> 0 + window web_spec 3 n < 400000000000"
  using reconcile_respects_windows [OF web_dated surjective_pairing _ web_scales_up, of 0]
  by (simp add: web_ctx_def web_chpa_def web_deploy_def web_status_def) (simp add: web_spec_def corrective_def)

text \<open>C5. The forbidden windows hold between reconciles.  With an API server, a clock and metric sources as \<open>faithful\<close>
  asks (reads see what was written, updates of the CHPA succeed, times are stored in seconds), along any
  history of reconciles of a CHPA and of anything in between that leaves its time of the last scale alone: an
  update of the Deployment either sets the violated bound or comes, for every earlier update, later than
  that update plus the window of its direction, up to the second.\<close>

theorem windows_between_reconciles:
  assumes "faithful sv env ns name" "history sv env ns name (c_ext c)"
    "run_state (Reconcile env ns name) c = (out, c')"
    "sv_log sv (c_ext c') = sv_log sv (c_ext c) @ [(u, d)]"
  shows "\<exists>chpa dep n. fetched env ns name (c_ext c) chpa dep \<and> d = dep\<lparr>dep_Spec_Replicas := Some n\<rparr> \<and>
     (corrective (Spec chpa) (dep_Status_Replicas dep) = Some n \<or>
      (\<forall>(u', d')\<in>set (sv_log sv (c_ext c)). secs u' + window (Spec chpa) (dep_Status_Replicas dep) n < u))"
proof -
  have "served sv env ns name (c_ext c) (c_ext c')"
    using wp_Reconcile_time [OF assms(1), of c] assms(3) by (simp add: wp_def)
  from update_after_windows [OF history_covered [OF assms(2,1)] this assms(4)] show ?thesis
    by (simp add: scaled_to_def)
qed

theorem windows_between_reconciles_witness:
  "\<exists>d' chpa dep n. history web_server live_env ''prod'' ''web'' (800000000000, Some 400000000000, [(400000000000, d')]) \<and>
     fetched live_env ''prod'' ''web'' (800000000000, Some 400000000000, [(400000000000, d')]) chpa dep \<and>
     (corrective (Spec chpa) (dep_Status_Replicas dep) = Some n \<or>
      400000000000 + window (Spec chpa) (dep_Status_Replicas dep) n < 800000000000)"
proof -
  let ?h = "history web_server live_env ''prod'' ''web''"
  obtain out c1 d' where 1: "run_state (Reconcile live_env ''prod'' ''web'') (live_ctx (400000000000, None, [])) = (out, c1)"
    "c_ext c1 = (400000000000, Some 400000000000, [(400000000000, d')])"
    using live_run [of None 400000000000 "[]"] by (auto simp: secs_def)
  have "?h (c_ext (live_ctx (400000000000, None, [])))"
    by (rule history.start) (simp add: web_server_def live_ctx_def)
  from history.reconcile [OF this 1(1)] have "?h (c_ext c1)" .
  then have h: "?h (c_ext (live_ctx (800000000000, Some 400000000000, [(400000000000, d')])))"
    by (rule history.meanwhile) (simp add: still_def web_server_def live_ctx_def 1(2))
  obtain out' c2 d where 2: "run_state (Reconcile live_env ''prod'' ''web'')
      (live_ctx (800000000000, Some 400000000000, [(400000000000, d')])) = (out', c2)"
    "sv_log web_server (c_ext c2) = [(400000000000, d'), (800000000000, d)]"
    using live_run [of "Some 400000000000" 800000000000 "[(400000000000, d')]"] by (auto simp: web_server_def)
  let ?w = "c_ext (live_ctx (800000000000, Some 400000000000, [(400000000000, d')]))"
  have w: "?w = (800000000000, Some 400000000000, [(400000000000, d')])" by (simp add: live_ctx_def)
  have log: "sv_log web_server ?w = [(400000000000, d')]" by (simp add: w web_server_def)
  have "sv_log web_server (c_ext c2) = sv_log web_server ?w @ [(800000000000, d)]" by (simp add: 2(2) log)
  from windows_between_reconciles [OF live_faithful h 2(1) this] obtain chpa dep n where
    f: "fetched live_env ''prod'' ''web'' ?w chpa dep" and
    r: "corrective (Spec chpa) (dep_Status_Replicas dep) = Some n \<or>
      (\<forall>(u', d')\<in>set (sv_log web_server ?w). secs u' + window (Spec chpa) (dep_Status_Replicas dep) n < 800000000000)"
    by (elim exE conjE) (rule that)
  have "secs 400000000000 = 400000000000" by (simp add: secs_def)
  with r have "corrective (Spec chpa) (dep_Status_Replicas dep) = Some n \<or>
      400000000000 + window (Spec chpa) (dep_Status_Replicas dep) n < 800000000000"
    by (simp add: log)
  with h f show ?thesis unfolding w by (intro exI conjI)
qed



text \<open>C28. No answer to an update of a CHPA has any influence on a call of \<open>Reconcile\<close>: whatever function of object and world the API
  server answers these updates with, an error or another object, the result of the call and all it writes are the same.  Only an event may tell of it.\<close>

theorem status_answer_ignored:
  "fst (run_state (Reconcile (env\<lparr>update_chpa := f\<rparr>) ns name) c) = fst (run_state (Reconcile env ns name) c) \<and>
   writes (c_actions (snd (run_state (Reconcile (env\<lparr>update_chpa := f\<rparr>) ns name) c))) =
     writes (c_actions (snd (run_state (Reconcile env ns name) c)))"
  using Reconcile_follows [OF surjective_pairing, of env ns name c]
    Reconcile_follows [OF surjective_pairing, of "env\<lparr>update_chpa := f\<rparr>" ns name c]
  by (simp add: call_reference_update)

text \<open>C7. A raise of a Deployment inside its bounds never exceeds the limit on scaling up; with a factor that is a whole number, as
  the default is, that is exactly the larger of the factor times the current count and the minimum of the limit.\<close>

theorem reconcile_limits_raise:
  assumes "run_state (reconcileCHPA env) c = (r, c')" "writes (c_actions c) = []"
    "UpdateDeployment d \<in> set (writes (c_actions c'))"
    "corrective (Spec (c_chpa c)) (dep_Status_Replicas (c_deploy c)) = None"
    "sane_bounds (Spec (c_chpa c))" "0 \<le> sint (dep_Status_Replicas (c_deploy c))"
    "dep_Spec_Replicas d = Some n" "sint (dep_Status_Replicas (c_deploy c)) < sint n"
  shows "sint n \<le> sint (calculateScaleUpLimit (c_chpa c) (dep_Status_Replicas (c_deploy c))) \<and>
     (\<forall>k. ScaleUpLimitFactor (Spec (c_chpa c)) = f64_of_int k \<and> 0 \<le> k \<and> k \<le> 2 ^ 21 \<and>
        k * sint (dep_Status_Replicas (c_deploy c)) < 2147483648 \<longrightarrow>
        sint n \<le> max (k * sint (dep_Status_Replicas (c_deploy c))) (sint (ScaleUpLimitMinimum (Spec (c_chpa c)))))"
proof -
  obtain k where k: "d = scaled_to (c_deploy c) k" "justified (\<lambda>_. True) (c_chpa c) (c_deploy c) k"
    using permitted_deployment [OF reconcileCHPA_permitted [OF dated_any assms(2,1)] assms(3)] by blast
  then have "sint n \<le> sint (calculateScaleUpLimit (c_chpa c) (dep_Status_Replicas (c_deploy c)))"
    using justified_limit [OF k(2) assms(4-6)] assms(7,8) by (simp add: scaled_to_def)
  then show ?thesis using calculateScaleUpLimit_integral assms(6) by metis
qed

theorem reconcile_limits_raise_witness:
  "sint (6 :: int32) \<le> sint (calculateScaleUpLimit web_chpa 3)"
  using reconcile_limits_raise [OF surjective_pairing _ web_scales_up, of 6, THEN conjunct1] web_sane
  by (simp add: web_ctx_def web_chpa_def web_deploy_def scaled_to_def) (simp add: web_spec_def corrective_def)

text \<open>C10. A Deployment outside its bounds is corrected at once: unless it is disabled, the first write of a
  reconcile sets it to the bound it violates, whatever the metrics, the windows and the API server say.\<close>

theorem reconcile_corrects_at_once:
  assumes "run_state (reconcileCHPA env) c = (r, c')" "writes (c_actions c) = []"
    "dep_Spec_Replicas (c_deploy c) = Some k" "k \<noteq> 0"
    "corrective (Spec (c_chpa c)) (dep_Status_Replicas (c_deploy c)) = Some n"
  shows "\<exists>rest. writes (c_actions c') = UpdateDeployment ((c_deploy c)\<lparr>dep_Spec_Replicas := Some n\<rparr>) # rest"
  using reconcile_corrects [OF assms(3-5), of env] assms(1,2)
  by (auto simp: reconcileCHPA_def wp_def scaled_to_def split: prod.splits)

theorem reconcile_corrects_at_once_witness:
  "\<exists>rest. writes (c_actions (snd (run_state (reconcileCHPA (web_env 20 5)) (web_ctx 20)))) =
     UpdateDeployment ((web_deploy 20)\<lparr>dep_Spec_Replicas := Some 10\<rparr>) # rest"
  using reconcile_corrects_at_once [OF surjective_pairing, of "web_ctx 20" 20 10 "web_env 20 5"]
  by (simp add: web_ctx_def web_chpa_def web_deploy_def) (simp add: web_spec_def corrective_def)

text \<open>A Deployment scaled to zero, or without a count, is never written.\<close>

lemma reconcile_leaves_disabled:
  assumes "run_state (reconcileCHPA env) c = (r, c')" "writes (c_actions c) = []"
    "dep_Spec_Replicas (c_deploy c) = Some 0 \<or> dep_Spec_Replicas (c_deploy c) = None"
  shows "UpdateDeployment d \<notin> set (writes (c_actions c'))"
  using permitted_deployment [OF reconcileCHPA_permitted [OF dated_any assms(2,1)], of d] assms(3)
  by (auto simp: justified_def)

lemma reconcile_leaves_disabled_witness:
  "UpdateDeployment (web_deploy 0) \<notin> set (writes (c_actions (snd (run_state (reconcileCHPA (web_env 0 5)) (web_ctx 0)))))"
  using reconcile_leaves_disabled [OF surjective_pairing, of "web_ctx 0" "web_deploy 0" "web_env 0 5"]
  by (simp add: web_ctx_def web_deploy_def)

text \<open>C11. What a reconcile writes of the CHPA is its status alone, different from the one it read and with the
  current count of the Deployment; the time of the last scale changes only behind an update of the
  Deployment that succeeded, and then the desired count is the one the server answered with.\<close>

theorem reconcile_status_writes:
  assumes "run_state (reconcileCHPA env) c = (r, c')" "writes (c_actions c) = []"
    "UpdateCHPA x \<in> set (writes (c_actions c'))"
  shows "x = (c_chpa c)\<lparr>Status := Status x\<rparr> \<and> Status x \<noteq> Status (c_chpa c) \<and>
     CurrentReplicas (Status x) = dep_Status_Replicas (c_deploy c) \<and>
     (LastScaleTime (Status x) \<noteq> LastScaleTime (Status (c_chpa c)) \<longrightarrow>
       (\<exists>n w cell. writes (c_actions c') = [UpdateDeployment (scaled_to (c_deploy c) n), UpdateCHPA x] \<and>
          fst (run_state (update_deployment env (scaled_to (c_deploy c) n)) w) = (None, cell) \<and>
          DesiredReplicas (Status x) = cell))"
proof -
  obtain us where "writes (c_actions c') = us @ [UpdateCHPA x]" "status_of_run env (c_chpa c) (c_deploy c) us x"
    using permitted_chpa [OF reconcileCHPA_permitted [OF dated_any assms(2,1)] assms(3)] by blast
  then show ?thesis by (auto simp: status_of_run_def)
qed

theorem reconcile_status_writes_witness:
  "\<exists>x. writes (c_actions (snd (run_state (reconcileCHPA (web_env 0 5)) (web_ctx 0)))) = [UpdateCHPA x] \<and>
     x = web_chpa\<lparr>Status := Status x\<rparr> \<and> Status x \<noteq> Status web_chpa \<and> CurrentReplicas (Status x) = 0"
proof -
  obtain x where x: "writes (c_actions (snd (run_state (reconcileCHPA (web_env 0 5)) (web_ctx 0)))) = [UpdateCHPA x]"
    by (simp add: web_eval)
  then have "UpdateCHPA x \<in> set (writes (c_actions (snd (run_state (reconcileCHPA (web_env 0 5)) (web_ctx 0)))))" by simp
  from reconcile_status_writes [OF surjective_pairing _ this] x show ?thesis
    by (auto simp: web_ctx_def) (simp add: web_deploy_def)
qed

text \<open>C13. With sound metric sources, metrics that passed the validity check and a Deployment that has a count,
  \<open>reconcileCHPA\<close> does not fail: no panic reaches its \<open>recover\<close>.\<close>

theorem reconcile_does_not_fail:
  assumes "clients_ok (replicaCalc env)" "checkCHPAValidity (sprintf0 env) (c_chpa c) = Inr ()"
    "dep_Spec_Replicas (c_deploy c) = Some k"
  shows "fst (run_state (reconcileCHPA env) c) = None"
proof -
  have "metrics_safe env (c_chpa c)"
    using clients_ok_calm [OF assms(1)] assms(2) by (simp add: metrics_safe_def checkCHPAValidity_ok)
  then show ?thesis using reconcileCHPA_result [OF surjective_pairing] assms(3) by (metis option.distinct(1))
qed

theorem reconcile_does_not_fail_witness:
  "fst (run_state (reconcileCHPA (web_env 3 5)) (web_ctx 3)) = None"
proof -
  have "clients_ok (replicaCalc (web_env 3 5))" by (simp add: clients_ok_def web_defs)
  then show ?thesis
    by (rule reconcile_does_not_fail) (simp_all add: web_defs checkCHPAValidity_def)
qed

section \<open>Meeting the demand\<close>

text \<open>C8. The Deployment gets where the metrics ask it to go.  Take rounds of \<open>reconcileCHPA\<close> in which the metrics ask for the
  same count behind the windows, each starting with the Deployment as the last one left it: the count stays within the
  bounds, never passes the demand (cut off at the bounds), grows by the factor in every round until it is there, and is
  there after logarithmically many rounds, from above after one.\<close>

theorem demand_is_met:
  assumes "(scaling_round env spec demand ^^ rounds) n n'" "0 < rounds"
    "sane_bounds spec" "growth spec k" "within_bounds spec n"
  shows "lower_bound spec \<le> sint n' \<and> sint n' \<le> sint (MaxReplicas spec) \<and> sint n' \<le> destination spec demand \<and>
     min (destination spec demand) (k ^ rounds * sint n) \<le> sint n' \<and>
     (destination spec demand \<le> k ^ rounds * sint n \<longrightarrow> sint n' = destination spec demand)"
proof -
  have "within_bounds spec n' \<and> min (destination spec demand) (k ^ rounds * sint n) \<le> sint n' \<and>
      sint n' \<le> destination spec demand"
    using rounds_approach [OF assms(1,3-5)] assms(2) by blast
  then show ?thesis by (auto simp: within_bounds_def)
qed

theorem demand_is_met_witness:
  "\<exists>n. scaling_round (web_env 3 400000000000) web_spec 6 3 n \<and> sint n = 6"
proof -
  let ?env = "web_env 3 400000000000" and ?c = "web_ctx 3"
  obtain c1 m c2 name where run: "run_state (get_scale ?env) ?c = (400000000000, c1)"
      "run_state (computeReplicasForMetrics ?env (Metrics web_spec)) c1 = (Inr m, c2)"
    and d: "metric_desire 400000000000 m = (6, 400000000000, name)"
    using web_demand [of 400000000000] by blast
  obtain res c' where r: "run_state (reconcileCHPA ?env) ?c = (res, c')" by (metis surj_pair)
  have w: "windows_over (c_chpa ?c) 400000000000"
    by (simp add: windows_over_def in_window_def web_ctx_def web_chpa_def web_spec_def web_status_def)
  have c: "Spec (c_chpa ?c) = web_spec" "dep_Spec_Replicas (c_deploy ?c) = Some 3" "dep_Status_Replicas (c_deploy ?c) = 3"
    "writes (c_actions ?c) = []"
    by (simp_all add: web_ctx_def web_chpa_def web_deploy_def writes_def)
  have "scaling_round ?env web_spec 6 3 (count_after 3 (writes (c_actions c')))"
    unfolding scaling_round_def using c r run d w by blast
  moreover from this have "(scaling_round ?env web_spec 6 ^^ 1) 3 (count_after 3 (writes (c_actions c')))"
    by (simp only: relpowp_1)
  ultimately show ?thesis
    using demand_is_met [of 1 ?env web_spec 6 3 _ 2] web_sane(1) web_growth by auto
qed

text \<open>C9. From end to end, for a CHPA with one object metric.  Behind the windows a reconcile leaves the Deployment, by formula in
  integers, with the ideal count \<open>p\<close> of the usage (the current count inside the band of the default tolerance, otherwise the
  usage times the count over the target, rounded up; in a whole division possibly one more), cut off above at the
  maximum and at the limit on scaling up, and below at the minimum.\<close>

theorem single_object_metric:
  assumes "run_state (reconcileCHPA env) c = (res, c')" "writes (c_actions c) = []" "run_state (get_scale env) c = (now, c1)"
    "Metrics (Spec (c_chpa c)) = [m]" "ms_Type m = ''Object''" "ms_Object m = Some src"
    "dep_Spec_Selector (c_deploy c) = Some sel" "LabelSelectorAsSelector (replicaCalc env) (Some sel) = Inr ls"
    "run_state (GetObjectMetric (replicaCalc env) (oms_MetricName src) (chpa_Namespace (c_chpa c)) (oms_Target src)) (c_ext c1) =
      (Inr (used, ts), w)"
    "tolerance (replicaCalc env) = defaultTolerance"
    "moderate (sint used) (sint (MilliValue (replicaCalc env) (oms_TargetValue src))) (sint n)"
    "dep_Spec_Replicas (c_deploy c) = Some n" "dep_Status_Replicas (c_deploy c) = n"
    "sane_bounds (Spec (c_chpa c))" "growth (Spec (c_chpa c)) k" "within_bounds (Spec (c_chpa c)) n"
    "windows_over (c_chpa c) now" "windows_over (c_chpa c) ts"
  shows "\<exists>p. nearly_ideal (sint used) (sint (MilliValue (replicaCalc env) (oms_TargetValue src))) (sint n) p \<and>
     sint (count_after n (writes (c_actions c'))) = max (lower_bound (Spec (c_chpa c)))
       (min (min (sint (MaxReplicas (Spec (c_chpa c)))) (max (k * sint n) (sint (ScaleUpLimitMinimum (Spec (c_chpa c)))))) p)"
  by (rule object_metric_count [OF assms])

theorem single_object_metric_witness:
  "sint (count_after 3 (writes (c_actions (snd (run_state (reconcileCHPA (web_env 3 400000000000)) (web_ctx 3)))))) = 6"
proof -
  let ?env = "web_env 3 400000000000" and ?c = "web_ctx 3"
  obtain res c' where r: "run_state (reconcileCHPA ?env) ?c = (res, c')" by (metis surj_pair)
  obtain c1 where s: "run_state (get_scale ?env) ?c = (400000000000, c1)" using web_demand by blast
  have w: "windows_over (c_chpa ?c) 400000000000"
    by (simp add: windows_over_def in_window_def web_ctx_def web_chpa_def web_spec_def web_status_def)
  have c: "c_chpa ?c = web_chpa" "c_deploy ?c = web_deploy 3" "Spec web_chpa = web_spec" "writes (c_actions ?c) = []"
    by (simp_all add: web_ctx_def web_chpa_def writes_def)
  have m: "moderate (sint (8000 :: int64)) (sint (4000 :: int64)) (sint (3 :: int32))" by (simp add: moderate_def ceil_div_def)
  have f: "Metrics web_spec = [queue_metric]" "ms_Type queue_metric = ''Object''" "ms_Object queue_metric = Some (the (ms_Object queue_metric))"
    "dep_Spec_Selector (web_deploy 3) = Some \<lparr>MatchLabels = [''app'' \<mapsto> ''web''], MatchExpressions = []\<rparr>"
    "LabelSelectorAsSelector (replicaCalc ?env) (Some \<lparr>MatchLabels = [''app'' \<mapsto> ''web''], MatchExpressions = []\<rparr>) = Inr ''app=web''"
    "\<And>a b d. run_state (GetObjectMetric (replicaCalc ?env) a b d) (c_ext c1) = (Inr (8000, 400000000000), c_ext c1)"
    "tolerance (replicaCalc ?env) = defaultTolerance"
    "MilliValue (replicaCalc ?env) (oms_TargetValue (the (ms_Object queue_metric))) = 4000"
    "dep_Spec_Replicas (web_deploy 3) = Some 3" "dep_Status_Replicas (web_deploy 3) = 3"
    by (simp_all add: web_defs)
  have b: "sint (MaxReplicas web_spec) = 10" "sint (ScaleUpLimitMinimum web_spec) = 4" by (simp_all add: web_spec_def)
  have "\<exists>p. nearly_ideal 8000 4000 3 p \<and> sint (count_after 3 (writes (c_actions c'))) = max 2 (min (min 10 (max 6 4)) p)"
    using single_object_metric [OF r c(4) s, of queue_metric "the (ms_Object queue_metric)"
        "\<lparr>MatchLabels = [''app'' \<mapsto> ''web''], MatchExpressions = []\<rparr>" "''app=web''" 8000 400000000000 "c_ext c1" 3 2]
      f m w web_sane(1) web_growth by (simp add: c b)
  then obtain p where "nearly_ideal 8000 4000 3 p" "sint (count_after 3 (writes (c_actions c'))) = max 2 (min (min 10 (max 6 4)) p)"
    by blast
  then show ?thesis by (auto simp: r nearly_ideal_def ideal_count_def ceil_div_def)
qed

section \<open>The entry point\<close>

text \<open>C12. \<open>Reconcile\<close> never returns an error, so the work queue never slows the CHPA down: a CHPA that is gone or
  invalid is dropped, every other one is looked at again after the sync period (but for a failure
  inside the reconcile, which needs an unsound metric source or a Deployment without a count).\<close>

theorem Reconcile_requeue:
  assumes "run_state (Reconcile env ns name) c = ((res, err), c')"
  shows "err = None \<and> \<not> Requeue res \<and>
     (case fst (run_state (get_chpa env ns name) (c_ext c)) of
        Inl (NotFound _) \<Rightarrow> RequeueAfter res = 0
      | Inl (OtherError _) \<Rightarrow> RequeueAfter res = syncPeriod env
      | Inr chpa0 \<Rightarrow>
          if checkCHPAValidity (sprintf0 env) (setCHPADefaults chpa0) \<noteq> Inr () then RequeueAfter res = 0
          else if \<exists>dep. fetched env ns name (c_ext c) (setCHPADefaults chpa0) dep
               \<and> (\<not> calm_calculator (replicaCalc env) \<or> dep_Spec_Replicas dep = None)
               then RequeueAfter res = 0 \<or> RequeueAfter res = syncPeriod env
               else RequeueAfter res = syncPeriod env)"
  using wp_Reconcile [OF dated_any, of env ns name c] assms 
  by (auto simp: wp_def outcome_def resStop_def resRepeat_def split: sum.splits api_error.splits if_splits)

theorem Reconcile_requeue_witness:
  "fst (run_state (Reconcile (web_env 3 5) ''prod'' ''web'') (web_ctx 3)) = (\<lparr>Requeue = False, RequeueAfter = 15000000000\<rparr>, None)"
proof -
  let ?env = "web_env 3 5"
  obtain res err c' where r: "run_state (Reconcile ?env ''prod'' ''web'') (web_ctx 3) = ((res, err), c')"
    by (metis surj_pair)
  have v: "checkCHPAValidity (sprintf0 ?env) (setCHPADefaults web_chpa) = Inr ()"
    by (simp add: checkCHPAValidity_ok setCHPADefaults_def web_defs metric_ok_def)
  have g: "fst (run_state (get_chpa ?env ''prod'' ''web'') (c_ext (web_ctx 3))) = Inr web_chpa"
    by (simp add: web_env_def)
  have f: "\<not> (\<exists>dep. fetched ?env ''prod'' ''web'' (c_ext (web_ctx 3)) (setCHPADefaults web_chpa) dep \<and>
      (\<not> calm_calculator (replicaCalc ?env) \<or> dep_Spec_Replicas dep = None))"
    using web_calm [of 3 5] by (auto simp: fetched_def web_env_def web_deploy_def SetControllerReference_def Let_def)
  have "err = None \<and> \<not> Requeue res \<and> RequeueAfter res = syncPeriod ?env"
    using Reconcile_requeue [OF r] unfolding g sum.case v by (simp only: f if_False simp_thms)
  then show ?thesis unfolding r by (cases res) (simp add: web_env_def)
qed

text \<open>A call of \<open>Reconcile\<close> writes nothing but what the specification permits for the objects it read: an
  invalid CHPA, one that is gone, a Deployment that is missing or controlled by another owner, are
  never written.\<close>

lemma Reconcile_writes:
  assumes "dated P env" "run_state (Reconcile env ns name) c = (out, c')"
  shows "\<exists>ws. writes (c_actions c') = writes (c_actions c) @ ws \<and>
     (ws = [] \<or> (\<exists>chpa dep. fetched env ns name (c_ext c) chpa dep \<and> permitted P env chpa dep ws))"
  using wp_Reconcile [OF assms(1), of ns name c] assms(2) by (auto simp: wp_def split: prod.splits)

lemma Reconcile_writes_witness:
  "\<exists>ws. writes (c_actions (snd (run_state (Reconcile (web_env 3 9) ''prod'' ''web'') (web_ctx 3)))) = ws \<and>
     (ws = [] \<or> (\<exists>chpa dep. fetched (web_env 3 9) ''prod'' ''web'' () chpa dep \<and>
                               permitted (\<lambda>u. u \<le> 9) (web_env 3 9) chpa dep ws))"
  using Reconcile_writes [OF web_dated surjective_pairing, of 3 9 "''prod''" "''web''" "web_ctx 3"]
  by (simp add: web_ctx_def)

text \<open>C14. The shape of the status.  Read a CHPA whose conditions are of the vocabulary the controller uses (three types, each
  with its statuses and reasons), no type occurring twice: whatever the API server, the clock and the
  metric sources answer, the conditions \<open>Reconcile\<close> writes are of that shape again, at most three.\<close>

theorem Reconcile_keeps_status_shape:
  assumes "run_state (Reconcile env ns name) c = (out, c')" "c_actions c = []"
    "fst (run_state (get_chpa env ns name) (c_ext c)) = Inr chpa0" "well_shaped (Conditions (Status chpa0))"
    "UpdateCHPA x \<in> set (c_actions c')"
  shows "distinct (map cond_Type (Conditions (Status x))) \<and> length (Conditions (Status x)) \<le> 3 \<and>
     (\<forall>e\<in>set (Conditions (Status x)). vocabulary (cond_Type e) (cond_Status e) (cond_Reason e))"
  using Reconcile_shape [OF assms] well_shaped_length [OF Reconcile_shape [OF assms]]
  by (auto simp: well_shaped_def list_all_iff documented_def)

theorem Reconcile_keeps_status_shape_witness:
  "\<exists>x. UpdateCHPA x \<in> set (c_actions (snd (run_state (Reconcile (web_env 3 400000000000) ''prod'' ''web'') (web_ctx 3)))) \<and>
     length (Conditions (Status x)) \<le> 3 \<and> distinct (map cond_Type (Conditions (Status x)))"
proof -
  obtain x where x: "UpdateCHPA x \<in> set (c_actions (snd (run_state (Reconcile (web_env 3 400000000000) ''prod'' ''web'') (web_ctx 3))))"
    using web_run_status by blast
  have "well_shaped (Conditions (Status web_chpa))" by (simp add: well_shaped_def web_chpa_def web_status_def)
  from Reconcile_keeps_status_shape [OF surjective_pairing _ _ this x] x show ?thesis
    by (auto simp: web_ctx_def web_env_def)
qed

text \<open>C36. The tolerance of a specification has no effect: with another tolerance, and a server that stores the field as it is
  given, \<open>reconcileCHPA\<close> has the same result, takes the same actions and leaves the same state, but for the
  tolerance in the objects it holds and writes.\<close>

theorem tolerance_is_ignored:
  assumes "\<And>x w. run_state (update_chpa env (x\<lparr>Spec := (Spec x)\<lparr>Tolerance := t\<rparr>\<rparr>)) w =
     (let ((e, y), w') = run_state (update_chpa env x) w in ((e, y\<lparr>Spec := (Spec y)\<lparr>Tolerance := t\<rparr>\<rparr>), w'))"
  shows "run_state (reconcileCHPA env) (in_memory t c) =
     (let (r, c') = run_state (reconcileCHPA env) c in (r, in_memory t c'))"
proof -
  have "stores_tolerance env t" using assms by (simp add: stores_tolerance_def retolerated_def)
  from blindD [OF blind_reconcile [OF this], of c] show ?thesis by (simp split: prod.splits)
qed

theorem tolerance_is_ignored_witness:
  "UpdateDeployment (scaled_to (web_deploy 3) 6) \<in>
     set (writes (c_actions (snd (run_state (reconcileCHPA (web_env 3 400000000000))
       ((web_ctx 3)\<lparr>c_chpa := web_chpa\<lparr>Spec := web_spec\<lparr>Tolerance := F_Num 5\<rparr>\<rparr>\<rparr>)))))"
proof -
  let ?env = "web_env 3 400000000000" and ?c = "web_ctx 3"
  have "in_memory (F_Num 5) ?c = ?c\<lparr>c_chpa := web_chpa\<lparr>Spec := web_spec\<lparr>Tolerance := F_Num 5\<rparr>\<rparr>\<rparr>"
    by (simp add: in_memory_def retolerated_def web_ctx_def web_chpa_def)
  moreover have "run_state (reconcileCHPA ?env) (in_memory (F_Num 5) ?c) =
     (let (r, c') = run_state (reconcileCHPA ?env) ?c in (r, in_memory (F_Num 5) c'))"
    by (rule tolerance_is_ignored) (simp add: web_env_def)
  ultimately show ?thesis using web_scales_up by (auto simp: updates_retold split: prod.splits)
qed

section \<open>The control loop\<close>

text \<open>C15. A valid CHPA is never lost: in every state the loop of cache, event handler, work queue and worker can reach,
  a CHPA of the cache that passes the validity check is due, being worked on, waiting for a time at
  most one sync period away, reported by its worker with a request to be called again, or announced
  by a notification that will make it due.\<close>

theorem valid_CHPA_is_tracked:
  assumes "reachable env cached s" "sound_env env cached"
    "cached (lp_world s) k = Some x" "checkCHPAValidity (sprintf0 env) (setCHPADefaults x) = Inr ()"
  shows "k \<in> wq_dirty (lp_queue s) \<or>
     (k \<in> wq_processing (lp_queue s) \<and> lp_results s k = None) \<or>
     (\<exists>res. lp_results s k = Some (res, None) \<and> RequeueAfter res = syncPeriod env) \<or>
     (\<exists>t. lp_waiting s k = Some t \<and> t \<le> lp_now s + sint (syncPeriod env)) \<or>
     (\<exists>e\<in>set (lp_pending s). k \<in> enqueues e)"
proof -
  have "valid_at env (cached (lp_world s)) k" using assms(3,4) by (auto simp: valid_at_def valid_chpa_def)
  then have "tracked env s k" by (rule loop_invD(2) [OF reachable_inv [OF assms(1,2)]])
  then show ?thesis unfolding tracked_def by (auto simp: resRepeat_def)
qed

theorem valid_CHPA_is_tracked_witness:
  "(''prod'', ''web'') \<in> wq_dirty (lp_queue web_loop_due)"
proof -
  have "checkCHPAValidity (sprintf0 (web_env 3 5)) (setCHPADefaults web_chpa) = Inr ()"
    by (simp add: checkCHPAValidity_ok setCHPADefaults_def setSpecDefaults_def web_defs metric_ok_def Let_def)
  from valid_CHPA_is_tracked [OF web_reachable web_sound _ this, of "(''prod'', ''web'')"] show ?thesis
    by (simp add: web_loop_due_def web_loop_def web_cache_def)
qed

text \<open>C17. A valid CHPA is never out of reach: from every reachable state there are steps of the loop, with time passing for at
  most one sync period, after which the worker holds it and is about to call \<open>Reconcile\<close> for it.\<close>

theorem valid_CHPA_can_run:
  assumes "reachable env cached s" "sound_env env cached" "announced env cached"
    "cached (lp_world s) k = Some x" "checkCHPAValidity (sprintf0 env) (setCHPADefaults x) = Inr ()"
  shows "\<exists>s'. rtranclp (loop_step env cached) s s' \<and> k \<in> wq_processing (lp_queue s') \<and> lp_results s' k = None \<and>
     lp_now s' \<le> lp_now s + sint (syncPeriod env)"
proof -
  have "valid_at env (cached (lp_world s)) k" using assms(4,5) by (auto simp: valid_at_def valid_chpa_def)
  then have "tracked env s k" by (rule loop_invD(2) [OF reachable_inv [OF assms(1,2)]])
  from tracked_runs [OF assms(3,1,2) this] show ?thesis unfolding about_to_run_def by blast
qed

theorem valid_CHPA_can_run_witness:
  "\<exists>s'. rtranclp (loop_step (web_env 3 5) web_cache) web_loop_due s' \<and> (''prod'', ''web'') \<in> wq_processing (lp_queue s') \<and>
     lp_now s' \<le> 15000000000"
proof -
  have v: "checkCHPAValidity (sprintf0 (web_env 3 5)) (setCHPADefaults web_chpa) = Inr ()"
    by (simp add: checkCHPAValidity_ok setCHPADefaults_def setSpecDefaults_def web_defs metric_ok_def Let_def)
  have "announced (web_env 3 5) web_cache"
    unfolding announced_def web_cache_def by (intro allI exI [of _ "[]"]) simp
  from valid_CHPA_can_run [OF web_reachable web_sound this _ v, of "(''prod'', ''web'')"] show ?thesis
    by (auto simp: web_loop_due_def web_loop_def web_cache_def web_env_def)
qed

text \<open>C18. The queue is fair: while a CHPA waits in it, every other key that is handed out was ahead of it.  Along any steps
  that do not hand it out, it stays in the queue, and the number of keys handed out is the number of places it
  has moved up; so at most the keys ahead of it come before it.\<close>

theorem queue_is_fair:
  assumes "reachable env cached s" "passed env cached k n s s'" "k \<in> set (wq_queue (lp_queue s))"
  shows "k \<in> set (wq_queue (lp_queue s')) \<and> length (ahead k s') + n = length (ahead k s)"
  using passed_ahead [OF assms(2,1,3)] by blast

theorem queue_is_fair_witness:
  "length (ahead (''prod'', ''web'') web_loop_due) + 0 = 0"
proof -
  have "(''prod'', ''web'') \<in> set (wq_queue (lp_queue web_loop_due))"
    by (simp add: web_loop_due_def wq_Add_def wq_empty_def Let_def)
  from queue_is_fair [OF web_reachable [of 3 5] passed_none this] show ?thesis
    by (simp add: ahead_def web_loop_due_def wq_Add_def wq_empty_def Let_def)
qed

text \<open>C20. The worker has one CHPA at a time, and neither starves nor repeats one: what the queue hands out is due and in
  nobody's hands, and it blocks only when every due CHPA is being worked on.\<close>

theorem one_worker_per_CHPA:
  assumes "reachable env cached s"
  shows "(\<forall>j\<in>wq_processing (lp_queue s). wq_processing (lp_queue s) = {j}) \<and>
     (case wq_Get (lp_queue s) of
        Some (k, q) \<Rightarrow> k \<in> wq_dirty (lp_queue s) \<and> k \<notin> wq_processing (lp_queue s) \<and> lp_results s k = None
      | None \<Rightarrow> wq_dirty (lp_queue s) \<subseteq> wq_processing (lp_queue s))"
proof -
  have ok: "wq_ok (lp_queue s)" "dom (lp_results s) \<subseteq> wq_processing (lp_queue s)"
    using reachable_ok [OF assms] by (simp_all add: loop_ok_def)
  have "case wq_Get (lp_queue s) of
        Some (k, q) \<Rightarrow> k \<in> wq_dirty (lp_queue s) \<and> k \<notin> wq_processing (lp_queue s) \<and> lp_results s k = None
      | None \<Rightarrow> wq_dirty (lp_queue s) \<subseteq> wq_processing (lp_queue s)"
  proof (cases "wq_Get (lp_queue s)")
    case None
    then show ?thesis using wq.get_None [OF ok(1)] by simp
  next
    case (Some p)
    obtain k q where p: "p = (k, q)" by (cases p)
    have "k \<in> wq_dirty (lp_queue s)" "k \<notin> wq_processing (lp_queue s)"
      using wq.get_due [OF ok(1)] wq.get_busy [OF ok(1)] Some p by blast+
    then show ?thesis using Some p ok(2) by auto
  qed
  then show ?thesis using one_at_a_time [OF assms] by blast
qed

theorem one_worker_per_CHPA_witness:
  "\<exists>q. wq_Get (lp_queue web_loop_due) = Some ((''prod'', ''web''), q) \<and> lp_results web_loop_due (''prod'', ''web'') = None"
proof -
  obtain q where q: "wq_Get (lp_queue web_loop_due) = Some ((''prod'', ''web''), q)"
    by (simp add: web_loop_due_def wq_Add_def wq_Get_def wq_empty_def Let_def)
  then show ?thesis using one_worker_per_CHPA [OF web_reachable [of 3 5]] by simp
qed

text \<open>C16. Every count any number of reconciles writes to a Deployment is justified by a CHPA that was read and found
  valid: the Deployment was not disabled, and the count is the violated bound, or a normalised
  proposal whose rescale was due at a time the clock or a metric source returned.\<close>

theorem loop_writes_are_justified:
  assumes "reachable env cached s" "dated P env" "UpdateDeployment d \<in> set (lp_actions s)"
  shows "\<exists>ns name w chpa dep n. fetched env ns name w chpa dep \<and>
     d = dep\<lparr>dep_Spec_Replicas := Some n\<rparr> \<and> justified P chpa dep n"
proof -
  have "UpdateDeployment d \<in> set (writes (lp_actions s))" using assms(3) by (simp add: writes_def)
  from history_deployment [OF reachable_history [OF assms(1,2)] this] show ?thesis by (simp add: scaled_to_def)
qed

theorem loop_writes_are_justified_witness:
  "\<exists>ns name w chpa dep. fetched (web_env 3 400000000000) ns name w chpa dep \<and>
     justified (\<lambda>u. u \<le> 400000000000) chpa dep 6"
proof -
  obtain s d where "reachable (web_env 3 400000000000) web_cache s" "UpdateDeployment d \<in> set (lp_actions s)"
    "dep_Spec_Replicas d = Some 6"
    using web_reachable_run by blast
  with loop_writes_are_justified [OF _ web_dated] show ?thesis by fastforce
qed

section \<open>Coming to rest\<close>

text \<open>C19. The controller does not drive itself.  With an API server that stores what it is given, and while the clock stands still
  and nobody else acts, the loop terminates from every reachable state: whatever order its steps are taken
  in, there are at most \<open>work cached s\<close> of them, and they can be taken until no notification, no due key, no
  expired delay and no key in a worker's hands is left.  In particular what a reconcile writes does not
  call for another reconcile but for the one time the defaults are stored.\<close>

theorem loop_comes_to_rest:
  assumes "reachable env cached s" "storing env cached" "sound_env env cached"
    "\<forall>k x. cached (lp_world s) k = Some x \<longrightarrow> numeric x"
  shows "(\<forall>n s'. (own_step env cached ^^ n) s s' \<longrightarrow> n \<le> work cached s) \<and>
     (\<exists>n s'. (own_step env cached ^^ n) s s' \<and> lp_pending s' = [] \<and> wq_dirty (lp_queue s') = {} \<and>
        wq_processing (lp_queue s') = {} \<and> (\<forall>k t. lp_waiting s' k = Some t \<longrightarrow> lp_now s' < t))"
proof -
  have "n \<le> work cached s" if "(own_step env cached ^^ n) s s'" for n s'
    using own_steps_bounded [OF that assms(1-3)] assms(4) by force
  moreover obtain n s' where r: "(own_step env cached ^^ n) s s'" "at_rest s'"
    using comes_to_rest [OF assms(1-3)] assms(4) by blast
  moreover have "lp_now s' < t" if "lp_waiting s' k = Some t" for k t
  proof -
    have "k \<notin> overdue s'" using r(2) by (simp add: at_rest_def)
    then show ?thesis using that by (simp add: overdue_def)
  qed
  ultimately show ?thesis unfolding at_rest_def by blast
qed

theorem loop_comes_to_rest_witness:
  "\<exists>n s'. (own_step (web_env 3 5) web_cache ^^ n) web_loop_due s' \<and> n \<le> 4 \<and> wq_dirty (lp_queue s') = {} \<and>
     wq_processing (lp_queue s') = {}"
proof -
  have w: "work web_cache web_loop_due = 4"
    using web_settled by (simp add: work_def unsettled_def overdue_def web_loop_due_def web_loop_def web_cache_def wq_Add_def wq_empty_def)
  have "\<forall>k x. web_cache (lp_world web_loop_due) k = Some x \<longrightarrow> numeric x"
    using web_settled by (auto simp: web_cache_def split: if_splits)
  from loop_comes_to_rest [of "web_env 3 5" web_cache web_loop_due, OF web_reachable web_storing web_sound this]
  show ?thesis unfolding w by blast
qed

section \<open>The count the metrics ask for\<close>

text \<open>The two outcomes of the calculation over the metrics.\<close>

lemma compute_chosen:
  assumes "fst (run_state (proposals env (dep_Status_Replicas (c_deploy c)) ms) c) = Inr ps" "ms \<noteq> []"
  shows "\<exists>m. fst (run_state (computeReplicasForMetrics env ms) c) = Inr m \<and> length ps = length ms \<and>
     sint (mr_replicas m) = chosen (map p_count ps) \<and>
     sint (fst (metric_desire now m)) = max 0 (Max (p_count ` set ps)) \<and> mr_statuses m = map p_status ps \<and>
     (\<exists>p\<in>set ps. mr_replicas m = fst p \<and> mr_timestamp m = fst (snd p) \<and> mr_metric m = fst (snd (snd p)))"
proof -
  let ?m = "take_all 0 ps (no_results (length ms))"
  have l: "length ps = length ms"
    using resultsD [OF proposals_length, of ms env "dep_Status_Replicas (c_deploy c)" c] assms(1) by simp
  then have ne: "ps \<noteq> []" using assms(2) by auto
  have "\<exists>p\<in>set ps. mr_replicas ?m = fst p \<and> mr_timestamp ?m = fst (snd p) \<and> mr_metric ?m = fst (snd (snd p))"
    by (rule take_all_first) (simp_all add: no_results_def ne)
  then show ?thesis
    using compute_value [of env ms c] compute_statuses [OF l] chosen_max [of "map p_count ps"] assms(1) l ne
    by (simp add: compute_count desire_count)
qed

lemma compute_stops:
  assumes "run_state (proposals env (dep_Status_Replicas (c_deploy c)) pre) c = (Inr ps, c1)"
    "run_state (proposals env (dep_Status_Replicas (c_deploy c)) [m]) c1 = (Inl e, c2)"
  shows "run_state (computeReplicasForMetrics env (pre @ m # post)) c = (Inl e, c2)"
proof (rule compute_failure)
  have "run_state (proposals env (dep_Status_Replicas (c_deploy c)) (m # post)) c1 = (Inl e, c2)"
    using proposals_append [of env _ "[m]" post c1] assms(2) by simp
  then show "run_state (proposals env (dep_Status_Replicas (c_deploy c)) (pre @ m # post)) c = (Inl e, c2)"
    using assms(1) by (simp add: proposals_append)
qed

text \<open>C24. What the calculation over the metrics returns when every metric yields a proposal.  With a positive proposal the count is
  the largest of them.  Otherwise a zero counts as no count yet and wipes out what came before it, and the count is the largest
  of the proposals behind the last zero, or zero: after 0 and \<open>-2^31\<close> it is \<open>-2^31\<close>.  Either way \<open>reconcileCHPA\<close>
  goes on with the largest proposal, or with zero when that is negative.  The timestamp and the name are those of a metric that
  proposed the count, and the statuses are those of the metrics, in their order.  The metrics are looked at in order and the
  first failure ends the calculation: with
  the metrics \<open>pre\<close> in order and \<open>m\<close> failing after them, it ends with the error of \<open>m\<close> in the very state \<open>m\<close>
  left, so no later metric is asked for anything and no event or condition is added.\<close>

theorem compute_takes_maximum:
  assumes "ms = pre @ m # post"
  shows "(\<forall>ps. fst (run_state (proposals env (dep_Status_Replicas (c_deploy c)) ms) c) = Inr ps \<longrightarrow>
       (\<exists>r. fst (run_state (computeReplicasForMetrics env ms) c) = Inr r \<and> length ps = length ms \<and>
          sint (mr_replicas r) = (if \<exists>p\<in>set ps. 0 < p_count p then Max (p_count ` set ps)
            else (let late = takeWhile (\<lambda>p. p_count p \<noteq> 0) (rev ps) in if late = [] then 0 else Max (p_count ` set late))) \<and>
          sint (fst (metric_desire now r)) = max 0 (Max (p_count ` set ps)) \<and> mr_statuses r = map p_status ps \<and>
          (\<exists>p\<in>set ps. mr_replicas r = fst p \<and> mr_timestamp r = fst (snd p) \<and> mr_metric r = fst (snd (snd p))))) \<and>
     (\<forall>ps c1 e c2. run_state (proposals env (dep_Status_Replicas (c_deploy c)) pre) c = (Inr ps, c1) \<and>
        run_state (proposals env (dep_Status_Replicas (c_deploy c)) [m]) c1 = (Inl e, c2) \<longrightarrow>
        run_state (computeReplicasForMetrics env ms) c = (Inl e, c2))"
proof -
  have "chosen (map p_count ps) = (if \<exists>p\<in>set ps. 0 < p_count p then Max (p_count ` set ps)
      else (let late = takeWhile (\<lambda>p. p_count p \<noteq> 0) (rev ps) in if late = [] then 0 else Max (p_count ` set late)))" for ps
    by (simp add: chosen_def Let_def rev_map takeWhile_map comp_def)
  then show ?thesis using compute_chosen [of env c ms _ now] compute_stops [of env c pre _ _ m _ _ post] by (simp add: assms)
qed

theorem compute_takes_maximum_witness:
  "(\<exists>r. fst (run_state (computeReplicasForMetrics (web_env 3 9) [queue_metric]) (web_ctx 3)) = Inr r \<and>
      sint (mr_replicas r) = 6 \<and> mr_timestamp r = 9) \<and>
   fst (run_state (computeReplicasForMetrics (web_env 3 9) [queue_metric, broken_metric, queue_metric]) (web_ctx 3)) =
     Inl (Err ''failed to get pods metric value: unable to get metric rps: no metrics'')"
proof
  let ?run = "\<lambda>ms. run_state (proposals (web_env 3 9) (dep_Status_Replicas (c_deploy (web_ctx 3))) ms)"
  obtain st where p: "fst (?run [queue_metric] (web_ctx 3)) = Inr [(6, 9, ''Service metric depth'', st)]"
    by (simp add: web_eval)
  show "\<exists>r. fst (run_state (computeReplicasForMetrics (web_env 3 9) [queue_metric]) (web_ctx 3)) = Inr r \<and>
      sint (mr_replicas r) = 6 \<and> mr_timestamp r = 9"
    using compute_takes_maximum [of "[queue_metric]" "[]" queue_metric "[]" "web_env 3 9" "web_ctx 3", THEN conjunct1] p by auto
  obtain ps c1 where p1: "?run [queue_metric] (web_ctx 3) = (Inr ps, c1)" and c1: "c1 = web_ctx 3"
    by (simp add: web_eval)
  obtain c2 where p2: "?run [broken_metric] c1 = (Inl (Err ''failed to get pods metric value: unable to get metric rps: no metrics''), c2)"
    by (simp add: web_eval c1 broken_metric_def pods_proposal_def GetMetricReplicas_def)
  show "fst (run_state (computeReplicasForMetrics (web_env 3 9) [queue_metric, broken_metric, queue_metric]) (web_ctx 3)) =
     Inl (Err ''failed to get pods metric value: unable to get metric rps: no metrics'')"
    using compute_takes_maximum [of "[queue_metric, broken_metric, queue_metric]" "[queue_metric]" broken_metric "[queue_metric]"
        "web_env 3 9" "web_ctx 3", THEN conjunct2] p1 p2 by simp
qed

text \<open>Valid metrics and sound sources: the calculation over the metrics never panics.\<close>

lemma compute_never_panics:
  assumes "clients_ok (replicaCalc env)" "checkCHPAMetricsValidity ms = Inr ()"
  shows "fst (run_state (computeReplicasForMetrics env ms) c) \<noteq> Inl (Panic p)"
  using resultsD [OF compute_calm [OF clients_ok_calm [OF assms(1)]]] assms(2)
  by (simp add: checkCHPAMetricsValidity_ok calm_def)

lemma compute_never_panics_witness:
  "fst (run_state (computeReplicasForMetrics (web_env 3 9) [queue_metric]) (web_ctx 3)) \<noteq> Inl (Panic ''index out of range'')"
proof -
  have "clients_ok (replicaCalc (web_env 3 9))" by (simp add: clients_ok_def web_defs)
  then show ?thesis by (rule compute_never_panics) (simp add: queue_metric_def)
qed

text \<open>When the calculation over the metrics fails, nothing is decided: the Deployment is not written, and the CHPA at
  most once, with the current count and the old time of the last scale.\<close>

lemma metrics_failure_stops:
  assumes "fst (run_state (computeReplicasForMetrics env (Metrics (Spec (c_chpa c)))) c) = Inl (Err e)"
    "run_state (metrics_decision env old cur now) c = (r, c')"
  shows "r = Inr None \<and>
     (\<exists>x. x = (c_chpa c)\<lparr>Status := Status x\<rparr> \<and> CurrentReplicas (Status x) = cur \<and>
        LastScaleTime (Status x) = LastScaleTime (Status (c_chpa c)) \<and>
        writes (c_actions c') = writes (c_actions c) @ (if Status x = old then [] else [UpdateCHPA x]))"
proof -
  obtain x where "r = Inr None" "with_current (c_chpa c) cur x" "wrote old c c' x"
    using wp_metrics_failure [OF assms(1), of old cur now] assms(2) by (auto simp: wp_def)
  then show ?thesis using with_currentD unfolding wrote_def by blast
qed

lemma metrics_failure_stops_witness:
  "fst (run_state (metrics_decision (web_env 3 9) (web_status None) 3 9) (broken_ctx 3)) = Inr None"
proof -
  let ?c = "broken_ctx 3"
  have e: "fst (run_state (computeReplicasForMetrics (web_env 3 9) (Metrics (Spec (c_chpa ?c)))) ?c) =
      Inl (Err ''failed to get pods metric value: unable to get metric rps: no metrics'')"
    by (simp add: web_eval broken_ctx_def broken_metric_def pods_proposal_def GetMetricReplicas_def)
  show ?thesis using metrics_failure_stops [OF e surjective_pairing] by blast
qed

text \<open>A specification without metrics asks for nothing, so the count is driven to the lower bound: the calculation
  succeeds with no replicas, and the decision is the minimum (one, where none is set).\<close>

lemma no_metrics_mean_minimum:
  assumes "sane_bounds (Spec chpa)" "0 \<le> max_allowed chpa cur (MaxReplicas (Spec chpa))"
  shows "fst (run_state (computeReplicasForMetrics env []) c) = Inr (no_results 0) \<and>
     metric_desire now (no_results 0) = (0, now, []) \<and>
     sint (normalized chpa cur 0) = (case MinReplicas (Spec chpa) of Some m \<Rightarrow> max 1 (sint m) | None \<Rightarrow> 1)"
proof -
  have z: "sint m \<noteq> 0" if "m \<noteq> 0" for m :: int32 using that sint_eq_iff [of m 0] by simp
  then have "sint (normalized chpa cur 0) = (case MinReplicas (Spec chpa) of Some m \<Rightarrow> max 1 (sint m) | None \<Rightarrow> 1)"
    using lower_bound_props(1) [OF assms(1)] assms(1)
    by (auto simp: normalized_cut lower_bound_def min_allowed_def sane_bounds_def split: option.splits)
  then show ?thesis by (simp add: compute_value metric_desire_def no_results_def)
qed

lemma no_metrics_mean_minimum_witness:
  "sint (normalized web_chpa 3 0) = 2"
proof -
  have "sint (calculateScaleUpLimit web_chpa 3) = 6"
    by (simp add: calculateScaleUpLimit_def web_chpa_def web_spec_def defaultScaleUpLimitFactor_def f64_eval)
  then have "0 \<le> max_allowed web_chpa 3 (MaxReplicas (Spec web_chpa))"
    by (simp add: max_allowed_def web_chpa_def web_spec_def)
  then show ?thesis
    using no_metrics_mean_minimum [of web_chpa 3 "web_env 3 9" "web_ctx 3" 9] web_sane(1)
    by (simp add: web_chpa_def) (simp add: web_spec_def)
qed

text \<open>After a calculation the condition \<open>AbleToScale\<close> tells which forbidden windows are still open at the time of the
  metrics: both, the one for scaling down, the one for scaling up, or none.  Every other condition says
  what it said.\<close>

lemma backoff_conditions_report:
  "\<exists>m. says (Conditions (Status (c_chpa (snd (run_state (backoff_conditions env ts) c))))) =
     (says (Conditions (Status (c_chpa c))))(''AbleToScale'' := Some
       (if in_window (c_chpa c) (DownscaleForbiddenWindowSeconds (Spec (c_chpa c))) ts
        then (''False'', if in_window (c_chpa c) (UpscaleForbiddenWindowSeconds (Spec (c_chpa c))) ts
                         then ''BackoffBoth'' else ''BackoffDownscale'', m)
        else if in_window (c_chpa c) (UpscaleForbiddenWindowSeconds (Spec (c_chpa c))) ts
        then (''False'', ''BackoffUpscale'', m)
        else (''True'', ''ReadyForNewScale'', m)))"
  using wp_backoff_conditions [of env ts c]
  by (auto simp: wp_def reads_def backoff_says_def Let_def)

end
